(* ===== verification/Prelude.thy ===== *)
theory Prelude
  imports Complex_Main "HOL-Library.Sublist"
begin

text \<open>
  Shared vocabulary of the FreshBite model (src/llm-service/main.py).
  Python \<open>str\<close> values are sequences of Unicode code points; they are modelled as lists of
  natural numbers (\<open>ustr\<close>), so that slicing (\<open>text[:150]\<close>) and \<open>len\<close> count code
  points as Python does. ASCII literals of the source are written \<open>ustr_of ''...''\<close>.
  This theory holds the string primitives the handler uses (\<open>str.lower\<close>, the \<open>in\<close>
  operator on strings, \<open>str.join\<close>, \<open>str(int)\<close> with CPython's limit on the number of
  digits it prints), round-half-even division on
  naturals, and the named collection \<open>py_defs\<close> of definitions that evaluation of the
  model on concrete inputs unfolds.
\<close>

named_theorems py_defs "definitions unfolded to evaluate the model on concrete inputs"

type_synonym uchar = nat
type_synonym ustr = "uchar list"

abbreviation ustr_of :: "string \<Rightarrow> ustr" where
  "ustr_of s \<equiv> map of_char s"

subsection \<open>\<open>str.lower\<close>\<close>

text \<open>
  Python lowers every cased code point by the Unicode case mapping, and one code point may
  lower to two (U+0130, capital I with dot above, lowers to \<open>i\<close> followed by U+0307).
  The model maps the cased letters of these blocks as Python does: ASCII A-Z, the Latin-1
  capitals U+00C0-U+00DE (except U+00D7), the pairs of Latin Extended-A (U+0100-U+017E, with
  U+0130 as above and U+0178 to U+00FF), the Greek capitals with and without tonos except
  U+03A3 (whose lowering depends on the position in the word), the basic Cyrillic capitals
  U+0400-U+042F, the Ohm, Kelvin and Angstrom signs (U+2126, U+212A to ASCII \<open>k\<close>,
  U+212B) and the full-width Latin capitals U+FF21-U+FF3A. Every other code point is left
  unchanged.
\<close>

definition py_lower_char :: "uchar \<Rightarrow> ustr" where
  "py_lower_char c =
     (if 65 \<le> c \<and> c \<le> 90 then [c + 32]
      else if 192 \<le> c \<and> c \<le> 222 \<and> c \<noteq> 215 then [c + 32]
      else if c = 304 then [105, 775]
      else if 256 \<le> c \<and> c \<le> 311 \<and> even c then [c + 1]
      else if 313 \<le> c \<and> c \<le> 328 \<and> odd c then [c + 1]
      else if 330 \<le> c \<and> c \<le> 375 \<and> even c then [c + 1]
      else if c = 376 then [255]
      else if 377 \<le> c \<and> c \<le> 382 \<and> odd c then [c + 1]
      else if c = 902 then [940]
      else if 904 \<le> c \<and> c \<le> 906 then [c + 37]
      else if c = 908 then [972]
      else if 910 \<le> c \<and> c \<le> 911 then [c + 63]
      else if (913 \<le> c \<and> c \<le> 929) \<or> (932 \<le> c \<and> c \<le> 939) then [c + 32]
      else if 1024 \<le> c \<and> c \<le> 1039 then [c + 80]
      else if 1040 \<le> c \<and> c \<le> 1071 then [c + 32]
      else if c = 8486 then [969]
      else if c = 8490 then [107]
      else if c = 8491 then [229]
      else if 65313 \<le> c \<and> c \<le> 65338 then [c + 32]
      else [c])"

text \<open>The code points the model lowers (the conditions of \<open>py_lower_char\<close>).\<close>

definition py_upper :: "uchar \<Rightarrow> bool" where
  "py_upper c =
     ((65 \<le> c \<and> c \<le> 90) \<or> (192 \<le> c \<and> c \<le> 222 \<and> c \<noteq> 215) \<or> c = 304 \<or>
      (256 \<le> c \<and> c \<le> 311 \<and> even c) \<or> (313 \<le> c \<and> c \<le> 328 \<and> odd c) \<or>
      (330 \<le> c \<and> c \<le> 375 \<and> even c) \<or> c = 376 \<or> (377 \<le> c \<and> c \<le> 382 \<and> odd c) \<or>
      c = 902 \<or> (904 \<le> c \<and> c \<le> 906) \<or> c = 908 \<or> (910 \<le> c \<and> c \<le> 911) \<or>
      (913 \<le> c \<and> c \<le> 929) \<or> (932 \<le> c \<and> c \<le> 939) \<or> (1024 \<le> c \<and> c \<le> 1039) \<or>
      (1040 \<le> c \<and> c \<le> 1071) \<or> c = 8486 \<or> c = 8490 \<or> c = 8491 \<or> (65313 \<le> c \<and> c \<le> 65338))"

definition py_lower :: "ustr \<Rightarrow> ustr" where
  "py_lower s = concat (map py_lower_char s)"

declare py_lower_char_def [py_defs] py_lower_def [py_defs]

subsection \<open>The \<open>in\<close> operator on strings\<close>

fun py_startswith :: "'a list \<Rightarrow> 'a list \<Rightarrow> bool" where
  "py_startswith [] s = True"
| "py_startswith (p # ps) [] = False"
| "py_startswith (p # ps) (c # cs) = (p = c \<and> py_startswith ps cs)"

text \<open>\<open>needle in hay\<close>: the needle starts at some position of the haystack.\<close>

fun py_in :: "'a list \<Rightarrow> 'a list \<Rightarrow> bool" where
  "py_in n [] = (n = [])"
| "py_in n (c # cs) = (py_startswith n (c # cs) \<or> py_in n cs)"

subsection \<open>\<open>str.join\<close>\<close>

fun py_join :: "'a list \<Rightarrow> 'a list list \<Rightarrow> 'a list" where
  "py_join sep [] = []"
| "py_join sep [x] = x"
| "py_join sep (x # y # ys) = x @ sep @ py_join sep (y # ys)"

subsection \<open>\<open>str(int)\<close>: decimal digits\<close>

fun py_digits :: "nat \<Rightarrow> ustr" where
  "py_digits n = (if n < 10 then [48 + n] else py_digits (n div 10) @ [48 + n mod 10])"

declare py_digits.simps [simp del, py_defs]

definition py_str_int :: "int \<Rightarrow> ustr" where
  "py_str_int i = (if i < 0 then 45 # py_digits (nat (- i)) else py_digits (nat i))"

declare py_str_int_def [py_defs]

text \<open>CPython 3.11 and later refuse to convert an int of more than
  \<open>sys.get_int_max_str_digits()\<close> decimal digits (4300 by default) to a string:
  \<open>str(k)\<close> and \<open>f'{k}'\<close> raise \<open>ValueError\<close> (Objects/longobject.c,
  \<open>long_to_decimal_string_internal\<close>), and so does \<open>int(s)\<close>, and with it
  \<open>json.loads\<close>, on a literal of more digits. \<open>str_digits_ok k\<close> holds when \<open>k\<close>
  is within the limit; the sign does not count.\<close>

definition int_max_str_digits :: nat where
  "int_max_str_digits = 4300"

definition str_digits_ok :: "int \<Rightarrow> bool" where
  "str_digits_ok k = (length (py_digits (nat \<bar>k\<bar>)) \<le> int_max_str_digits)"

declare int_max_str_digits_def [py_defs] str_digits_ok_def [py_defs]

subsection \<open>Rounding half to even\<close>

text \<open>
  \<open>rhe a b\<close> is \<open>a / b\<close> rounded to the nearest natural, ties to the even one: the
  rounding of IEEE 754 arithmetic and of Python's \<open>round\<close> and \<open>format\<close>.
\<close>

definition rhe :: "nat \<Rightarrow> nat \<Rightarrow> nat" where
  "rhe a b = (let q = a div b; r = a mod b in
     if 2 * r < b then q else if b < 2 * r then q + 1 else if even q then q else q + 1)"

declare rhe_def [py_defs]

subsection \<open>Generic lemmas\<close>

lemma py_startswith_prefix [simp]: "py_startswith p s = prefix p s"
  by (induction p s rule: py_startswith.induct) auto

lemma py_in_sublist: "py_in n h = sublist n h"
  by (induction h) (auto simp: sublist_Cons_right)

lemma py_in_append_left: "py_in n h \<Longrightarrow> py_in n (p @ h)"
  by (simp add: py_in_sublist sublist_def) (metis append_assoc)

lemma py_in_Nil [simp]: "py_in [] h"
  by (simp add: py_in_sublist)

lemma py_lower_char_upper:
  assumes u: "py_upper c" and d: "d \<in> set (py_lower_char c)"
  shows "\<not> py_upper d"
  using u unfolding py_upper_def [of c]
proof (elim disjE)
  assume r: "65 \<le> c \<and> c \<le> 90"
  then have "py_lower_char c = [c + 32]" by (simp add: py_lower_char_def)
  with d r show ?thesis by (auto simp: py_upper_def)
next
  assume r: "192 \<le> c \<and> c \<le> 222 \<and> c \<noteq> 215"
  then have "py_lower_char c = [c + 32]" by (simp add: py_lower_char_def)
  with d r show ?thesis by (auto simp: py_upper_def)
next
  assume r: "c = 304"
  then have "py_lower_char c = [105, 775]" by (simp add: py_lower_char_def)
  with d r show ?thesis by (auto simp: py_upper_def)
next
  assume r: "256 \<le> c \<and> c \<le> 311 \<and> even c"
  show ?thesis
  proof (cases "c = 304")
    case True
    then have "py_lower_char c = [105, 775]" by (simp add: py_lower_char_def)
    with d show ?thesis by (auto simp: py_upper_def)
  next
    case False
    with r have "py_lower_char c = [c + 1]" by (simp add: py_lower_char_def)
    with d r show ?thesis by (auto simp: py_upper_def)
  qed
next
  assume r: "313 \<le> c \<and> c \<le> 328 \<and> odd c"
  then have "py_lower_char c = [c + 1]" by (simp add: py_lower_char_def)
  with d r show ?thesis by (auto simp: py_upper_def)
next
  assume r: "330 \<le> c \<and> c \<le> 375 \<and> even c"
  then have "py_lower_char c = [c + 1]" by (simp add: py_lower_char_def)
  with d r show ?thesis by (auto simp: py_upper_def)
next
  assume r: "c = 376"
  then have "py_lower_char c = [255]" by (simp add: py_lower_char_def)
  with d r show ?thesis by (auto simp: py_upper_def)
next
  assume r: "377 \<le> c \<and> c \<le> 382 \<and> odd c"
  then have "py_lower_char c = [c + 1]" by (simp add: py_lower_char_def)
  with d r show ?thesis by (auto simp: py_upper_def)
next
  assume r: "c = 902"
  then have "py_lower_char c = [940]" by (simp add: py_lower_char_def)
  with d r show ?thesis by (auto simp: py_upper_def)
next
  assume r: "904 \<le> c \<and> c \<le> 906"
  then have "py_lower_char c = [c + 37]" by (simp add: py_lower_char_def)
  with d r show ?thesis by (auto simp: py_upper_def)
next
  assume r: "c = 908"
  then have "py_lower_char c = [972]" by (simp add: py_lower_char_def)
  with d r show ?thesis by (auto simp: py_upper_def)
next
  assume r: "910 \<le> c \<and> c \<le> 911"
  then have "py_lower_char c = [c + 63]" by (simp add: py_lower_char_def)
  with d r show ?thesis by (auto simp: py_upper_def)
next
  assume r: "913 \<le> c \<and> c \<le> 929"
  then have "py_lower_char c = [c + 32]" by (simp add: py_lower_char_def)
  with d r show ?thesis by (auto simp: py_upper_def)
next
  assume r: "932 \<le> c \<and> c \<le> 939"
  then have "py_lower_char c = [c + 32]" by (simp add: py_lower_char_def)
  with d r show ?thesis by (auto simp: py_upper_def)
next
  assume r: "1024 \<le> c \<and> c \<le> 1039"
  then have "py_lower_char c = [c + 80]" by (simp add: py_lower_char_def)
  with d r show ?thesis by (auto simp: py_upper_def)
next
  assume r: "1040 \<le> c \<and> c \<le> 1071"
  then have "py_lower_char c = [c + 32]" by (simp add: py_lower_char_def)
  with d r show ?thesis by (auto simp: py_upper_def)
next
  assume r: "c = 8486"
  then have "py_lower_char c = [969]" by (simp add: py_lower_char_def)
  with d r show ?thesis by (auto simp: py_upper_def)
next
  assume r: "c = 8490"
  then have "py_lower_char c = [107]" by (simp add: py_lower_char_def)
  with d r show ?thesis by (auto simp: py_upper_def)
next
  assume r: "c = 8491"
  then have "py_lower_char c = [229]" by (simp add: py_lower_char_def)
  with d r show ?thesis by (auto simp: py_upper_def)
next
  assume r: "65313 \<le> c \<and> c \<le> 65338"
  then have "py_lower_char c = [c + 32]" by (simp add: py_lower_char_def)
  with d r show ?thesis by (auto simp: py_upper_def)
qed

lemma py_lower_char_fixed: "d \<in> set (py_lower_char c) \<Longrightarrow> py_lower_char d = [d]"
proof -
  assume d: "d \<in> set (py_lower_char c)"
  have "\<not> py_upper d"
  proof (cases "py_upper c")
    case False
    then have "py_lower_char c = [c]"
      unfolding py_upper_def py_lower_char_def by auto
    with d False show ?thesis by simp
  next
    case True
    show ?thesis by (rule py_lower_char_upper [OF True d])
  qed
  then show ?thesis
    unfolding py_upper_def py_lower_char_def by auto
qed

lemma py_lower_fixed: "(\<forall>d\<in>set s. py_lower_char d = [d]) \<Longrightarrow> py_lower s = s"
  by (induction s) (simp_all add: py_lower_def)

lemma py_lower_idem [simp]: "py_lower (py_lower s) = py_lower s"
  by (rule py_lower_fixed) (auto simp: py_lower_def dest: py_lower_char_fixed)

lemma py_lower_ascii: "c < 128 \<Longrightarrow> py_lower_char c = [if 65 \<le> c \<and> c \<le> 90 then c + 32 else c]"
  by (simp add: py_lower_char_def)

lemma py_lower_append [simp]: "py_lower (xs @ ys) = py_lower xs @ py_lower ys"
  by (simp add: py_lower_def)

lemma py_digits_nonempty: "py_digits n \<noteq> []"
  by (subst py_digits.simps) simp

lemma length_py_digits_le: "n < 10 ^ k \<Longrightarrow> 0 < k \<Longrightarrow> length (py_digits n) \<le> k"
proof (induction n arbitrary: k rule: py_digits.induct)
  case (1 n)
  show ?case
  proof (cases "n < 10")
    case True
    with "1.prems" show ?thesis by (simp add: py_digits.simps [of n])
  next
    case False
    have k: "2 \<le> k"
    proof (rule ccontr)
      assume "\<not> 2 \<le> k"
      then have "(10::nat) ^ k \<le> 10 ^ 1" by (intro power_increasing) simp_all
      with "1.prems"(1) False show False by simp
    qed
    then obtain j where j: "k = Suc j" and j0: "0 < j" by (cases k) auto
    have "n div 10 < 10 ^ j"
      using "1.prems"(1) by (simp add: j div_less_iff_less_mult mult.commute)
    then have "length (py_digits (n div 10)) \<le> j"
      using False j0 by (intro "1.IH") simp_all
    with False j show ?thesis by (simp add: py_digits.simps [of n])
  qed
qed

lemma length_py_digits_gt: "10 ^ k \<le> n \<Longrightarrow> k < length (py_digits n)"
proof (induction n arbitrary: k rule: py_digits.induct)
  case (1 n)
  show ?case
  proof (cases k)
    case 0
    then show ?thesis using py_digits_nonempty [of n] by simp
  next
    case (Suc j)
    have "(10::nat) ^ 1 \<le> 10 ^ k" using Suc by (intro power_increasing) simp_all
    with "1.prems" have n: "\<not> n < 10" by simp
    have "10 ^ j \<le> n div 10"
      using "1.prems" by (simp add: Suc less_eq_div_iff_mult_less_eq mult.commute)
    then have "j < length (py_digits (n div 10))"
      using n by (intro "1.IH") simp_all
    with n Suc show ?thesis by (simp add: py_digits.simps [of n])
  qed
qed

lemma str_digits_ok_iff: "str_digits_ok k \<longleftrightarrow> \<bar>k\<bar> < 10 ^ int_max_str_digits"
proof
  assume ok: "str_digits_ok k"
  show "\<bar>k\<bar> < 10 ^ int_max_str_digits"
  proof (rule ccontr)
    assume "\<not> \<bar>k\<bar> < 10 ^ int_max_str_digits"
    then have "10 ^ int_max_str_digits \<le> nat \<bar>k\<bar>"
      by (simp add: nat_le_iff of_nat_power [symmetric] del: of_nat_power)
    then have "int_max_str_digits < length (py_digits (nat \<bar>k\<bar>))"
      by (rule length_py_digits_gt)
    with ok show False by (simp add: str_digits_ok_def)
  qed
next
  assume "\<bar>k\<bar> < 10 ^ int_max_str_digits"
  then have "nat \<bar>k\<bar> < 10 ^ int_max_str_digits"
    by (simp add: nat_less_iff of_nat_power [symmetric] del: of_nat_power)
  then show "str_digits_ok k"
    unfolding str_digits_ok_def by (rule length_py_digits_le) (simp add: int_max_str_digits_def)
qed

lemma py_digits_are_digits: "d \<in> set (py_digits n) \<Longrightarrow> 48 \<le> d \<and> d \<le> 57"
proof (induction n rule: py_digits.induct)
  case (1 n)
  show ?case
  proof (cases "n < 10")
    case True
    with "1.prems" show ?thesis by (simp add: py_digits.simps [of n])
  next
    case False
    with "1.prems" have "d \<in> set (py_digits (n div 10)) \<or> d = 48 + n mod 10"
      by (auto simp: py_digits.simps [of n])
    with False "1.IH" show ?thesis by auto
  qed
qed

lemma prefix_py_join: "prefix x (py_join sep (x # ys))"
  by (cases ys) auto

lemma suffix_py_join_last: "suffix x (py_join sep (xs @ [x]))"
proof (induction xs)
  case (Cons y ys)
  then show ?case by (cases ys) (auto simp: suffix_def)
qed simp

lemma py_join_single [simp]: "py_join sep [x] = x"
  by simp

lemma rhe_bounds:
  assumes "0 < b"
  shows "2 * a \<le> 2 * b * rhe a b + b \<and> 2 * b * rhe a b \<le> 2 * a + b"
proof -
  define q r where "q = a div b" and "r = a mod b"
  have a: "a = b * q + r" and r: "r < b"
    using assms by (simp_all add: q_def r_def)
  show ?thesis
    unfolding rhe_def Let_def q_def [symmetric] r_def [symmetric]
    using r by (auto simp: a algebra_simps)
qed

lemma rhe_exact [simp]: "0 < b \<Longrightarrow> rhe (k * b) b = k"
  by (simp add: rhe_def)

lemma rhe_le:
  assumes "0 < b" and "a \<le> k * b"
  shows "rhe a b \<le> k"
proof -
  have q: "a div b \<le> k"
    using div_le_mono [OF assms(2), of b] assms(1) by simp
  show ?thesis
  proof (cases "a div b = k")
    case True
    have "b * (a div b) \<le> a" by (simp add: times_div_less_eq_dividend)
    with True assms(2) have "a = k * b" by (simp add: mult.commute)
    with assms(1) show ?thesis by simp
  next
    case False
    with q show ?thesis by (auto simp: rhe_def Let_def)
  qed
qed

lemma rhe_ge:
  assumes "0 < b" and "k * b \<le> a"
  shows "k \<le> rhe a b"
proof -
  have "k \<le> a div b"
    using div_le_mono [OF assms(2), of b] assms(1) by simp
  then show ?thesis by (auto simp: rhe_def Let_def)
qed

lemma rhe_rat:
  assumes "0 < b"
  shows "\<bar>of_nat (rhe a b) - of_nat a / of_nat b\<bar> \<le> (1::rat) / 2"
proof -
  have h: "2 * a \<le> 2 * b * rhe a b + b \<and> 2 * b * rhe a b \<le> 2 * a + b"
    by (rule rhe_bounds [OF assms])
  then have l: "2 * of_nat a \<le> 2 * of_nat b * of_nat (rhe a b) + (of_nat b :: rat)"
    and u: "2 * of_nat b * of_nat (rhe a b) \<le> 2 * of_nat a + (of_nat b :: rat)"
    by (simp_all only: of_nat_le_iff [symmetric, where 'a = rat] of_nat_add of_nat_mult
        of_nat_numeral)
  have bp: "(0::rat) < of_nat b" using assms by simp
  have "of_nat a / of_nat b \<le> of_nat (rhe a b) + (1::rat) / 2"
    using l bp by (simp add: pos_divide_le_eq algebra_simps)
  moreover have "(of_nat (rhe a b) - (1::rat) / 2) * of_nat b \<le> of_nat a"
    using u by (simp add: algebra_simps)
  then have "of_nat (rhe a b) - (1::rat) / 2 \<le> of_nat a / of_nat b"
    by (simp only: pos_le_divide_eq [OF bp])
  ultimately show ?thesis
    unfolding abs_le_iff by linarith
qed

lemma subseq_set_subset: "subseq xs ys \<Longrightarrow> set xs \<subseteq> set ys"
  by (auto dest: list_emb_set)

lemma subseq_singleton: "x \<in> set xs \<Longrightarrow> subseq [x] xs"
  by (induction xs) (auto simp: subseq_Cons2_iff)

lemma py_digits_hd: "\<exists>d ds. py_digits n = d # ds \<and> 48 \<le> d"
proof -
  obtain d ds where "py_digits n = d # ds"
    using py_digits_nonempty by (cases "py_digits n") auto
  moreover from this have "48 \<le> d"
    using py_digits_are_digits [of d n] by simp
  ultimately show ?thesis by blast
qed

lemma not_prefix_digits: "\<not> prefix (10 # ys) (py_digits n @ xs)"
  using py_digits_hd [of n] by auto

end
