(* ===== verification/PyFloat.thy ===== *)
theory PyFloat
  imports Prelude
begin

text \<open>
  The binary64 floats that \<open>analyze_reviews\<close> computes with (src/llm-service/main.py,
  line 40 and the \<open>:.1f\<close> and \<open>round(_, 1)\<close> uses of lines 85-156).
  A float is a sign, a mantissa and a binary exponent; its value is
  \<open>(-1)^neg * mant * 2^exp\<close>. \<open>round_to_double\<close> is the correctly rounded (ties to
  even) binary64 value of a quotient of naturals, with the subnormal range handled by the
  floor \<open>-1074\<close> of the quantum exponent; Python's \<open>int / int\<close> is that rounding
  with \<open>ZeroDivisionError\<close> and \<open>OverflowError\<close> as error values. \<open>round(x, 1)\<close>
  and \<open>format(x, '.1f')\<close> both round the exact binary value of \<open>x\<close> to tenths,
  ties to even (CPython's \<open>_Py_dg_dtoa\<close> in mode 3), and \<open>round\<close> converts the
  decimal back to the nearest double.
\<close>

datatype py_error = ZeroDivisionError | OverflowError | ValueError

record pyfloat =
  fneg :: bool
  fmant :: nat
  fexp :: int

subsection \<open>Exponent of a quotient\<close>

fun nbits :: "nat \<Rightarrow> nat" where
  "nbits n = (if n = 0 then 0 else Suc (nbits (n div 2)))"

declare nbits.simps [simp del, py_defs]

text \<open>\<open>pow2_le b e m\<close> decides \<open>b * 2^e \<le> m\<close> for an integer exponent \<open>e\<close>.\<close>

definition pow2_le :: "nat \<Rightarrow> int \<Rightarrow> nat \<Rightarrow> bool" where
  "pow2_le b e m = (if 0 \<le> e then b * 2 ^ nat e \<le> m else b \<le> m * 2 ^ nat (- e))"

text \<open>\<open>float_exponent m b\<close> is \<open>\<lfloor>log2 (m / b)\<rfloor>\<close> for \<open>m, b > 0\<close>.\<close>

definition float_exponent :: "nat \<Rightarrow> nat \<Rightarrow> int" where
  "float_exponent m b =
     (let e0 = int (nbits m) - int (nbits b) in if pow2_le b e0 m then e0 else e0 - 1)"

text \<open>The quantum (weight of the last mantissa bit): 52 bits below the exponent, never below
  \<open>2^-1074\<close>.\<close>

definition quantum_exp :: "nat \<Rightarrow> nat \<Rightarrow> int" where
  "quantum_exp m b = max (float_exponent m b) (-1022) - 52"

definition round_to_double :: "bool \<Rightarrow> nat \<Rightarrow> nat \<Rightarrow> pyfloat" where
  "round_to_double neg m b =
     (let q = quantum_exp m b in
      \<lparr>fneg = neg,
       fmant = (if 0 \<le> q then rhe m (b * 2 ^ nat q) else rhe (m * 2 ^ nat (- q)) b),
       fexp = q\<rparr>)"

definition float_overflows :: "pyfloat \<Rightarrow> bool" where
  "float_overflows f =
     (if 0 \<le> fexp f then 2 ^ 1024 \<le> fmant f * 2 ^ nat (fexp f)
      else 2 ^ 1024 * 2 ^ nat (- fexp f) \<le> fmant f)"

declare pow2_le_def [py_defs] float_exponent_def [py_defs] quantum_exp_def [py_defs]
  round_to_double_def [py_defs] float_overflows_def [py_defs]

subsection \<open>Python operations on floats\<close>

text \<open>\<open>a / b\<close> on Python ints (CPython \<open>long_true_divide\<close>): the sign of the result
  is the exclusive or of the operands' signs, also for a zero numerator.\<close>

definition py_true_div :: "int \<Rightarrow> int \<Rightarrow> py_error + pyfloat" where
  "py_true_div a b =
     (if b = 0 then Inl ZeroDivisionError
      else let f = round_to_double ((a < 0) \<noteq> (b < 0)) (nat \<bar>a\<bar>) (nat \<bar>b\<bar>) in
        if float_overflows f then Inl OverflowError else Inr f)"

text \<open>Signed value of the mantissa, and the comparison \<open>x >= k\<close> with an integral float
  \<open>k\<close> (\<open>avg_rating >= 4.0\<close>).\<close>

definition signed_mant :: "pyfloat \<Rightarrow> int" where
  "signed_mant f = (if fneg f then - int (fmant f) else int (fmant f))"

definition float_ge_int :: "pyfloat \<Rightarrow> int \<Rightarrow> bool" where
  "float_ge_int f k =
     (if 0 \<le> fexp f then k \<le> signed_mant f * 2 ^ nat (fexp f)
      else k * 2 ^ nat (- fexp f) \<le> signed_mant f)"

text \<open>The magnitude rounded to tenths, ties to even.\<close>

definition round_tenths :: "pyfloat \<Rightarrow> nat" where
  "round_tenths f =
     (if 0 \<le> fexp f then 10 * fmant f * 2 ^ nat (fexp f)
      else rhe (10 * fmant f) (2 ^ nat (- fexp f)))"

text \<open>\<open>round(x, 1)\<close>: the double nearest to the rounded decimal, with the sign of \<open>x\<close>.\<close>

definition py_round1 :: "pyfloat \<Rightarrow> py_error + pyfloat" where
  "py_round1 f =
     (let r = round_to_double (fneg f) (round_tenths f) 10 in
      if float_overflows r then Inl OverflowError else Inr r)"

text \<open>\<open>format(x, '.1f')\<close>: sign, integer digits, point, one decimal.\<close>

definition py_format1 :: "pyfloat \<Rightarrow> ustr" where
  "py_format1 f =
     (let t = round_tenths f in
      (if fneg f then [45] else []) @ py_digits (t div 10) @ [46, 48 + t mod 10])"

declare py_true_div_def [py_defs] signed_mant_def [py_defs] float_ge_int_def [py_defs]
  round_tenths_def [py_defs] py_round1_def [py_defs] py_format1_def [py_defs]

subsection \<open>The exact value of a float\<close>

definition fval :: "pyfloat \<Rightarrow> rat" where
  "fval f = of_int (signed_mant f) *
     (if 0 \<le> fexp f then 2 ^ nat (fexp f) else 1 / 2 ^ nat (- fexp f))"

text \<open>\<open>fmag_le f K\<close>: the magnitude of \<open>f\<close> is at most \<open>2^K\<close>.\<close>

definition fmag_le :: "pyfloat \<Rightarrow> nat \<Rightarrow> bool" where
  "fmag_le f K =
     (if 0 \<le> fexp f then fmant f * 2 ^ nat (fexp f) \<le> 2 ^ K
      else fmant f \<le> 2 ^ K * 2 ^ nat (- fexp f))"

subsection \<open>The exponent of a quotient\<close>

lemma nbits_bounds: "0 < n \<Longrightarrow> 2 ^ nbits n \<le> 2 * n \<and> n < 2 ^ nbits n"
proof (induction n rule: nbits.induct)
  case (1 n)
  have eq: "nbits n = Suc (nbits (n div 2))"
    using "1.prems" by (simp add: nbits.simps [of n])
  show ?case
  proof (cases "n div 2 = 0")
    case True
    with "1.prems" have "n = 1" by auto
    then show ?thesis by (simp add: nbits.simps)
  next
    case False
    with "1.IH" "1.prems" have ih: "2 ^ nbits (n div 2) \<le> 2 * (n div 2) \<and> n div 2 < 2 ^ nbits (n div 2)"
      by simp
    have "n = 2 * (n div 2) + n mod 2" and "n mod 2 < 2" by simp_all
    with ih show ?thesis unfolding eq by (simp only: power_Suc) linarith
  qed
qed

lemma pow2_le_scale:
  assumes "0 \<le> e + int k"
  shows "pow2_le b e m \<longleftrightarrow> b * 2 ^ nat (e + int k) \<le> m * 2 ^ k"
proof (cases "0 \<le> e")
  case True
  then have "nat (e + int k) = nat e + k" by simp
  with True show ?thesis by (simp add: pow2_le_def power_add)
next
  case False
  with assms have k: "k = nat (- e) + nat (e + int k)" by simp
  have "b \<le> m * 2 ^ nat (- e) \<longleftrightarrow> b * 2 ^ nat (e + int k) \<le> m * 2 ^ nat (- e) * 2 ^ nat (e + int k)"
    by simp
  also have "m * 2 ^ nat (- e) * 2 ^ nat (e + int k) = m * 2 ^ k"
    by (subst (2) k) (simp add: power_add)
  finally show ?thesis using False by (simp add: pow2_le_def)
qed

lemma float_exponent_bounds:
  assumes "0 < m" and "0 < b"
  shows "pow2_le b (float_exponent m b) m \<and> \<not> pow2_le b (float_exponent m b + 1) m"
proof -
  define a c where "a = nbits m" and "c = nbits b"
  have ma: "2 ^ a \<le> 2 * m" "m < 2 ^ a" using nbits_bounds [OF assms(1)] by (simp_all add: a_def)
  have bc: "2 ^ c \<le> 2 * b" "b < 2 ^ c" using nbits_bounds [OF assms(2)] by (simp_all add: c_def)
  have a1: "1 \<le> a" using ma assms(1) by (cases a) auto
  let ?e0 = "int a - int c"
  have up: "\<not> pow2_le b (?e0 + 1) m"
  proof -
    have "m * 2 ^ c < 2 ^ a * (2 * b)"
      using mult_less_le_imp_less [OF ma(2) bc(1)] by simp
    then show ?thesis
      by (subst pow2_le_scale [where k = c]) (simp_all add: nat_add_distrib algebra_simps)
  qed
  have lo: "pow2_le b (?e0 - 1) m"
  proof -
    have h: "2 ^ (a - 1) \<le> m"
      using ma(1) a1 by (cases a) simp_all
    have "b * 2 ^ (a - 1) \<le> 2 ^ c * m"
      using bc(2) h by (intro mult_le_mono) simp_all
    then have "b * 2 ^ (a - 1) \<le> m * 2 ^ c" by (simp add: mult.commute)
    moreover have "nat (int a - int c - 1 + int c) = a - 1" using a1 by simp
    ultimately show ?thesis
      using a1 by (subst pow2_le_scale [where k = c]) simp_all
  qed
  show ?thesis
    using up lo by (auto simp: float_exponent_def a_def c_def Let_def)
qed

lemma pow2_le_mono:
  assumes "pow2_le b e' m" and "e \<le> e'"
  shows "pow2_le b e m"
proof -
  define k where "k = nat (- e)"
  have e: "0 \<le> e + int k" and e': "0 \<le> e' + int k"
    using assms(2) by (simp_all add: k_def)
  have "b * 2 ^ nat (e + int k) \<le> b * 2 ^ nat (e' + int k)"
    using assms(2) by (intro mult_le_mono2 power_increasing) simp_all
  also have "\<dots> \<le> m * 2 ^ k"
    using assms(1) pow2_le_scale [OF e'] by simp
  finally show ?thesis
    using pow2_le_scale [OF e] by simp
qed

subsection \<open>Magnitude bounds: no overflow on bounded operands\<close>

lemma rhe_zero [simp]: "0 < b \<Longrightarrow> rhe 0 b = 0"
  by (simp add: rhe_def)

lemma round_to_double_fmag:
  assumes b: "0 < b" and m: "m \<le> b * 2 ^ K" and K: "K \<le> 1000"
  shows "fmag_le (round_to_double neg m b) K"
proof (cases "m = 0")
  case True
  with b show ?thesis by (simp add: round_to_double_def fmag_le_def Let_def)
next
  case False
  define q where "q = quantum_exp m b"
  show ?thesis
  proof (cases "0 \<le> q")
    case True
    define e where "e = float_exponent m b"
    have "pow2_le b e m"
      using float_exponent_bounds [of m b] False b by (simp add: e_def)
    moreover have e52: "52 \<le> e"
      using True by (simp add: q_def quantum_exp_def e_def)
    ultimately have be: "b * 2 ^ nat e \<le> m"
      by (simp add: pow2_le_def)
    have "b * 2 ^ nat e \<le> b * 2 ^ K"
      using be m by (rule order_trans)
    then have "(2::nat) ^ nat e \<le> 2 ^ K"
      using b by simp
    then have "nat e \<le> K"
      by simp
    with e52 True have qK: "nat q \<le> K"
      by (simp add: q_def quantum_exp_def e_def)
    have "(2::nat) ^ K = 2 ^ (K - nat q) * 2 ^ nat q"
      using qK by (simp add: power_add [symmetric])
    with m have "m \<le> 2 ^ (K - nat q) * (b * 2 ^ nat q)"
      by (simp add: mult.commute mult.left_commute)
    then have "rhe m (b * 2 ^ nat q) \<le> 2 ^ (K - nat q)"
      by (rule rhe_le [rotated]) (simp add: b)
    then have "rhe m (b * 2 ^ nat q) * 2 ^ nat q \<le> 2 ^ (K - nat q) * 2 ^ nat q"
      by simp
    also have "\<dots> = 2 ^ K"
      using qK by (simp add: power_add [symmetric])
    finally show ?thesis
      using True by (simp add: round_to_double_def fmag_le_def q_def [symmetric] Let_def)
  next
    case False
    have "m * 2 ^ nat (- q) \<le> (2 ^ K * 2 ^ nat (- q)) * b"
      using m by (simp add: mult.commute mult.left_commute)
    then have "rhe (m * 2 ^ nat (- q)) b \<le> 2 ^ K * 2 ^ nat (- q)"
      by (rule rhe_le [rotated]) (simp add: b)
    with False show ?thesis
      by (simp add: round_to_double_def fmag_le_def q_def [symmetric] Let_def)
  qed
qed

lemma fmag_no_overflow:
  assumes "fmag_le f K" and "K < 1024"
  shows "\<not> float_overflows f"
proof -
  have h: "(2::nat) ^ K < 2 ^ 1024"
    using assms(2) by (intro power_strict_increasing) simp_all
  show ?thesis
  proof (cases "0 \<le> fexp f")
    case True
    with assms(1) h show ?thesis by (simp add: fmag_le_def float_overflows_def)
  next
    case False
    let ?P = "(2::nat) ^ nat (- fexp f)"
    have "fmant f \<le> 2 ^ K * ?P"
      using assms(1) False by (simp add: fmag_le_def)
    also have "2 ^ K * ?P < 2 ^ 1024 * ?P"
      using h by simp
    finally show ?thesis
      using False by (simp add: float_overflows_def)
  qed
qed

lemma round_tenths_fmag:
  assumes "fmag_le f K"
  shows "round_tenths f \<le> 10 * 2 ^ K"
proof (cases "0 \<le> fexp f")
  case True
  with assms show ?thesis by (simp add: round_tenths_def fmag_le_def)
next
  case False
  with assms have "10 * fmant f \<le> (10 * 2 ^ K) * 2 ^ nat (- fexp f)"
    by (simp add: fmag_le_def)
  then have "rhe (10 * fmant f) (2 ^ nat (- fexp f)) \<le> 10 * 2 ^ K"
    by (rule rhe_le [rotated]) simp
  with False show ?thesis by (simp add: round_tenths_def)
qed

lemma py_true_div_fmag:
  assumes "0 < b" and "\<bar>a\<bar> \<le> b * 2 ^ K" and "K \<le> 1000"
  shows "\<exists>f. py_true_div a b = Inr f \<and> fmag_le f K"
proof -
  have "nat \<bar>a\<bar> \<le> nat b * 2 ^ K"
    using assms(1,2) by (simp add: nat_le_iff nat_mult_distrib nat_power_eq)
  then have "fmag_le (round_to_double ((a < 0) \<noteq> (b < 0)) (nat \<bar>a\<bar>) (nat \<bar>b\<bar>)) K"
    using assms(1,3) by (intro round_to_double_fmag) simp_all
  moreover from this have "\<not> float_overflows (round_to_double ((a < 0) \<noteq> (b < 0)) (nat \<bar>a\<bar>) (nat \<bar>b\<bar>))"
    by (rule fmag_no_overflow) (use assms(3) in simp)
  ultimately show ?thesis
    using assms(1) by (simp add: py_true_div_def Let_def)
qed

lemma py_round1_Inr:
  assumes "fmag_le f K" and "K \<le> 1000"
  shows "\<exists>r. py_round1 f = Inr r"
proof -
  have "fmag_le (round_to_double (fneg f) (round_tenths f) 10) K"
    using round_tenths_fmag [OF assms(1)] assms(2) by (intro round_to_double_fmag) simp_all
  then have "\<not> float_overflows (round_to_double (fneg f) (round_tenths f) 10)"
    by (rule fmag_no_overflow) (use assms(2) in simp)
  then show ?thesis by (simp add: py_round1_def Let_def)
qed

lemma round_to_double_mant_le:
  assumes b: "0 < b"
  shows "fmant (round_to_double neg m b) \<le> 2 ^ 53"
proof (cases "m = 0")
  case True
  with b show ?thesis by (simp add: round_to_double_def Let_def)
next
  case False
  define q where "q = quantum_exp m b"
  have "\<not> pow2_le b (float_exponent m b + 1) m"
    using float_exponent_bounds [of m b] False b by simp
  moreover have "float_exponent m b + 1 \<le> q + 53"
    by (simp add: q_def quantum_exp_def)
  ultimately have np: "\<not> pow2_le b (q + 53) m"
    using pow2_le_mono by blast
  show ?thesis
  proof (cases "0 \<le> q")
    case True
    then have "nat (q + 53) = 53 + nat q" by simp
    with np True have "m \<le> 2 ^ 53 * (b * 2 ^ nat q)"
      by (simp add: pow2_le_def power_add mult.commute mult.left_commute)
    then have "rhe m (b * 2 ^ nat q) \<le> 2 ^ 53"
      by (rule rhe_le [rotated]) (simp add: b)
    with True show ?thesis
      by (simp add: round_to_double_def q_def [symmetric] Let_def)
  next
    case False
    have "0 \<le> q + 53 + int (nat (- q))" using False by simp
    from pow2_le_scale [OF this] np have "m * 2 ^ nat (- q) \<le> 2 ^ 53 * b"
      using False by simp
    then have "rhe (m * 2 ^ nat (- q)) b \<le> 2 ^ 53"
      by (rule rhe_le [rotated]) (simp add: b)
    with False show ?thesis
      by (simp add: round_to_double_def q_def [symmetric] Let_def)
  qed
qed

lemma round_to_double_exact_large:
  assumes M: "0 < M" "M \<le> 2 ^ 53" and e: "948 \<le> e" and small: "M * 2 ^ e < (2::nat) ^ 1024"
  shows "\<not> float_overflows (round_to_double neg (10 * M * 2 ^ e) 10)"
proof -
  define t where "t = 10 * M * 2 ^ e"
  define E where "E = float_exponent t 10"
  define q where "q = quantum_exp t 10"
  have t0: "0 < t" using M by (simp add: t_def)
  have pE: "pow2_le 10 E t" using float_exponent_bounds [OF t0] by (simp add: E_def)
  have npE: "\<not> pow2_le 10 (E + 1) t" using float_exponent_bounds [OF t0] by (simp add: E_def)
  have Ege: "int e \<le> E"
  proof (rule ccontr)
    assume "\<not> int e \<le> E"
    then have "E + 1 \<le> int e" by simp
    moreover have "pow2_le 10 (int e) t"
      using M by (simp add: pow2_le_def t_def)
    ultimately have "pow2_le 10 (E + 1) t" using pow2_le_mono by blast
    with npE show False by simp
  qed
  then have E0: "0 \<le> E" by simp
  have "10 * 2 ^ nat E \<le> t" using pE E0 by (simp add: pow2_le_def)
  then have "2 ^ nat E \<le> M * 2 ^ e" by (simp add: t_def)
  also have "\<dots> \<le> 2 ^ 53 * 2 ^ e" using M by simp
  finally have "(2::nat) ^ nat E \<le> 2 ^ (53 + e)" by (simp add: power_add)
  then have Ele: "nat E \<le> 53 + e" by simp
  have qE: "q = E - 52" using Ege e by (simp add: q_def quantum_exp_def E_def)
  have q0: "0 \<le> q" using Ege e qE by simp
  obtain k where tk: "t = k * (10 * 2 ^ nat q)" and kval: "k * 2 ^ nat q = M * 2 ^ e"
  proof (cases "nat q \<le> e")
    case True
    show ?thesis
      by (rule that [of "M * 2 ^ (e - nat q)"])
        (use True in \<open>simp_all add: t_def power_add [symmetric]\<close>)
  next
    case False
    then have qe: "nat q = Suc e" using Ele qE q0 by linarith
    then have "nat E = 53 + e" using qE q0 by linarith
    with \<open>2 ^ nat E \<le> M * 2 ^ e\<close> have "2 ^ 53 * 2 ^ e \<le> M * (2::nat) ^ e"
      by (simp add: power_add)
    then have "M = 2 ^ 53" using M by simp
    show ?thesis
      by (rule that [of "2 ^ 52"]) (simp_all add: t_def qe \<open>M = 2 ^ 53\<close>)
  qed
  have "fmant (round_to_double neg t 10) = k" and "fexp (round_to_double neg t 10) = q"
    using q0 by (simp_all add: round_to_double_def q_def [symmetric] Let_def, simp add: tk)
  with kval small q0 show ?thesis
    by (simp add: float_overflows_def t_def)
qed

lemma py_round1_finite:
  assumes M: "fmant f \<le> 2 ^ 53" and fin: "\<not> float_overflows f"
  shows "\<exists>r. py_round1 f = Inr r"
proof (cases "0 < fmant f \<and> 948 \<le> fexp f")
  case True
  define e where "e = nat (fexp f)"
  have fe: "fexp f = int e" using True by (simp add: e_def)
  have "fmant f * 2 ^ e < 2 ^ 1024" using fin by (simp add: float_overflows_def fe)
  then have "\<not> float_overflows (round_to_double (fneg f) (10 * fmant f * 2 ^ e) 10)"
    using True M by (intro round_to_double_exact_large) (simp_all add: fe)
  then show ?thesis by (simp add: py_round1_def round_tenths_def fe Let_def)
next
  case False
  have "fmag_le f 1000"
  proof (cases "fmant f = 0")
    case False
    with \<open>\<not> (0 < fmant f \<and> 948 \<le> fexp f)\<close> have e: "fexp f \<le> 947" by simp
    show ?thesis
    proof (cases "0 \<le> fexp f")
      case True
      have "(2::nat) ^ nat (fexp f) \<le> 2 ^ 947"
        using e by (intro power_increasing) simp_all
      with M have "fmant f * 2 ^ nat (fexp f) \<le> 2 ^ 53 * 2 ^ 947"
        by (intro mult_le_mono) simp_all
      with True show ?thesis by (simp add: fmag_le_def power_add [symmetric])
    next
      case False
      have "fmant f \<le> 2 ^ 1000 * 1" using M by simp
      also have "\<dots> \<le> 2 ^ 1000 * 2 ^ nat (- fexp f)" by (intro mult_le_mono) simp_all
      finally show ?thesis using False by (simp add: fmag_le_def)
    qed
  qed (simp add: fmag_le_def)
  then show ?thesis by (rule py_round1_Inr) simp
qed

lemma py_true_div_Inr_finite:
  assumes "py_true_div a b = Inr f"
  shows "fmant f \<le> 2 ^ 53 \<and> \<not> float_overflows f"
proof -
  have "b \<noteq> 0" and f: "f = round_to_double ((a < 0) \<noteq> (b < 0)) (nat \<bar>a\<bar>) (nat \<bar>b\<bar>)"
    and "\<not> float_overflows f"
    using assms by (auto simp: py_true_div_def Let_def split: if_splits)
  moreover have "fmant f \<le> 2 ^ 53"
    unfolding f by (rule round_to_double_mant_le) (use \<open>b \<noteq> 0\<close> in simp)
  ultimately show ?thesis by simp
qed

subsection \<open>Comparing a quotient with an integer threshold\<close>

lemma round_to_double_ge_int:
  assumes b: "0 < b" and k: "0 < k" and km: "k * b \<le> m" and k52: "k \<le> 2 ^ 52"
  shows "float_ge_int (round_to_double False m b) (int k)"
proof -
  have "0 < k * b" using b k by simp
  with km have m: "0 < m" by linarith
  define e where "e = float_exponent m b"
  define q where "q = quantum_exp m b"
  show ?thesis
  proof (cases "0 \<le> q")
    case False
    let ?P = "(2::nat) ^ nat (- q)"
    have "(k * ?P) * b \<le> m * ?P" using km by (simp add: mult.commute mult.left_commute)
    then have "k * ?P \<le> rhe (m * ?P) b" by (rule rhe_ge [OF b])
    then have "int (k * ?P) \<le> int (rhe (m * ?P) b)"
      by (simp only: of_nat_le_iff)
    then have "int k * 2 ^ nat (- q) \<le> int (rhe (m * ?P) b)"
      by simp
    with False show ?thesis
      by (simp add: round_to_double_def float_ge_int_def signed_mant_def q_def [symmetric] Let_def)
  next
    case True
    then have e52: "52 \<le> e" and qe: "q = e - 52"
      by (auto simp: q_def quantum_exp_def e_def)
    have "pow2_le b e m"
      using float_exponent_bounds [OF m b] by (simp add: e_def)
    with e52 have "b * 2 ^ nat e \<le> m" by (simp add: pow2_le_def)
    moreover have "nat e = 52 + nat q" using e52 qe by simp
    ultimately have "2 ^ 52 * (b * 2 ^ nat q) \<le> m"
      by (simp add: power_add mult.commute mult.left_commute)
    then have "2 ^ 52 \<le> rhe m (b * 2 ^ nat q)"
      by (rule rhe_ge [rotated]) (simp add: b)
    moreover have "rhe m (b * 2 ^ nat q) \<le> rhe m (b * 2 ^ nat q) * 2 ^ nat q"
      by simp
    ultimately have "k \<le> rhe m (b * 2 ^ nat q) * 2 ^ nat q"
      using k52 by linarith
    then have "int k \<le> int (rhe m (b * 2 ^ nat q) * 2 ^ nat q)"
      by (simp only: of_nat_le_iff)
    then have "int k \<le> int (rhe m (b * 2 ^ nat q)) * 2 ^ nat q"
      by simp
    with True show ?thesis
      by (simp add: round_to_double_def float_ge_int_def signed_mant_def q_def [symmetric] Let_def)
  qed
qed

lemma round_to_double_lt_int:
  assumes b: "0 < b" and k: "0 < k" and mk: "m < k * b" and bk: "b * k \<le> 2 ^ 52"
  shows "\<not> float_ge_int (round_to_double False m b) (int k)"
proof (cases "m = 0")
  case True
  with b k show ?thesis
    by (simp add: round_to_double_def float_ge_int_def signed_mant_def Let_def mult_le_0_iff)
next
  case False
  then have m: "0 < m" by simp
  define e where "e = float_exponent m b"
  define q where "q = quantum_exp m b"
  have pe: "pow2_le b e m"
    using float_exponent_bounds [OF m b] by (simp add: e_def)
  have mk': "m < b * k" using mk by (simp add: mult.commute)
  have "k \<le> b * k" and "b \<le> b * k" using b k by simp_all
  with bk have kb: "k \<le> 2 ^ 52" and b52: "b \<le> 2 ^ 52" by linarith+
  show ?thesis
  proof (cases "0 \<le> q")
    case True
    then have e52: "52 \<le> e" and qe: "nat e = 52 + nat q"
      by (auto simp: q_def quantum_exp_def e_def)
    with pe have "b * 2 ^ nat e \<le> m" by (simp add: pow2_le_def)
    with mk' have "b * 2 ^ nat e < b * k" by linarith
    then have "(2::nat) ^ nat e < k" by simp
    moreover have "(2::nat) ^ 52 \<le> 2 ^ nat e"
      using qe by (intro power_increasing) simp_all
    ultimately show ?thesis using kb by linarith
  next
    case False
    let ?P = "(2::nat) ^ nat (- q)"
    have bP: "b < 2 * ?P"
    proof (cases "0 \<le> e")
      case False
      then have "53 \<le> nat (- q)"
        by (simp add: q_def quantum_exp_def e_def)
      then have "(2::nat) ^ 53 \<le> ?P"
        by (intro power_increasing) simp_all
      with b52 show ?thesis by simp
    next
      case True
      with pe have "b * 2 ^ nat e \<le> m" by (simp add: pow2_le_def)
      with mk' have "b * 2 ^ nat e < b * k" by linarith
      with bk have "b * 2 ^ nat e < 2 ^ 52" by linarith
      moreover have "nat (- q) = 52 - nat e" and "nat e < 52"
        using True False by (simp_all add: q_def quantum_exp_def e_def)
      ultimately have "b * 2 ^ nat e < ?P * 2 ^ nat e"
        by (simp add: power_add [symmetric])
      then show ?thesis by simp
    qed
    have "2 * b * rhe (m * ?P) b \<le> 2 * (m * ?P) + b"
      using rhe_bounds [OF b] by simp
    also have "\<dots> < 2 * (m * ?P) + 2 * ?P"
      using bP by simp
    also have "\<dots> \<le> 2 * (k * b * ?P)"
    proof -
      have "Suc m \<le> k * b" using mk by simp
      then have "Suc m * ?P \<le> k * b * ?P" by (rule mult_le_mono1)
      then show ?thesis by simp
    qed
    finally have "b * rhe (m * ?P) b < b * (k * ?P)"
      by (simp add: mult.commute mult.left_commute)
    then have "rhe (m * ?P) b < k * ?P" by simp
    then have "int (rhe (m * ?P) b) < int (k * ?P)" by (simp only: of_nat_less_iff)
    then have "\<not> int k * 2 ^ nat (- q) \<le> int (rhe (m * ?P) b)" by simp
    with False show ?thesis
      by (simp add: round_to_double_def float_ge_int_def signed_mant_def q_def [symmetric] Let_def)
  qed
qed

lemma float_ge_int_neg:
  assumes "fneg f" and "0 < k"
  shows "\<not> float_ge_int f k"
proof -
  have sm: "signed_mant f \<le> 0" using assms(1) by (simp add: signed_mant_def)
  show ?thesis
  proof (cases "0 \<le> fexp f")
    case True
    have "signed_mant f * 2 ^ nat (fexp f) \<le> 0"
      using sm by (simp add: mult_nonpos_nonneg)
    with True assms(2) show ?thesis by (simp add: float_ge_int_def)
  next
    case False
    have "0 < k * 2 ^ nat (- fexp f)" using assms(2) by simp
    with False sm show ?thesis by (simp add: float_ge_int_def)
  qed
qed

lemma py_true_div_ge_int_iff:
  assumes f: "py_true_div s (int n) = Inr f" and n: "0 < n" and k: "0 < k"
    and nk: "n * k \<le> 2 ^ 52"
  shows "float_ge_int f (int k) \<longleftrightarrow> int k * int n \<le> s"
proof -
  have fdef: "f = round_to_double (s < 0) (nat \<bar>s\<bar>) n"
    using f n by (simp add: py_true_div_def Let_def split: if_splits)
  show ?thesis
  proof (cases "s < 0")
    case True
    have "\<not> float_ge_int f (int k)"
      using True k unfolding fdef
      by (intro float_ge_int_neg) (simp_all add: round_to_double_def Let_def)
    moreover have "0 \<le> int k * int n" by simp
    then have "\<not> int k * int n \<le> s"
      using True by linarith
    ultimately show ?thesis by blast
  next
    case False
    then have fd: "f = round_to_double False (nat s) n" using fdef by simp
    have "k \<le> n * k" using n by simp
    with nk have k52: "k \<le> 2 ^ 52" by linarith
    show ?thesis
    proof
      assume "float_ge_int f (int k)"
      show "int k * int n \<le> s"
      proof (rule ccontr)
        assume "\<not> int k * int n \<le> s"
        then have "nat s < k * n" using False by (simp add: nat_less_iff)
        then have "\<not> float_ge_int (round_to_double False (nat s) n) (int k)"
          using n k nk by (intro round_to_double_lt_int) (simp_all add: mult.commute)
        with \<open>float_ge_int f (int k)\<close> fd show False by simp
      qed
    next
      assume "int k * int n \<le> s"
      then have "k * n \<le> nat s" using False by (simp add: le_nat_iff)
      then show "float_ge_int f (int k)"
        unfolding fd using n k k52 by (intro round_to_double_ge_int) simp_all
    qed
  qed
qed

lemma round_to_double_half_quantum:
  assumes b: "0 < b"
  shows "\<bar>fval (round_to_double False m b) - of_nat m / of_nat b\<bar> \<le>
    fval \<lparr>fneg = False, fmant = 1, fexp = quantum_exp m b\<rparr> / 2"
proof (cases "0 \<le> quantum_exp m b")
  case True
  define P :: rat where "P = 2 ^ nat (quantum_exp m b)"
  define x :: rat where "x = of_nat (rhe m (b * 2 ^ nat (quantum_exp m b)))"
  have P: "0 < P" by (simp add: P_def)
  have "\<bar>x - of_nat m / (of_nat b * P)\<bar> \<le> 1 / 2"
    using rhe_rat [of "b * 2 ^ nat (quantum_exp m b)" m] b by (simp add: x_def P_def)
  then have le: "\<bar>x - of_nat m / (of_nat b * P)\<bar> * P \<le> 1 / 2 * P"
    using P by (intro mult_right_mono) simp_all
  have "x * P - of_nat m / of_nat b = (x - of_nat m / (of_nat b * P)) * P"
    using P b by (simp add: field_simps)
  then have "\<bar>x * P - of_nat m / of_nat b\<bar> = \<bar>x - of_nat m / (of_nat b * P)\<bar> * P"
    using P by (simp only: abs_mult_pos less_imp_le)
  with le have "\<bar>x * P - of_nat m / of_nat b\<bar> \<le> P / 2"
    by simp
  with True show ?thesis
    by (simp add: fval_def round_to_double_def signed_mant_def Let_def x_def P_def)
next
  case False
  define P :: rat where "P = 2 ^ nat (- quantum_exp m b)"
  define x :: rat where "x = of_nat (rhe (m * 2 ^ nat (- quantum_exp m b)) b)"
  have P: "0 < P" by (simp add: P_def)
  have "\<bar>x - of_nat m * P / of_nat b\<bar> \<le> 1 / 2"
    using rhe_rat [of b "m * 2 ^ nat (- quantum_exp m b)"] b by (simp add: x_def P_def)
  then have le: "\<bar>x - of_nat m * P / of_nat b\<bar> / P \<le> 1 / 2 / P"
    using P by (intro divide_right_mono) simp_all
  have "x / P - of_nat m / of_nat b = (x - of_nat m * P / of_nat b) / P"
    using P b by (simp add: field_simps)
  then have "\<bar>x / P - of_nat m / of_nat b\<bar> = \<bar>x - of_nat m * P / of_nat b\<bar> / P"
    using P by (simp only: abs_divide abs_of_pos)
  with le have "\<bar>x / P - of_nat m / of_nat b\<bar> \<le> 1 / P / 2"
    by simp
  with False show ?thesis
    by (simp add: fval_def round_to_double_def signed_mant_def Let_def x_def P_def)
qed

subsection \<open>Error bounds of the rounded mean\<close>

lemma quantum_exp_small:
  assumes "0 < b" and "m < 8 * b"
  shows "quantum_exp m b \<le> -50"
proof (cases "m = 0")
  case False
  have "\<not> pow2_le b 3 m"
    using assms(2) by (simp add: pow2_le_def)
  moreover have "pow2_le b (float_exponent m b) m"
    using float_exponent_bounds [of m b] False assms(1) by simp
  ultimately have "float_exponent m b < 3"
    using pow2_le_mono [of b "float_exponent m b" m 3] by fastforce
  then show ?thesis by (simp add: quantum_exp_def)
next
  case True
  have "\<not> pow2_le b 0 0" using assms(1) by (simp add: pow2_le_def)
  moreover have "nbits 0 = 0" by (simp add: nbits.simps)
  moreover have "0 < nbits b" using assms(1) by (simp add: nbits.simps)
  ultimately show ?thesis
    using True by (auto simp: quantum_exp_def float_exponent_def Let_def)
qed

lemma fval_unit_le:
  assumes "q \<le> -50"
  shows "fval \<lparr>fneg = False, fmant = 1, fexp = q\<rparr> \<le> 1 / 2 ^ 50"
proof -
  have "(2::rat) ^ 50 \<le> 2 ^ nat (- q)"
    using assms by (intro power_increasing) simp_all
  then show ?thesis
    using assms by (simp add: fval_def signed_mant_def frac_le)
qed

lemma round_to_double_small_err:
  assumes "0 < b" and "m < 8 * b"
  shows "\<bar>fval (round_to_double False m b) - of_nat m / of_nat b\<bar> \<le> 1 / 2 ^ 51"
proof -
  have "\<bar>fval (round_to_double False m b) - of_nat m / of_nat b\<bar> \<le>
      fval \<lparr>fneg = False, fmant = 1, fexp = quantum_exp m b\<rparr> / 2"
    using assms(1) by (rule round_to_double_half_quantum)
  also have "\<dots> \<le> (1 / 2 ^ 50) / 2"
    using fval_unit_le [OF quantum_exp_small [OF assms]] by simp
  finally show ?thesis by simp
qed

lemma round_tenths_err:
  assumes "\<not> fneg f"
  shows "\<bar>of_nat (round_tenths f) - 10 * fval f\<bar> \<le> 1 / 2"
proof (cases "0 \<le> fexp f")
  case True
  with assms show ?thesis by (simp add: round_tenths_def fval_def signed_mant_def)
next
  case False
  let ?P = "(2::nat) ^ nat (- fexp f)"
  have "\<bar>of_nat (rhe (10 * fmant f) ?P) - of_nat (10 * fmant f) / of_nat ?P\<bar> \<le> (1::rat) / 2"
    by (rule rhe_rat) simp
  with False assms show ?thesis
    by (simp add: round_tenths_def fval_def signed_mant_def)
qed

lemma py_round1_mean_err:
  assumes d: "py_true_div s (int n) = Inr f" and s: "0 < s" and sn: "s \<le> 5 * int n"
    and r: "py_round1 f = Inr a"
  shows "\<bar>fval a - of_int s / of_nat n\<bar> \<le> 1 / 20 + 1 / 2 ^ 50"
proof -
  have n: "0 < n" using d by (cases "n = 0") (simp_all add: py_true_div_def)
  have f: "f = round_to_double False (nat s) n"
    using d s n by (simp add: py_true_div_def Let_def split: if_splits)
  have s8: "nat s < 8 * n" using sn s by linarith
  have e1: "\<bar>fval f - of_nat (nat s) / of_nat n\<bar> \<le> 1 / 2 ^ 51"
    unfolding f using n s8 by (rule round_to_double_small_err)
  have sq: "of_nat (nat s) = (of_int s :: rat)" using s by simp
  have nf: "\<not> fneg f" by (simp add: f round_to_double_def Let_def)
  define t where "t = round_tenths f"
  have e2: "\<bar>of_nat t - 10 * fval f\<bar> \<le> 1 / 2"
    unfolding t_def using nf by (rule round_tenths_err)
  have a: "a = round_to_double False t 10"
    using r nf by (simp add: py_round1_def t_def Let_def split: if_splits)
  have "of_int s / of_nat n \<le> (5::rat)"
    using sn n by (simp add: divide_le_eq)
  moreover note abs_le_D1 [OF e1, unfolded sq] abs_le_D1 [OF e2]
  moreover have "(1::rat) / 2 ^ 51 \<le> 1" by simp
  ultimately have "of_nat t < (80::rat)"
    by linarith
  then have t80: "t < 8 * 10" by simp
  have e3: "\<bar>fval a - of_nat t / of_nat 10\<bar> \<le> 1 / 2 ^ 51"
    unfolding a using t80 by (intro round_to_double_small_err) simp_all
  note ineqs = abs_le_D1 [OF e1, unfolded sq] abs_le_D2 [OF e1, unfolded sq]
    abs_le_D1 [OF e2] abs_le_D2 [OF e2] abs_le_D1 [OF e3] abs_le_D2 [OF e3]
  show ?thesis
    unfolding abs_le_iff using ineqs by simp
qed

end
