(* ===== verification/Reviews.thy ===== *)
theory Reviews
  imports PyFloat
begin

text \<open>
  The review records the caller supplies (\<open>ReviewData\<close>, src/llm-service/main.py
  lines 7-11) and Stage A of \<open>analyze_reviews\<close> (lines 39-45): the count, the float
  mean, the star buckets and the low and high reviews. Python's \<open>max\<close> with a key
  (line 93) and \<open>min\<close>/\<open>max\<close> of a list (line 119) are modelled with their
  \<open>ValueError\<close> on an empty argument. The main lemmas: the aggregation fails only
  by \<open>OverflowError\<close>; the star buckets partition the reviews exactly when no rating
  exceeds 5; \<open>max\<close> with a key returns the first review of maximal rating.
\<close>

record review =
  review_id :: ustr
  rating :: int
  review_text :: ustr
  createdAt :: ustr

subsection \<open>Stage A: aggregation\<close>

record review_stats =
  total :: nat
  avg_rating :: pyfloat
  five_star :: nat
  four_star :: nat
  three_star :: nat
  low_reviews :: "review list"
  high_reviews :: "review list"

definition rating_sum :: "review list \<Rightarrow> int" where
  "rating_sum rs = sum_list (map rating rs)"

text \<open>\<open>sum(1 for r in reviews if r.rating == k)\<close>\<close>

definition count_rating :: "int \<Rightarrow> review list \<Rightarrow> nat" where
  "count_rating k rs = length (filter (\<lambda>r. rating r = k) rs)"

definition is_low :: "review \<Rightarrow> bool" where
  "is_low r = (rating r \<le> 2)"

definition is_high :: "review \<Rightarrow> bool" where
  "is_high r = (4 \<le> rating r)"

definition aggregate :: "review list \<Rightarrow> py_error + review_stats" where
  "aggregate rs =
     (case py_true_div (rating_sum rs) (int (length rs)) of
        Inl e \<Rightarrow> Inl e
      | Inr avg \<Rightarrow> Inr
          \<lparr>total = length rs, avg_rating = avg,
           five_star = count_rating 5 rs, four_star = count_rating 4 rs,
           three_star = count_rating 3 rs,
           low_reviews = filter is_low rs, high_reviews = filter is_high rs\<rparr>)"

declare rating_sum_def [py_defs] count_rating_def [py_defs] is_low_def [py_defs]
  is_high_def [py_defs] aggregate_def [py_defs]

subsection \<open>Python's \<open>max\<close> with a key, \<open>min\<close> and \<open>max\<close> of a list\<close>

text \<open>CPython's \<open>max\<close> keeps the current maximum and replaces it only by an item whose
  key is strictly greater; an empty argument raises \<open>ValueError\<close>.\<close>

definition max_step :: "('a \<Rightarrow> int) \<Rightarrow> 'a \<Rightarrow> 'a \<Rightarrow> 'a" where
  "max_step key y m = (if key m < key y then y else m)"

fun py_max_by :: "('a \<Rightarrow> int) \<Rightarrow> 'a list \<Rightarrow> py_error + 'a" where
  "py_max_by key [] = Inl ValueError"
| "py_max_by key (x # xs) = Inr (fold (max_step key) xs x)"

fun py_min_list :: "int list \<Rightarrow> py_error + int" where
  "py_min_list [] = Inl ValueError"
| "py_min_list (x # xs) = Inr (fold min xs x)"

fun py_max_list :: "int list \<Rightarrow> py_error + int" where
  "py_max_list [] = Inl ValueError"
| "py_max_list (x # xs) = Inr (fold max xs x)"

declare max_step_def [py_defs]

text \<open>The reference: the first element whose key is the maximum of all keys.\<close>

definition first_max :: "('a \<Rightarrow> int) \<Rightarrow> 'a list \<Rightarrow> 'a" where
  "first_max key xs = hd (filter (\<lambda>y. key y = Max (key ` set xs)) xs)"

subsection \<open>Lemmas\<close>

lemma first_max_single [simp]: "first_max key [a] = a"
  by (simp add: first_max_def)

lemma first_max_Cons:
  assumes "xs \<noteq> []"
  shows "first_max key (a # xs) =
    (if Max (key ` set xs) \<le> key a then a else first_max key xs)"
proof -
  have M: "Max (insert (key a) (key ` set xs)) = max (key a) (Max (key ` set xs))"
    using assms by (simp add: Max_insert)
  have "\<exists>y\<in>set xs. key y = Max (key ` set xs)"
    using assms by (metis (mono_tags, lifting) List.finite_set Max_in finite_imageI
        image_iff image_is_empty set_empty)
  then have "filter (\<lambda>y. key y = Max (key ` set xs)) xs \<noteq> []"
    by (simp add: filter_empty_conv)
  then show ?thesis
    by (auto simp: first_max_def M max_def)
qed

lemma fold_max_step_first_max:
  "fold (max_step key) xs m = first_max key (m # xs)"
proof (induction xs arbitrary: m)
  case Nil
  then show ?case by simp
next
  case (Cons y ys)
  have "fold (max_step key) (y # ys) m = first_max key (max_step key y m # ys)"
    by (simp add: Cons.IH)
  also have "\<dots> = first_max key (m # y # ys)"
  proof (cases "ys = []")
    case True
    then show ?thesis by (simp add: first_max_Cons max_step_def)
  next
    case False
    have My: "Max (insert (key y) (key ` set ys)) = max (key y) (Max (key ` set ys))"
      using False by (simp add: Max_insert)
    show ?thesis
      using False by (auto simp: first_max_Cons max_step_def My)
  qed
  finally show ?case .
qed

lemma fold_max_step_in: "fold (max_step key) xs m \<in> insert m (set xs)"
  by (induction xs arbitrary: m) (auto simp: max_step_def)

lemma py_max_by_in: "py_max_by key xs = Inr x \<Longrightarrow> x \<in> set xs"
proof (cases xs)
  case (Cons a as)
  moreover assume "py_max_by key xs = Inr x"
  ultimately show ?thesis
    using fold_max_step_in [of key as a] by auto
qed simp

lemma count_rating_Cons:
  "count_rating k (r # rs) = (if rating r = k then Suc (count_rating k rs) else count_rating k rs)"
  by (simp add: count_rating_def)

lemma star_buckets_plus_over_five:
  "count_rating 5 rs + count_rating 4 rs + count_rating 3 rs + length (filter is_low rs)
     + length (filter (\<lambda>r. 5 < rating r) rs) = length rs"
  by (induction rs) (auto simp: count_rating_def is_low_def)

lemma aggregate_Inl:
  "aggregate rs = Inl e \<Longrightarrow> rs \<noteq> [] \<Longrightarrow> e = OverflowError"
  by (auto simp: aggregate_def py_true_div_def Let_def split: sum.splits if_splits)

lemma aggregate_Inr:
  "aggregate rs = Inr st \<Longrightarrow>
     total st = length rs \<and> py_true_div (rating_sum rs) (int (length rs)) = Inr (avg_rating st) \<and>
     five_star st = count_rating 5 rs \<and> four_star st = count_rating 4 rs \<and>
     three_star st = count_rating 3 rs \<and>
     low_reviews st = filter is_low rs \<and> high_reviews st = filter is_high rs"
  by (auto simp: aggregate_def split: sum.splits)

lemma py_min_list_Min: "py_min_list (x # xs) = Inr (Min (set (x # xs)))"
  by (simp only: py_min_list.simps Min.set_eq_fold)

lemma py_max_list_Max: "py_max_list (x # xs) = Inr (Max (set (x # xs)))"
  by (simp only: py_max_list.simps Max.set_eq_fold)

lemma abs_rating_sum_le:
  assumes "\<forall>r\<in>set rs. \<bar>rating r\<bar> \<le> B"
  shows "\<bar>rating_sum rs\<bar> \<le> int (length rs) * B"
  using assms
proof (induction rs)
  case Nil
  then show ?case by (simp add: rating_sum_def)
next
  case (Cons r rs)
  then have "\<bar>rating r + rating_sum rs\<bar> \<le> B + int (length rs) * B"
    by (meson abs_triangle_ineq add_mono list.set_intros order_trans)
  then show ?case by (simp add: rating_sum_def algebra_simps)
qed

lemma aggregate_bounded:
  assumes "rs \<noteq> []" and "\<forall>r\<in>set rs. \<bar>rating r\<bar> \<le> 2 ^ K" and "K \<le> 1000"
  shows "\<exists>st. aggregate rs = Inr st \<and> fmag_le (avg_rating st) K"
proof -
  have "\<bar>rating_sum rs\<bar> \<le> int (length rs) * 2 ^ K"
    using abs_rating_sum_le [OF assms(2)] .
  moreover have "0 < int (length rs)" using assms(1) by simp
  ultimately obtain f where "py_true_div (rating_sum rs) (int (length rs)) = Inr f" and "fmag_le f K"
    using py_true_div_fmag assms(3) by blast
  then show ?thesis by (simp add: aggregate_def)
qed

lemma rating_sum_le_const:
  assumes "\<forall>r\<in>set rs. rating r \<le> c"
  shows "rating_sum rs \<le> int (length rs) * c"
  using assms by (induction rs) (auto simp: rating_sum_def algebra_simps)

lemma rating_sum_ge_const:
  assumes "\<forall>r\<in>set rs. c \<le> rating r"
  shows "int (length rs) * c \<le> rating_sum rs"
  using assms by (induction rs) (auto simp: rating_sum_def algebra_simps)

lemma aggregate_Nil: "aggregate [] = Inl ZeroDivisionError"
  by (simp add: aggregate_def py_true_div_def)

lemma high_reviews_nonempty:
  assumes "rs \<noteq> []" and "4 * int (length rs) \<le> rating_sum rs"
  shows "filter is_high rs \<noteq> []"
proof
  assume "filter is_high rs = []"
  then have "\<forall>r\<in>set rs. rating r \<le> 3"
    by (auto simp: filter_empty_conv is_high_def)
  then have "rating_sum rs \<le> int (length rs) * 3"
    by (rule rating_sum_le_const)
  moreover have "0 < int (length rs)" using assms(1) by simp
  ultimately show False using assms(2) by linarith
qed

text \<open>C10: the star breakdown of the summary answer (5, 4, 3 and 1-2 stars) accounts for
  every review exactly when no rating exceeds 5; a rating of 6 or more is counted in no
  bucket, since the code does not check the range 1..5 the spec assumes.\<close>

theorem star_buckets_partition:
  "count_rating 5 rs + count_rating 4 rs + count_rating 3 rs + length (filter is_low rs) = length rs
   \<longleftrightarrow> (\<forall>r\<in>set rs. rating r \<le> 5)"
proof -
  have "length (filter (\<lambda>r. 5 < rating r) rs) = 0 \<longleftrightarrow> (\<forall>r\<in>set rs. rating r \<le> 5)"
    by (auto simp: filter_empty_conv not_less)
  with star_buckets_plus_over_five [of rs] show ?thesis by linarith
qed

theorem star_buckets_partition_witness:
  "(count_rating 5 [\<lparr>review_id = [], rating = 6, review_text = [], createdAt = []\<rparr>]
    + count_rating 4 [\<lparr>review_id = [], rating = 6, review_text = [], createdAt = []\<rparr>]
    + count_rating 3 [\<lparr>review_id = [], rating = 6, review_text = [], createdAt = []\<rparr>]
    + length (filter is_low [\<lparr>review_id = [], rating = 6, review_text = [], createdAt = []\<rparr>])
    = length [\<lparr>review_id = [], rating = 6, review_text = [], createdAt = []\<rparr>]) = False"
  using star_buckets_partition [of "[\<lparr>review_id = [], rating = 6, review_text = [], createdAt = []\<rparr>]"]
  by simp

end
