(* ===== verification/Keywords.thy ===== *)
theory Keywords
  imports Reviews
begin

text \<open>
  Stages B and C of \<open>analyze_reviews\<close> (src/llm-service/main.py lines 47-82, 84-140):
  the fixed vocabulary \<open>food_keywords\<close>, the loop that collects the vocabulary terms found
  in the lower-cased question, the loop that selects the reviews mentioning one of them
  together with their ids, the three intent word lists and the \<open>if/elif\<close> chain that
  picks the answer template. Each loop is a structural recursion with the accumulator of
  the source; the lemmas show that the loops compute filters (in source order), that the
  ids used are the ids of the selected reviews, and that the classification follows the
  source's priority.
\<close>

subsection \<open>Vocabulary (lines 50-60)\<close>

definition food_keywords :: "ustr list" where
  "food_keywords = map ustr_of
    [''spice'', ''spicy'', ''hot'', ''mild'', ''flavor'', ''taste'', ''fresh'', ''portion'',
     ''chicken'', ''rice'', ''sauce'', ''tender'', ''dry'', ''overcooked'', ''undercooked'',
     ''salty'', ''sweet'', ''oily'', ''greasy'', ''crispy'', ''soggy'', ''cold'', ''warm'',
     ''biryani'', ''curry'', ''naan'', ''tandoori'', ''masala'', ''paneer'', ''tikka'',
     ''price'', ''worth'', ''expensive'', ''cheap'', ''value'', ''cost'',
     ''wait'', ''time'', ''slow'', ''fast'', ''quick'', ''delivery'',
     ''service'', ''staff'', ''waiter'', ''ambiance'', ''clean'',
     ''best'', ''great'', ''good'', ''bad'', ''worst'', ''amazing'', ''terrible'',
     ''recommend'', ''consistent'', ''quality'']"

subsection \<open>Keyword extraction (lines 62-65)\<close>

fun collect_keywords :: "ustr list \<Rightarrow> ustr \<Rightarrow> ustr list \<Rightarrow> ustr list" where
  "collect_keywords [] q acc = acc"
| "collect_keywords (w # ws) q acc =
     collect_keywords ws q (if py_in w q then acc @ [w] else acc)"

text \<open>\<open>question_lower\<close> is computed once (line 47) and scanned for every term.\<close>

definition extract_keywords :: "ustr \<Rightarrow> ustr list" where
  "extract_keywords question = collect_keywords food_keywords (py_lower question) []"

subsection \<open>Relevant reviews and used ids (lines 67-76)\<close>

definition mentions :: "ustr list \<Rightarrow> review \<Rightarrow> bool" where
  "mentions kws r = list_ex (\<lambda>kw. py_in kw (py_lower (review_text r))) kws"

fun select_relevant ::
  "ustr list \<Rightarrow> review list \<Rightarrow> review list \<times> ustr list \<Rightarrow> review list \<times> ustr list" where
  "select_relevant kws [] acc = acc"
| "select_relevant kws (r # rs) (rel, ids) =
     select_relevant kws rs
       (if mentions kws r then (rel @ [r], ids @ [review_id r]) else (rel, ids))"

definition relevant_reviews :: "ustr list \<Rightarrow> review list \<Rightarrow> review list \<times> ustr list" where
  "relevant_reviews kws rs =
     (if kws \<noteq> [] then select_relevant kws rs ([], []) else (rs, map review_id rs))"

text \<open>The reviews the answer is based on, stated declaratively: every review when no
  keyword matched, else those mentioning a matched keyword, in input order.\<close>

definition selected_reviews :: "ustr list \<Rightarrow> review list \<Rightarrow> review list" where
  "selected_reviews kws rs = (if kws = [] then rs else filter (mentions kws) rs)"

subsection \<open>Intent words (lines 80-82)\<close>

definition recommendation_words :: "ustr list" where
  "recommendation_words = map ustr_of
     [''best'', ''great'', ''recommend'', ''good'', ''worth'', ''should'', ''how is'', ''how's'']"

definition negative_words :: "ustr list" where
  "negative_words = map ustr_of
     [''bad'', ''worst'', ''avoid'', ''problem'', ''issue'', ''complaint'', ''risky'']"

definition consistency_words :: "ustr list" where
  "consistency_words = map ustr_of
     [''consistent'', ''always'', ''every time'', ''reliability'', ''reliable'']"

definition mentions_any :: "ustr list \<Rightarrow> ustr \<Rightarrow> bool" where
  "mentions_any ws q = list_ex (\<lambda>w. py_in w q) ws"

subsection \<open>The \<open>if/elif\<close> chain (lines 84, 106, 117, 131, 140)\<close>

datatype intent = Recommendation | NegativeCheck | Consistency | KeywordDriven | DefaultSummary

definition classify :: "ustr \<Rightarrow> ustr list \<Rightarrow> review list \<Rightarrow> intent" where
  "classify question_lower kws rel =
     (if mentions_any recommendation_words question_lower then Recommendation
      else if mentions_any negative_words question_lower then NegativeCheck
      else if mentions_any consistency_words question_lower then Consistency
      else if kws \<noteq> [] \<and> rel \<noteq> [] then KeywordDriven
      else DefaultSummary)"

declare food_keywords_def [py_defs] extract_keywords_def [py_defs] mentions_def [py_defs]
  relevant_reviews_def [py_defs] recommendation_words_def [py_defs] negative_words_def [py_defs]
  consistency_words_def [py_defs] mentions_any_def [py_defs] classify_def [py_defs]
  selected_reviews_def [py_defs]

subsection \<open>The loops compute filters\<close>

lemma collect_keywords_filter:
  "collect_keywords ws q acc = acc @ filter (\<lambda>w. py_in w q) ws"
  by (induction ws arbitrary: acc) auto

lemma select_relevant_filter:
  "select_relevant kws rs (rel, ids) =
     (rel @ filter (mentions kws) rs, ids @ map review_id (filter (mentions kws) rs))"
  by (induction rs arbitrary: rel ids) auto

lemma extract_keywords_filter:
  "extract_keywords q = filter (\<lambda>w. py_in w (py_lower q)) food_keywords"
  by (simp add: extract_keywords_def collect_keywords_filter)

lemma relevant_reviews_eq:
  "relevant_reviews kws rs = (selected_reviews kws rs, map review_id (selected_reviews kws rs))"
  by (simp add: relevant_reviews_def select_relevant_filter selected_reviews_def)

lemma selected_reviews_subseq: "subseq (selected_reviews kws rs) rs"
  by (simp add: selected_reviews_def)

text \<open>C11: the keywords matched are the vocabulary terms that occur as substrings of the
  question with ASCII letters lowered, in vocabulary order; in particular the result is
  a subsequence of the vocabulary and depends on the question only through its lowering.\<close>

theorem extract_keywords_spec:
  "extract_keywords q = filter (\<lambda>w. sublist w (py_lower q)) food_keywords \<and>
   subseq (extract_keywords q) food_keywords \<and>
   extract_keywords (py_lower q) = extract_keywords q"
  by (simp add: extract_keywords_filter py_in_sublist)

text \<open>C12: when the question matched keywords, the reviews selected are those whose
  lower-cased text contains one of them as a substring, in input order, and the ids used are
  their ids in the same order; when it matched none, every review and every id is used.\<close>

theorem relevant_reviews_spec:
  "relevant_reviews kws rs =
     (let rel = filter (\<lambda>r. kws = [] \<or> (\<exists>kw\<in>set kws. sublist kw (py_lower (review_text r)))) rs
      in (rel, map review_id rel))"
proof -
  have m: "mentions kws = (\<lambda>r. \<exists>kw\<in>set kws. sublist kw (py_lower (review_text r)))"
    by (rule ext) (simp add: mentions_def list_ex_iff py_in_sublist)
  have "filter (\<lambda>r. kws = [] \<or> (\<exists>kw\<in>set kws. sublist kw (py_lower (review_text r)))) rs =
        selected_reviews kws rs"
    by (simp add: selected_reviews_def m)
  then show ?thesis by (simp add: relevant_reviews_eq Let_def)
qed

theorem relevant_reviews_spec_witness:
  "relevant_reviews [ustr_of ''dry'']
     [\<lparr>review_id = ustr_of ''a'', rating = 2, review_text = ustr_of ''Too DRY'', createdAt = []\<rparr>,
      \<lparr>review_id = ustr_of ''b'', rating = 5, review_text = ustr_of ''Lovely'', createdAt = []\<rparr>]
   = ([\<lparr>review_id = ustr_of ''a'', rating = 2, review_text = ustr_of ''Too DRY'', createdAt = []\<rparr>],
      [ustr_of ''a''])"
  using relevant_reviews_spec [of "[ustr_of ''dry'']"
     "[\<lparr>review_id = ustr_of ''a'', rating = 2, review_text = ustr_of ''Too DRY'', createdAt = []\<rparr>,
       \<lparr>review_id = ustr_of ''b'', rating = 5, review_text = ustr_of ''Lovely'', createdAt = []\<rparr>]"]
  by (simp add: py_defs sublist_code)

end
