(* ===== verification/Render.thy ===== *)
theory Render
  imports Keywords
begin

text \<open>
  Stage D of \<open>analyze_reviews\<close> (src/llm-service/main.py lines 84-146): one function per
  branch of the \<open>if/elif\<close> chain, each returning the list \<open>parts\<close> the branch
  appends, in the order the source appends them. Non-ASCII code points of the templates are
  written as numbers: 34 is the double quote, 8212 the em dash, 11088 the star and 127881
  the party popper. The branches that call \<open>max\<close> or \<open>min\<close> return
  \<open>py_error + ustr list\<close>, so that the \<open>ValueError\<close> those calls raise on an
  empty argument is a value of the model; the lemmas show that the source's guards exclude
  it and bound the number of reviews each branch quotes.
\<close>

text \<open>The f-strings of a branch that format ratings (\<open>{top.rating}\<close>, \<open>{r.rating}\<close>,
  \<open>{min_r}\<close>, \<open>{max_r}\<close>): the first rating with more than
  \<open>int_max_str_digits\<close> digits raises \<open>ValueError\<close>, which abandons the branch and
  the handler, so the branch's value is that error; otherwise it is the lines. The counts
  the templates format (\<open>{total}\<close>, \<open>{five_star}\<close>, \<open>{len(low_reviews)}\<close>) are
  lengths of lists held in memory and stay far below the limit.\<close>

definition format_ints :: "int list \<Rightarrow> 'a \<Rightarrow> py_error + 'a" where
  "format_ints ks x = (if list_all str_digits_ok ks then Inr x else Inl ValueError)"

text \<open>\<open>f'\n> {lead}*"{r.text[:n]}"* \<mdash> \<star>{r.rating}/5'\<close> (lines 94, 110, 138, 146)\<close>

definition quote_excerpt :: "ustr \<Rightarrow> nat \<Rightarrow> review \<Rightarrow> ustr" where
  "quote_excerpt lead n r =
     ustr_of ''\<newline>> '' @ lead @ [42, 34] @ take n (review_text r) @ [34, 42, 32, 8212, 32, 11088]
     @ py_str_int (rating r) @ ustr_of ''/5''"

text \<open>A line of the answer that quotes a review.\<close>

definition quote_line :: "ustr \<Rightarrow> bool" where
  "quote_line l = prefix (ustr_of ''\<newline>> '') l"

subsection \<open>Recommendation (lines 84-104)\<close>

definition render_recommendation :: "ustr \<Rightarrow> ustr \<Rightarrow> review_stats \<Rightarrow> py_error + ustr list" where
  "render_recommendation dish_name window st =
     (if float_ge_int (avg_rating st) 4 then
        (let head =
           [ustr_of ''**'' @ dish_name @ ustr_of '' is highly rated!** Based on ''
            @ py_digits (total st) @ ustr_of '' recent reviews (last '' @ window
            @ ustr_of ''), it has an average rating of '' @ py_format1 (avg_rating st) @ ustr_of ''/5.'']
          @ (if 0 < five_star st then
               [py_digits (five_star st) @ ustr_of '' out of '' @ py_digits (total st)
                @ ustr_of '' reviewers gave it 5 stars.'']
             else [])
         in if high_reviews st \<noteq> [] then
              (case py_max_by rating (high_reviews st) of
                 Inl e \<Rightarrow> Inl e
               | Inr top_review \<Rightarrow>
                   format_ints [rating top_review] (head @ [quote_excerpt [] 150 top_review]))
            else Inr head)
      else if float_ge_int (avg_rating st) 3 then
        Inr [ustr_of ''**'' @ dish_name @ ustr_of '' has mixed reviews.** Average rating: ''
             @ py_format1 (avg_rating st) @ ustr_of ''/5 from '' @ py_digits (total st)
             @ ustr_of '' reviews in the last '' @ window @ ustr_of ''.'']
      else
        Inr [ustr_of ''**Heads up '' @ [8212] @ ustr_of '' '' @ dish_name
             @ ustr_of '' has low ratings recently.** Average: '' @ py_format1 (avg_rating st)
             @ ustr_of ''/5 from '' @ py_digits (total st) @ ustr_of '' reviews.''])"

subsection \<open>Negative check (lines 106-115)\<close>

definition render_negative :: "ustr \<Rightarrow> ustr \<Rightarrow> review_stats \<Rightarrow> py_error + ustr list" where
  "render_negative dish_name window st =
     (if low_reviews st \<noteq> [] then
        format_ints (map rating (take 3 (low_reviews st)))
          ([ustr_of ''Found '' @ py_digits (length (low_reviews st))
            @ ustr_of '' negative review(s) out of '' @ py_digits (total st)
            @ ustr_of '' in the last '' @ window @ ustr_of '':'']
           @ map (quote_excerpt [] 120) (take 3 (low_reviews st)))
      else
        Inr [ustr_of ''No negative reviews found for '' @ dish_name @ ustr_of '' in the last '' @ window
         @ ustr_of ''. All '' @ py_digits (total st) @ ustr_of '' reviews are positive (avg ''
         @ py_format1 (avg_rating st) @ ustr_of ''/5)! '' @ [127881]])"

subsection \<open>Consistency (lines 117-129)\<close>

definition render_consistency ::
  "ustr \<Rightarrow> review list \<Rightarrow> review_stats \<Rightarrow> py_error + ustr list" where
  "render_consistency dish_name reviews st =
     (let ratings = map rating reviews in
      case (py_min_list ratings, py_max_list ratings) of
        (Inl e, _) \<Rightarrow> Inl e
      | (_, Inl e) \<Rightarrow> Inl e
      | (Inr min_r, Inr max_r) \<Rightarrow>
          if max_r - min_r \<le> 1 then
            format_ints [min_r, max_r] [ustr_of ''**'' @ dish_name @ ustr_of '' is very consistent!** All ''
                 @ py_digits (total st) @ ustr_of '' recent ratings are between ''
                 @ py_str_int min_r @ ustr_of '' and '' @ py_str_int max_r
                 @ ustr_of '' stars (avg '' @ py_format1 (avg_rating st) @ ustr_of ''/5).'']
          else
            format_ints [min_r, max_r] [ustr_of ''**Quality varies.** Ratings range from '' @ py_str_int min_r
                 @ ustr_of '' to '' @ py_str_int max_r @ ustr_of '' stars (avg ''
                 @ py_format1 (avg_rating st) @ ustr_of ''/5) across '' @ py_digits (total st)
                 @ ustr_of '' reviews.''])"

subsection \<open>Keyword-driven answer (lines 131-138)\<close>

definition render_keywords ::
  "ustr \<Rightarrow> review_stats \<Rightarrow> ustr list \<Rightarrow> review list \<Rightarrow> py_error + ustr list" where
  "render_keywords window st kws rel =
     format_ints (map rating (take 4 rel))
       ([ustr_of ''Found '' @ py_digits (length rel) @ ustr_of '' review(s) mentioning **''
         @ py_join (ustr_of '', '') kws @ ustr_of ''** out of '' @ py_digits (total st)
         @ ustr_of '' total (last '' @ window @ ustr_of ''):'']
        @ map (quote_excerpt [] 150) (take 4 rel))"

subsection \<open>Default summary (lines 140-146)\<close>

definition render_summary :: "ustr \<Rightarrow> ustr \<Rightarrow> review_stats \<Rightarrow> py_error + ustr list" where
  "render_summary dish_name window st =
     (let lines =
     [ustr_of ''Here's a summary of **'' @ dish_name @ ustr_of ''** ('' @ py_digits (total st)
      @ ustr_of '' reviews, last '' @ window @ ustr_of ''):'',
      ustr_of ''- Average rating: **'' @ py_format1 (avg_rating st) @ ustr_of ''/5**'',
      ustr_of ''- '' @ [11088] @ ustr_of ''5: '' @ py_digits (five_star st)
      @ ustr_of '' | '' @ [11088] @ ustr_of ''4: '' @ py_digits (four_star st)
      @ ustr_of '' | '' @ [11088] @ ustr_of ''3: '' @ py_digits (three_star st)
      @ ustr_of '' | '' @ [11088] @ ustr_of ''1-2: '' @ py_digits (length (low_reviews st))]
      in if high_reviews st \<noteq> [] then
           format_ints [rating (hd (high_reviews st))]
             (lines @ [quote_excerpt (ustr_of ''Latest positive: '') 120 (hd (high_reviews st))])
         else Inr lines)"

subsection \<open>Dispatch on the intent\<close>

fun render ::
  "intent \<Rightarrow> ustr \<Rightarrow> ustr \<Rightarrow> review list \<Rightarrow> review_stats \<Rightarrow> ustr list \<Rightarrow> review list
   \<Rightarrow> py_error + ustr list" where
  "render Recommendation dish_name window reviews st kws rel =
     render_recommendation dish_name window st"
| "render NegativeCheck dish_name window reviews st kws rel =
     render_negative dish_name window st"
| "render Consistency dish_name window reviews st kws rel =
     render_consistency dish_name reviews st"
| "render KeywordDriven dish_name window reviews st kws rel =
     render_keywords window st kws rel"
| "render DefaultSummary dish_name window reviews st kws rel =
     render_summary dish_name window st"

declare format_ints_def [py_defs] quote_excerpt_def [py_defs] render_recommendation_def [py_defs]
  render_negative_def [py_defs] render_consistency_def [py_defs] render_keywords_def [py_defs]
  render_summary_def [py_defs]

subsection \<open>When the branches return\<close>

text \<open>The guards exclude the \<open>ValueError\<close> of \<open>max\<close> and \<open>min\<close>; the ratings a
  branch formats are ratings of the reviews, so ratings within the digit limit exclude the
  \<open>ValueError\<close> of the f-strings.\<close>

abbreviation ratings_ok :: "review list \<Rightarrow> bool" where
  "ratings_ok rs \<equiv> \<forall>r\<in>set rs. str_digits_ok (rating r)"

lemma format_ints_Inr [simp]: "format_ints ks x = Inr y \<longleftrightarrow> list_all str_digits_ok ks \<and> y = x"
  by (auto simp: format_ints_def)

lemma format_ints_Inl [simp]: "format_ints ks x = Inl e \<longleftrightarrow> \<not> list_all str_digits_ok ks \<and> e = ValueError"
  by (auto simp: format_ints_def)

lemma ratings_ok_take: "ratings_ok rs \<Longrightarrow> list_all str_digits_ok (map rating (take n rs))"
  by (auto simp: list_all_iff dest: in_set_takeD)

lemma render_recommendation_Inr:
  "ratings_ok (high_reviews st) \<Longrightarrow> \<exists>parts. render_recommendation dish_name window st = Inr parts"
proof (cases "high_reviews st")
  case (Cons h hs)
  moreover assume ok: "ratings_ok (high_reviews st)"
  moreover obtain top where "py_max_by rating (high_reviews st) = Inr top"
    using Cons by simp
  moreover from this have "top \<in> set (high_reviews st)" by (rule py_max_by_in)
  ultimately show ?thesis by (auto simp: render_recommendation_def Let_def)
qed (simp add: render_recommendation_def Let_def)

lemma render_negative_Inr:
  "ratings_ok (low_reviews st) \<Longrightarrow> \<exists>parts. render_negative dish_name window st = Inr parts"
  by (simp add: render_negative_def ratings_ok_take)

lemma render_consistency_Inr:
  assumes "reviews \<noteq> []" and "ratings_ok reviews"
  shows "\<exists>parts. render_consistency dish_name reviews st = Inr parts"
proof -
  obtain x xs where xs: "map rating reviews = x # xs" using assms(1) by (cases reviews) auto
  have "\<forall>k\<in>set (x # xs). str_digits_ok k" using assms(2) xs by (metis imageE list.set_map)
  then have "str_digits_ok (Min (set (x # xs)))" and "str_digits_ok (Max (set (x # xs)))"
    by (simp_all del: set_simps)
  then show ?thesis
    by (simp add: render_consistency_def xs py_min_list_Min py_max_list_Max Let_def
        del: py_min_list.simps py_max_list.simps)
qed

lemma render_keywords_Inr:
  "ratings_ok rel \<Longrightarrow> \<exists>parts. render_keywords window st kws rel = Inr parts"
  by (simp add: render_keywords_def ratings_ok_take)

lemma render_summary_Inr:
  "ratings_ok (high_reviews st) \<Longrightarrow> \<exists>parts. render_summary dish_name window st = Inr parts"
  by (cases "high_reviews st") (simp_all add: render_summary_def Let_def)

lemma render_Inr:
  assumes "reviews \<noteq> []" and "ratings_ok reviews"
    and "set (high_reviews st) \<subseteq> set reviews" and "set (low_reviews st) \<subseteq> set reviews"
    and "set rel \<subseteq> set reviews"
  shows "\<exists>parts. render i dish_name window reviews st kws rel = Inr parts"
proof -
  have "ratings_ok (high_reviews st)" "ratings_ok (low_reviews st)" "ratings_ok rel"
    using assms(2-5) by blast+
  with assms(1,2) show ?thesis
    by (cases i) (simp_all add: render_recommendation_Inr render_negative_Inr
        render_consistency_Inr render_keywords_Inr render_summary_Inr)
qed

text \<open>A rating beyond the digit limit is the minimum or is bounded by the maximum, so the
  consistency answer, which prints both, raises.\<close>

lemma render_consistency_ValueError:
  assumes "r \<in> set reviews" and "\<not> str_digits_ok (rating r)"
  shows "render_consistency dish_name reviews st = Inl ValueError"
proof -
  obtain x xs where xs: "map rating reviews = x # xs" using assms(1) by (cases reviews) auto
  have r: "rating r \<in> set (x # xs)" using assms(1) xs by (metis image_eqI list.set_map)
  have big: "10 ^ int_max_str_digits \<le> \<bar>rating r\<bar>" using assms(2) by (simp add: str_digits_ok_iff)
  have "\<not> str_digits_ok (Min (set (x # xs))) \<or> \<not> str_digits_ok (Max (set (x # xs)))"
  proof (cases "0 \<le> rating r")
    case True
    have "rating r \<le> Max (set (x # xs))" using r by (simp del: set_simps)
    with big True have "\<not> str_digits_ok (Max (set (x # xs)))"
      unfolding str_digits_ok_iff by arith
    then show ?thesis ..
  next
    case False
    have "Min (set (x # xs)) \<le> rating r" using r by (simp del: set_simps)
    with big False have "\<not> str_digits_ok (Min (set (x # xs)))"
      unfolding str_digits_ok_iff by arith
    then show ?thesis ..
  qed
  then show ?thesis
    by (auto simp: render_consistency_def xs py_min_list_Min py_max_list_Max Let_def
        format_ints_def simp del: py_min_list.simps py_max_list.simps)
qed

subsection \<open>The quoted reviews\<close>

lemma render_quotes:
  assumes r: "render i dish_name window rs st kws rel = Inr parts"
    and hi: "high_reviews st = filter is_high rs" and lo: "low_reviews st = filter is_low rs"
    and rel: "subseq rel rs"
  shows "\<exists>heads lead n qs. parts = heads @ map (quote_excerpt lead n) qs \<and>
    list_all (\<lambda>h. \<not> quote_line h) heads \<and> subseq qs rs \<and> length qs \<le> 4"
proof (cases i)
  case Recommendation
  with r have r': "render_recommendation dish_name window st = Inr parts" by simp
  show ?thesis
  proof (cases "float_ge_int (avg_rating st) 4")
    case True
    define heads where "heads =
      [ustr_of ''**'' @ dish_name @ ustr_of '' is highly rated!** Based on ''
            @ py_digits (total st) @ ustr_of '' recent reviews (last '' @ window
            @ ustr_of ''), it has an average rating of '' @ py_format1 (avg_rating st) @ ustr_of ''/5.'']
          @ (if 0 < five_star st then
               [py_digits (five_star st) @ ustr_of '' out of '' @ py_digits (total st)
                @ ustr_of '' reviewers gave it 5 stars.'']
             else [])"
    have hq: "list_all (\<lambda>h. \<not> quote_line h) heads"
      by (simp add: heads_def quote_line_def not_prefix_digits)
    show ?thesis
    proof (cases "high_reviews st = []")
      case False
      then obtain top where top: "py_max_by rating (high_reviews st) = Inr top"
        by (cases "high_reviews st") auto
      then have "top \<in> set rs" using hi by (auto dest: py_max_by_in)
      moreover have "parts = heads @ [quote_excerpt [] 150 top]"
        using r' True False top by (simp add: render_recommendation_def heads_def Let_def split: if_splits)
      ultimately show ?thesis using hq
        by (intro exI [of _ heads] exI [of _ "[]"] exI [of _ 150] exI [of _ "[top]"])
          (simp add: subseq_singleton)
    next
      case True': True
      have "parts = heads"
        using r' True True' by (simp add: render_recommendation_def heads_def Let_def)
      with hq show ?thesis
        by (intro exI [of _ heads] exI [of _ "[]"] exI [of _ 0] exI [of _ "[]"]) simp
    qed
  next
    case False
    with r' have "list_all (\<lambda>h. \<not> quote_line h) parts"
      by (auto simp: render_recommendation_def quote_line_def split: if_splits)
    then show ?thesis
      by (intro exI [of _ parts] exI [of _ "[]"] exI [of _ 0] exI [of _ "[]"]) simp
  qed
next
  case NegativeCheck
  with r have p: "render_negative dish_name window st = Inr parts" by simp
  show ?thesis
  proof (cases "low_reviews st = []")
    case True
    with p have "list_all (\<lambda>h. \<not> quote_line h) parts"
      by (auto simp: render_negative_def quote_line_def)
    then show ?thesis
      by (intro exI [of _ parts] exI [of _ "[]"] exI [of _ 0] exI [of _ "[]"]) simp
  next
    case False
    define head where "head = ustr_of ''Found '' @ py_digits (length (low_reviews st))
         @ ustr_of '' negative review(s) out of '' @ py_digits (total st)
         @ ustr_of '' in the last '' @ window @ ustr_of '':''"
    have "parts = [head] @ map (quote_excerpt [] 120) (take 3 (low_reviews st))"
      using p False by (simp add: render_negative_def head_def split: if_splits)
    moreover have "subseq (take 3 (filter is_low rs)) rs"
      by (rule subseq_order.trans [OF prefix_imp_subseq [OF take_is_prefix]]) simp
    moreover have "\<not> quote_line head" by (simp add: head_def quote_line_def)
    ultimately show ?thesis
      using lo by (intro exI [of _ "[head]"] exI [of _ "[]"] exI [of _ 120]
          exI [of _ "take 3 (low_reviews st)"]) simp
  qed
next
  case Consistency
  with r have "list_all (\<lambda>h. \<not> quote_line h) parts"
    by (auto simp: render_consistency_def quote_line_def Let_def
        split: sum.splits if_splits prod.splits)
  then show ?thesis
    by (intro exI [of _ parts] exI [of _ "[]"] exI [of _ 0] exI [of _ "[]"]) simp
next
  case KeywordDriven
  define head where "head = ustr_of ''Found '' @ py_digits (length rel) @ ustr_of '' review(s) mentioning **''
      @ py_join (ustr_of '', '') kws @ ustr_of ''** out of '' @ py_digits (total st)
      @ ustr_of '' total (last '' @ window @ ustr_of ''):''"
  from r KeywordDriven have "parts = [head] @ map (quote_excerpt [] 150) (take 4 rel)"
    by (simp add: render_keywords_def head_def split: if_splits)
  moreover have "subseq (take 4 rel) rs"
    by (rule subseq_order.trans [OF prefix_imp_subseq [OF take_is_prefix] rel])
  moreover have "\<not> quote_line head" by (simp add: head_def quote_line_def)
  ultimately show ?thesis
    by (intro exI [of _ "[head]"] exI [of _ "[]"] exI [of _ 150] exI [of _ "take 4 rel"]) simp
next
  case DefaultSummary
  with r have p: "render_summary dish_name window st = Inr parts" by simp
  define heads where "heads =
     [ustr_of ''Here's a summary of **'' @ dish_name @ ustr_of ''** ('' @ py_digits (total st)
      @ ustr_of '' reviews, last '' @ window @ ustr_of ''):'',
      ustr_of ''- Average rating: **'' @ py_format1 (avg_rating st) @ ustr_of ''/5**'',
      ustr_of ''- '' @ [11088] @ ustr_of ''5: '' @ py_digits (five_star st)
      @ ustr_of '' | '' @ [11088] @ ustr_of ''4: '' @ py_digits (four_star st)
      @ ustr_of '' | '' @ [11088] @ ustr_of ''3: '' @ py_digits (three_star st)
      @ ustr_of '' | '' @ [11088] @ ustr_of ''1-2: '' @ py_digits (length (low_reviews st))]"
  have hq: "list_all (\<lambda>h. \<not> quote_line h) heads"
    by (simp add: heads_def quote_line_def)
  show ?thesis
  proof (cases "high_reviews st")
    case Nil
    with p have "parts = heads" by (simp add: render_summary_def heads_def Let_def)
    with hq show ?thesis
      by (intro exI [of _ heads] exI [of _ "[]"] exI [of _ 0] exI [of _ "[]"]) simp
  next
    case (Cons h hs)
    then have "h \<in> set (filter is_high rs)" using hi by simp
    then have "h \<in> set rs" by simp
    moreover have "parts = heads @ [quote_excerpt (ustr_of ''Latest positive: '') 120 h]"
      using p Cons by (simp add: render_summary_def heads_def Let_def split: if_splits)
    ultimately show ?thesis using hq
      by (intro exI [of _ heads] exI [of _ "ustr_of ''Latest positive: ''"] exI [of _ 120]
          exI [of _ "[h]"]) (simp add: subseq_singleton)
  qed
qed

end
