(* ===== verification/Analyzer.thy ===== *)
theory Analyzer
  imports Render
begin

text \<open>
  The handler \<open>analyze_reviews\<close> (src/llm-service/main.py lines 29-159) composed from
  the stages of the other theories, and the response it builds (\<open>ChatResponse\<close>, lines
  22-26, with the metadata dictionaries of lines 36 and 154-158). Python exceptions are the
  \<open>Inl\<close> values of \<open>py_error + chat_response\<close>. The lemmas decompose a successful
  run into its stages, show that it succeeds when the ratings are bounded, and characterise
  its exceptions: the \<open>OverflowError\<close> of the mean, and the \<open>ValueError\<close> of a
  rating printed beyond the 4300-digit limit.
\<close>

subsection \<open>Response (lines 22-26)\<close>

datatype metadata =
    MetaEmpty (reviewsAnalyzed: nat)
  | MetaFull (reviewsAnalyzed: nat) (avgRating: pyfloat) (keywordsMatched: "ustr list")

record chat_response =
  answer :: ustr
  reviewIdsUsed :: "ustr list"
  resp_window :: ustr
  metadata :: metadata

subsection \<open>The handler (lines 29-159)\<close>

definition no_reviews_response :: "ustr \<Rightarrow> ustr \<Rightarrow> chat_response" where
  "no_reviews_response dish_name window =
     \<lparr>answer = ustr_of ''No reviews found for '' @ dish_name @ ustr_of '' in the last '' @ window
        @ ustr_of ''. Be the first to leave a review!'',
      reviewIdsUsed = [], resp_window = window, metadata = MetaEmpty 0\<rparr>"

definition analyze_reviews :: "ustr \<Rightarrow> review list \<Rightarrow> ustr \<Rightarrow> ustr \<Rightarrow> py_error + chat_response" where
  "analyze_reviews question reviews dish_name window =
     (if reviews = [] then Inr (no_reviews_response dish_name window)
      else case aggregate reviews of
        Inl e \<Rightarrow> Inl e
      | Inr st \<Rightarrow>
          (let question_lower = py_lower question;
               kws = collect_keywords food_keywords question_lower [];
               (rel, used_ids) = relevant_reviews kws reviews
           in case render (classify question_lower kws rel) dish_name window reviews st kws rel of
                Inl e \<Rightarrow> Inl e
              | Inr parts \<Rightarrow>
                  (case py_round1 (avg_rating st) of
                     Inl e \<Rightarrow> Inl e
                   | Inr avg1 \<Rightarrow> Inr
                       \<lparr>answer = py_join [10] parts, reviewIdsUsed = take 10 used_ids,
                        resp_window = window,
                        metadata = MetaFull (total st) avg1 kws\<rparr>)))"

declare no_reviews_response_def [py_defs] analyze_reviews_def [py_defs]

subsection \<open>The handler composed from its stages\<close>

lemma analyze_reviews_Nil: "analyze_reviews question [] dish_name window =
    Inr (no_reviews_response dish_name window)"
  by (simp add: analyze_reviews_def)

lemma analyze_reviews_Inr:
  assumes "reviews \<noteq> []" and "aggregate reviews = Inr st"
    and "render (classify (py_lower question) (extract_keywords question)
           (selected_reviews (extract_keywords question) reviews))
           dish_name window reviews st (extract_keywords question)
           (selected_reviews (extract_keywords question) reviews) = Inr parts"
    and "py_round1 (avg_rating st) = Inr avg1"
  shows "analyze_reviews question reviews dish_name window = Inr
    \<lparr>answer = py_join [10] parts,
     reviewIdsUsed = take 10 (map review_id (selected_reviews (extract_keywords question) reviews)),
     resp_window = window,
     metadata = MetaFull (length reviews) avg1 (extract_keywords question)\<rparr>"
  using assms aggregate_Inr [OF assms(2)]
  by (simp add: analyze_reviews_def relevant_reviews_eq extract_keywords_def Let_def)

lemma analyze_reviews_InrE:
  assumes "analyze_reviews question reviews dish_name window = Inr resp" and "reviews \<noteq> []"
  obtains st parts avg1 where "aggregate reviews = Inr st"
    and "render (classify (py_lower question) (extract_keywords question)
           (selected_reviews (extract_keywords question) reviews))
           dish_name window reviews st (extract_keywords question)
           (selected_reviews (extract_keywords question) reviews) = Inr parts"
    and "py_round1 (avg_rating st) = Inr avg1"
    and "resp = \<lparr>answer = py_join [10] parts,
     reviewIdsUsed = take 10 (map review_id (selected_reviews (extract_keywords question) reviews)),
     resp_window = window,
     metadata = MetaFull (length reviews) avg1 (extract_keywords question)\<rparr>"
proof -
  from assms obtain st where st: "aggregate reviews = Inr st"
    by (cases "aggregate reviews") (auto simp: analyze_reviews_def)
  with assms show ?thesis
    using that aggregate_Inr [OF st]
    by (auto simp: analyze_reviews_def relevant_reviews_eq extract_keywords_def Let_def
        split: sum.splits)
qed

lemma analyze_reviews_ids:
  assumes "analyze_reviews question reviews dish_name window = Inr resp"
  shows "reviewIdsUsed resp =
    take 10 (map review_id (selected_reviews (extract_keywords question) reviews))"
proof (cases "reviews = []")
  case True
  with assms have "resp = no_reviews_response dish_name window"
    by (simp add: analyze_reviews_Nil)
  with True show ?thesis
    by (simp add: no_reviews_response_def selected_reviews_def)
next
  case False
  with assms show ?thesis
    by (rule analyze_reviews_InrE) simp
qed

lemma analyze_render_Inr:
  assumes "reviews \<noteq> []" and "ratings_ok reviews" and "aggregate reviews = Inr st"
  shows "\<exists>parts. render i dish_name window reviews st kws
    (selected_reviews (extract_keywords question) reviews) = Inr parts"
proof (rule render_Inr [OF assms(1,2)])
  show "set (high_reviews st) \<subseteq> set reviews" and "set (low_reviews st) \<subseteq> set reviews"
    using aggregate_Inr [OF assms(3)] by auto
  show "set (selected_reviews (extract_keywords question) reviews) \<subseteq> set reviews"
    by (rule subseq_set_subset [OF selected_reviews_subseq])
qed

lemma ratings_ok_bounded:
  assumes "\<forall>r\<in>set reviews. \<bar>rating r\<bar> \<le> 2 ^ 1000"
  shows "ratings_ok reviews"
proof
  fix r assume "r \<in> set reviews"
  with assms have "\<bar>rating r\<bar> \<le> 2 ^ 1000" by blast
  also have "(2::int) ^ 1000 < 10 ^ 1000"
    by (rule power_strict_mono) simp_all
  also have "(10::int) ^ 1000 \<le> 10 ^ int_max_str_digits"
    by (rule power_increasing) (simp_all add: int_max_str_digits_def)
  finally show "str_digits_ok (rating r)" by (simp add: str_digits_ok_iff)
qed

lemma analyze_reviews_bounded_Inr:
  assumes "\<forall>r\<in>set reviews. \<bar>rating r\<bar> \<le> 2 ^ 1000"
  shows "\<exists>resp. analyze_reviews question reviews dish_name window = Inr resp"
proof (cases "reviews = []")
  case True
  then show ?thesis by (simp add: analyze_reviews_Nil)
next
  case False
  obtain st where st: "aggregate reviews = Inr st" and f: "fmag_le (avg_rating st) 1000"
    using aggregate_bounded [OF False assms] by auto
  obtain parts where p: "render (classify (py_lower question) (extract_keywords question)
           (selected_reviews (extract_keywords question) reviews))
           dish_name window reviews st (extract_keywords question)
           (selected_reviews (extract_keywords question) reviews) = Inr parts"
    using analyze_render_Inr [OF False ratings_ok_bounded [OF assms] st] by blast
  obtain avg1 where "py_round1 (avg_rating st) = Inr avg1"
    using py_round1_Inr [OF f] by auto
  with False st p show ?thesis
    by (blast intro: analyze_reviews_Inr)
qed

text \<open>With every rating within the digit limit, the only exception left is the
  \<open>OverflowError\<close> of \<open>sum / total\<close>: \<open>round(avg_rating, 1)\<close> never raises on the
  finite mean, and the guards exclude the \<open>ValueError\<close> of \<open>max\<close> and \<open>min\<close>.\<close>

lemma analyze_reviews_Inl_iff:
  assumes ok: "ratings_ok reviews"
  shows "analyze_reviews question reviews dish_name window = Inl e \<longleftrightarrow>
     reviews \<noteq> [] \<and> e = OverflowError \<and>
     py_true_div (rating_sum reviews) (int (length reviews)) = Inl OverflowError"
proof (cases "reviews = []")
  case True
  then show ?thesis by (simp add: analyze_reviews_Nil)
next
  case False
  show ?thesis
  proof (cases "aggregate reviews")
    case (Inl e')
    then have "e' = OverflowError" using aggregate_Inl False by blast
    moreover have "py_true_div (rating_sum reviews) (int (length reviews)) = Inl e'"
      using Inl by (auto simp: aggregate_def split: sum.splits)
    ultimately show ?thesis using Inl False by (auto simp: analyze_reviews_def)
  next
    case (Inr st)
    have avg: "py_true_div (rating_sum reviews) (int (length reviews)) = Inr (avg_rating st)"
      using aggregate_Inr [OF Inr] by simp
    obtain parts where p: "render (classify (py_lower question) (extract_keywords question)
           (selected_reviews (extract_keywords question) reviews))
           dish_name window reviews st (extract_keywords question)
           (selected_reviews (extract_keywords question) reviews) = Inr parts"
      using analyze_render_Inr [OF False ok Inr] by blast
    obtain avg1 where "py_round1 (avg_rating st) = Inr avg1"
      using py_round1_finite py_true_div_Inr_finite [OF avg] by blast
    from analyze_reviews_Inr [OF False Inr p this] avg show ?thesis by simp
  qed
qed

text \<open>A consistency question prints the smallest and the largest rating, so one rating
  beyond the digit limit makes it raise \<open>ValueError\<close> once the mean is computed.\<close>

lemma analyze_reviews_consistency_ValueError:
  assumes nr: "\<not> mentions_any recommendation_words (py_lower question)"
    and nn: "\<not> mentions_any negative_words (py_lower question)"
    and c: "mentions_any consistency_words (py_lower question)"
    and r: "r \<in> set reviews" and big: "\<not> str_digits_ok (rating r)"
    and avg: "py_true_div (rating_sum reviews) (int (length reviews)) = Inr m"
  shows "analyze_reviews question reviews dish_name window = Inl ValueError"
proof -
  have ne: "reviews \<noteq> []" using r by auto
  obtain st where agg: "aggregate reviews = Inr st" using avg by (simp add: aggregate_def)
  have cls: "classify (py_lower question) kws rel = Consistency" for kws rel
    using nr nn c by (simp add: classify_def)
  have rc: "render_consistency dish_name reviews st = Inl ValueError"
    by (rule render_consistency_ValueError [OF r big])
  show ?thesis
    using ne agg cls rc by (simp add: analyze_reviews_def relevant_reviews_eq Let_def)
qed


end
