(* ===== verification/Route.thy ===== *)
theory Route
  imports Analyzer
begin

text \<open>
  The request side of the service (src/llm-service/main.py): the schema \<open>ChatRequest\<close>
  (lines 14-19) with its items \<open>ReviewData\<close> (lines 7-11), the validation pydantic
  performs before the handler runs, and the route \<open>chat\<close> (lines 162-164) with the
  HTTP outcome. A decoded body is a \<open>raw_request\<close> whose omitted fields are \<open>None\<close>;
  validation collects every error, in the order the fields are declared, and either rejects
  the body (status 422) or builds the \<open>chat_request\<close> with the declared defaults. An
  exception of the handler becomes status 500, and a body whose ratings \<open>json.loads\<close>
  cannot read becomes status 400. The lemmas characterise acceptance, locate the error of an
  incomplete review item, state which handler call the route makes, and show that over HTTP
  the only server error left is the \<open>OverflowError\<close> of the mean.
\<close>

subsection \<open>Request schema (lines 7-19)\<close>

record chat_request =
  dishAtRestaurantId :: ustr
  req_question :: ustr
  req_window :: ustr
  dishName :: ustr
  req_reviews :: "review list"

text \<open>A decoded \<open>ReviewData\<close> item and request body before validation: a field the
  client omitted is \<open>None\<close>.\<close>

record raw_review =
  raw_review_id :: "ustr option"
  raw_rating :: "int option"
  raw_text :: "ustr option"
  raw_createdAt :: "ustr option"

record raw_request =
  raw_dishAtRestaurantId :: "ustr option"
  raw_question :: "ustr option"
  raw_window :: "ustr option"
  raw_dishName :: "ustr option"
  raw_reviews :: "raw_review list option"

text \<open>A validation error names the field; \<open>ItemMissing i f\<close> is a missing field
  \<open>f\<close> of the review at index \<open>i\<close> (pydantic's location \<open>reviews.i.f\<close>).\<close>

datatype field_error = Missing ustr | TooShort ustr nat | TooLong ustr nat | ItemMissing nat ustr

subsection \<open>Validation\<close>

text \<open>\<open>Field(..., min_length=lo, max_length=hi)\<close> on a required string field; pydantic
  counts code points.\<close>

definition check_required_str :: "ustr \<Rightarrow> nat \<Rightarrow> nat option \<Rightarrow> ustr option \<Rightarrow> field_error list" where
  "check_required_str name lo hi v =
     (case v of
        None \<Rightarrow> [Missing name]
      | Some s \<Rightarrow>
          if length s < lo then [TooShort name lo]
          else (case hi of Some h \<Rightarrow> if h < length s then [TooLong name h] else [] | None \<Rightarrow> []))"

text \<open>The four fields of \<open>ReviewData\<close> have no default, so each is required.\<close>

definition check_review :: "nat \<Rightarrow> raw_review \<Rightarrow> field_error list" where
  "check_review i r =
     (if raw_review_id r = None then [ItemMissing i (ustr_of ''id'')] else [])
     @ (if raw_rating r = None then [ItemMissing i (ustr_of ''rating'')] else [])
     @ (if raw_text r = None then [ItemMissing i (ustr_of ''text'')] else [])
     @ (if raw_createdAt r = None then [ItemMissing i (ustr_of ''createdAt'')] else [])"

fun check_reviews :: "nat \<Rightarrow> raw_review list \<Rightarrow> field_error list" where
  "check_reviews i [] = []"
| "check_reviews i (r # rs) = check_review i r @ check_reviews (Suc i) rs"

definition review_of_raw :: "raw_review \<Rightarrow> review" where
  "review_of_raw r =
     \<lparr>review_id = the (raw_review_id r), rating = the (raw_rating r),
      review_text = the (raw_text r), createdAt = the (raw_createdAt r)\<rparr>"

definition validate_request :: "raw_request \<Rightarrow> field_error list + chat_request" where
  "validate_request raw =
     (let errs = check_required_str (ustr_of ''dishAtRestaurantId'') 1 None (raw_dishAtRestaurantId raw)
                 @ check_required_str (ustr_of ''question'') 1 (Some 500) (raw_question raw)
                 @ (case raw_reviews raw of None \<Rightarrow> [] | Some items \<Rightarrow> check_reviews 0 items)
      in if errs \<noteq> [] then Inl errs
         else Inr \<lparr>dishAtRestaurantId = the (raw_dishAtRestaurantId raw),
                   req_question = the (raw_question raw),
                   req_window = (case raw_window raw of None \<Rightarrow> ustr_of ''24h'' | Some w \<Rightarrow> w),
                   dishName = (case raw_dishName raw of None \<Rightarrow> ustr_of ''this dish'' | Some d \<Rightarrow> d),
                   req_reviews = (case raw_reviews raw of None \<Rightarrow> []
                                  | Some items \<Rightarrow> map review_of_raw items)\<rparr>)"

subsection \<open>The route (lines 162-164)\<close>

definition chat :: "chat_request \<Rightarrow> py_error + chat_response" where
  "chat request =
     analyze_reviews (req_question request) (req_reviews request) (dishName request)
       (req_window request)"

datatype http_response =
  HTTP_200 chat_response | HTTP_400 | HTTP_422 "field_error list" | HTTP_500 py_error

definition post_chat :: "raw_request \<Rightarrow> http_response" where
  "post_chat raw =
     (case validate_request raw of
        Inl errs \<Rightarrow> HTTP_422 errs
      | Inr request \<Rightarrow> (case chat request of Inl e \<Rightarrow> HTTP_500 e | Inr resp \<Rightarrow> HTTP_200 resp))"

text \<open>Before validation FastAPI decodes the body with \<open>json.loads\<close>, which reads an
  integer literal with \<open>int()\<close> and so raises \<open>ValueError\<close> on a literal of more
  than \<open>int_max_str_digits\<close> digits; FastAPI answers that exception with status 400.
  The only integers of the body are the ratings. \<open>serve_chat\<close> is the whole request:
  decoding, then \<open>post_chat\<close> on the decoded body.\<close>

definition json_ints_ok :: "raw_request \<Rightarrow> bool" where
  "json_ints_ok raw =
     (case raw_reviews raw of
        None \<Rightarrow> True
      | Some items \<Rightarrow> list_all (\<lambda>r. case raw_rating r of None \<Rightarrow> True | Some k \<Rightarrow> str_digits_ok k) items)"

definition serve_chat :: "raw_request \<Rightarrow> http_response" where
  "serve_chat raw = (if json_ints_ok raw then post_chat raw else HTTP_400)"

subsection \<open>Encoding a request\<close>

text \<open>The body a client sends for a review, every field present.\<close>

definition raw_review_complete :: "raw_review \<Rightarrow> bool" where
  "raw_review_complete r =
     (raw_review_id r \<noteq> None \<and> raw_rating r \<noteq> None \<and> raw_text r \<noteq> None \<and> raw_createdAt r \<noteq> None)"

definition raw_of_review :: "review \<Rightarrow> raw_review" where
  "raw_of_review r =
     \<lparr>raw_review_id = Some (review_id r), raw_rating = Some (rating r),
      raw_text = Some (review_text r), raw_createdAt = Some (createdAt r)\<rparr>"

declare check_required_str_def [py_defs] check_review_def [py_defs] review_of_raw_def [py_defs]
  validate_request_def [py_defs] chat_def [py_defs] post_chat_def [py_defs]
  json_ints_ok_def [py_defs] serve_chat_def [py_defs]
  raw_review_complete_def [py_defs] raw_of_review_def [py_defs]

subsection \<open>Lemmas\<close>

lemma check_reviews_Nil_iff: "check_reviews i rs = [] \<longleftrightarrow> list_all raw_review_complete rs"
  by (induction rs arbitrary: i) (auto simp: check_review_def raw_review_complete_def)

lemma check_reviews_rating:
  "j < length rs \<Longrightarrow> raw_rating (rs ! j) = None \<Longrightarrow>
     ItemMissing (i + j) (ustr_of ''rating'') \<in> set (check_reviews i rs)"
proof (induction rs arbitrary: i j)
  case (Cons r rs)
  show ?case
  proof (cases j)
    case 0
    with Cons.prems show ?thesis by (simp add: check_review_def)
  next
    case (Suc k)
    with Cons.prems have "ItemMissing (Suc i + k) (ustr_of ''rating'') \<in> set (check_reviews (Suc i) rs)"
      by (intro Cons.IH) simp_all
    with Suc show ?thesis by simp
  qed
qed simp

lemma review_of_raw_of_review [simp]: "review_of_raw (raw_of_review r) = r"
  by (simp add: review_of_raw_def raw_of_review_def)

lemma raw_of_review_complete: "list_all raw_review_complete (map raw_of_review rs)"
  by (induction rs) (simp_all add: raw_review_complete_def raw_of_review_def)

lemma validate_request_Inr:
  "validate_request raw = Inr req \<longleftrightarrow>
    (\<exists>d q. raw_dishAtRestaurantId raw = Some d \<and> d \<noteq> [] \<and> raw_question raw = Some q \<and>
       q \<noteq> [] \<and> length q \<le> 500 \<and>
       (case raw_reviews raw of None \<Rightarrow> True | Some items \<Rightarrow> list_all raw_review_complete items) \<and>
       req = \<lparr>dishAtRestaurantId = d, req_question = q,
              req_window = (case raw_window raw of None \<Rightarrow> ustr_of ''24h'' | Some w \<Rightarrow> w),
              dishName = (case raw_dishName raw of None \<Rightarrow> ustr_of ''this dish'' | Some n \<Rightarrow> n),
              req_reviews = (case raw_reviews raw of None \<Rightarrow> []
                             | Some items \<Rightarrow> map review_of_raw items)\<rparr>)"
  by (auto simp: validate_request_def check_required_str_def Let_def check_reviews_Nil_iff
      split: option.splits if_splits)

lemma validate_request_Inl: "validate_request raw = Inl errs \<Longrightarrow> errs \<noteq> []"
  by (auto simp: validate_request_def Let_def split: if_splits)

subsection \<open>Properties of validation and of the route\<close>

text \<open>C13: the request schema accepts a body exactly when \<open>dishAtRestaurantId\<close> is
  present and non-empty, \<open>question\<close> is present with 1 to 500 code points, and every
  review item has its four fields; the other fields take their defaults when omitted.\<close>

theorem validate_request_accepts:
  "(\<exists>req. validate_request raw = Inr req) \<longleftrightarrow>
    (\<exists>d q. raw_dishAtRestaurantId raw = Some d \<and> d \<noteq> [] \<and> raw_question raw = Some q \<and>
       1 \<le> length q \<and> length q \<le> 500 \<and>
       (case raw_reviews raw of None \<Rightarrow> True | Some items \<Rightarrow> list_all raw_review_complete items))"
  by (auto simp: validate_request_Inr Suc_le_eq)

text \<open>C14: a question longer than 500 code points, in a body that is otherwise valid, is
  rejected with status 422 naming the field and the limit, before the handler runs.\<close>

theorem post_chat_question_too_long:
  assumes "raw_dishAtRestaurantId raw = Some d" and "d \<noteq> []"
    and "raw_question raw = Some q" and "500 < length q"
    and "case raw_reviews raw of None \<Rightarrow> True | Some items \<Rightarrow> list_all raw_review_complete items"
  shows "post_chat raw = HTTP_422 [TooLong (ustr_of ''question'') 500]"
proof -
  have "q \<noteq> []" using assms(4) by auto
  moreover have "(case raw_reviews raw of None \<Rightarrow> [] | Some items \<Rightarrow> check_reviews 0 items) = []"
    using assms(5) by (simp add: check_reviews_Nil_iff split: option.splits)
  ultimately show ?thesis
    using assms(1-4)
    by (simp add: post_chat_def validate_request_def check_required_str_def Let_def)
qed

theorem post_chat_question_too_long_witness:
  "post_chat \<lparr>raw_dishAtRestaurantId = Some (ustr_of ''d1''), raw_question = Some (replicate 501 97),
      raw_window = None, raw_dishName = None, raw_reviews = None\<rparr>
   = HTTP_422 [TooLong (ustr_of ''question'') 500]"
  by (rule post_chat_question_too_long) simp+

text \<open>C22: a review item without \<open>rating\<close> makes the request fail validation with
  status 422, the error located at that item's index, and the handler does not run.\<close>

theorem post_chat_missing_rating:
  assumes "raw_reviews raw = Some items" and "j < length items" and "raw_rating (items ! j) = None"
  shows "\<exists>errs. post_chat raw = HTTP_422 errs \<and> ItemMissing j (ustr_of ''rating'') \<in> set errs"
proof -
  have "ItemMissing j (ustr_of ''rating'') \<in> set (check_reviews 0 items)"
    using check_reviews_rating [OF assms(2,3), of 0] by simp
  with assms(1) show ?thesis
    by (auto simp: post_chat_def validate_request_def Let_def)
qed

theorem post_chat_missing_rating_witness:
  "\<exists>errs. post_chat \<lparr>raw_dishAtRestaurantId = Some (ustr_of ''d1''), raw_question = Some (ustr_of ''ok?''),
      raw_window = None, raw_dishName = None,
      raw_reviews = Some [\<lparr>raw_review_id = Some (ustr_of ''a''), raw_rating = Some 5,
                            raw_text = Some [], raw_createdAt = Some []\<rparr>,
                          \<lparr>raw_review_id = Some (ustr_of ''b''), raw_rating = None,
                            raw_text = Some [], raw_createdAt = Some []\<rparr>]\<rparr>
    = HTTP_422 errs \<and> ItemMissing 1 (ustr_of ''rating'') \<in> set errs"
  by (rule post_chat_missing_rating) simp+

text \<open>C15: for a body that passes validation, the route calls
  \<open>analyze_reviews(request.question, request.reviews, request.dishName, request.window)\<close>
  with the declared defaults \<open>"this dish"\<close> and \<open>"24h"\<close> for omitted fields, and answers
  200 with its response or 500 with its exception.\<close>

theorem post_chat_runs_handler:
  assumes "validate_request raw = Inr req"
  shows "post_chat raw =
    (case analyze_reviews (the (raw_question raw))
            (case raw_reviews raw of None \<Rightarrow> [] | Some items \<Rightarrow> map review_of_raw items)
            (case raw_dishName raw of None \<Rightarrow> ustr_of ''this dish'' | Some d \<Rightarrow> d)
            (case raw_window raw of None \<Rightarrow> ustr_of ''24h'' | Some w \<Rightarrow> w) of
       Inl e \<Rightarrow> HTTP_500 e | Inr resp \<Rightarrow> HTTP_200 resp)"
proof -
  have "req = \<lparr>dishAtRestaurantId = the (raw_dishAtRestaurantId raw),
                   req_question = the (raw_question raw),
                   req_window = (case raw_window raw of None \<Rightarrow> ustr_of ''24h'' | Some w \<Rightarrow> w),
                   dishName = (case raw_dishName raw of None \<Rightarrow> ustr_of ''this dish'' | Some d \<Rightarrow> d),
                   req_reviews = (case raw_reviews raw of None \<Rightarrow> []
                                  | Some items \<Rightarrow> map review_of_raw items)\<rparr>"
    using assms by (simp add: validate_request_def Let_def split: if_splits)
  with assms show ?thesis by (simp add: post_chat_def chat_def)
qed

theorem post_chat_runs_handler_witness:
  "post_chat \<lparr>raw_dishAtRestaurantId = Some (ustr_of ''d1''), raw_question = Some (ustr_of ''Is it good?''),
      raw_window = None, raw_dishName = Some (ustr_of ''Dal''), raw_reviews = None\<rparr> =
   (case analyze_reviews (ustr_of ''Is it good?'') [] (ustr_of ''Dal'') (ustr_of ''24h'') of
      Inl e \<Rightarrow> HTTP_500 e | Inr resp \<Rightarrow> HTTP_200 resp)"
proof -
  have "validate_request \<lparr>raw_dishAtRestaurantId = Some (ustr_of ''d1''),
      raw_question = Some (ustr_of ''Is it good?''), raw_window = None,
      raw_dishName = Some (ustr_of ''Dal''), raw_reviews = None\<rparr> =
    Inr \<lparr>dishAtRestaurantId = ustr_of ''d1'', req_question = ustr_of ''Is it good?'',
      req_window = ustr_of ''24h'', dishName = ustr_of ''Dal'', req_reviews = []\<rparr>"
    by (simp add: py_defs)
  from post_chat_runs_handler [OF this] show ?thesis by simp
qed



end
