(* ===== verification/Spec2Isabelle.thy ===== *)
theory Spec2Isabelle
  imports Route StatsSpec
begin

text \<open>
  \<^bold>\<open>FreshBite LLM service: a verified model of the review analyzer.\<close>

  The program (src/llm-service/main.py) is a FastAPI service with one route,
  \<open>POST /chat\<close> (\<open>chat\<close>, lines 162-164). FastAPI decodes the JSON body and
  pydantic validates it against \<open>ChatRequest\<close> (lines 14-19, with \<open>ReviewData\<close>
  items, lines 7-11); the route passes question, reviews, dish name and window to
  \<open>analyze_reviews\<close> (lines 29-159), which answers without any language model: Stage A
  aggregates the ratings (lines 39-45), Stage B matches a fixed food vocabulary against the
  lower-cased question and selects the reviews mentioning a match (lines 47-76), Stage C
  classifies the question by three word lists (lines 80-82), Stage D renders one of five
  answer templates (lines 84-146), and the response (\<open>ChatResponse\<close>, lines 22-26)
  carries the joined answer, at most ten review ids, the window and a metadata dictionary
  (lines 148-158).

  \<^bold>\<open>Theories.\<close>
  \<^item> \<open>Prelude\<close>: strings as lists of code points (\<open>ustr\<close>); \<open>str.lower\<close>
    (\<open>py_lower\<close>, Unicode's case mapping on ASCII, Latin-1, Latin Extended-A, Greek,
    Cyrillic, the letterlike signs and the fullwidth Latin letters, including the two-point
    lowering of U+0130), the \<open>in\<close> operator (\<open>py_in\<close>), \<open>str.join\<close>
    (\<open>py_join\<close>), \<open>str(int)\<close> (\<open>py_digits\<close>, \<open>py_str_int\<close>) with CPython's
    limit of 4300 digits (\<open>int_max_str_digits\<close>, \<open>str_digits_ok\<close>), and
    round-half-even division \<open>rhe\<close>; the evaluation collection \<open>py_defs\<close>.
  \<^item> \<open>PyFloat\<close>: the binary64 arithmetic of the handler, with a float as sign,
    mantissa and exponent (\<open>pyfloat\<close>): \<open>sum / total\<close> on ints as the correctly
    rounded quotient (\<open>py_true_div\<close>, \<open>round_to_double\<close>, CPython's
    \<open>long_true_divide\<close>) raising \<open>ZeroDivisionError\<close> or \<open>OverflowError\<close>;
    the comparisons \<open>avg_rating >= 4.0\<close> and \<open>>= 3.0\<close> (\<open>float_ge_int\<close>);
    \<open>round(x, 1)\<close> (\<open>py_round1\<close>) and \<open>format(x, '.1f')\<close>
    (\<open>py_format1\<close>), both rounding the binary value half to even.
  \<^item> \<open>Reviews\<close>: \<open>ReviewData\<close> as the record \<open>review\<close>, Stage A as
    \<open>aggregate\<close> returning the record \<open>review_stats\<close> of the source's local
    variables, and Python's \<open>max(.., key=..)\<close>, \<open>min\<close> and \<open>max\<close>
    with their \<open>ValueError\<close> on an empty argument.
  \<^item> \<open>Keywords\<close>: Stages B and C: \<open>food_keywords\<close>, the two loops as
    structural recursions with the source's accumulators (\<open>collect_keywords\<close>,
    \<open>select_relevant\<close>), the word lists and the \<open>if/elif\<close> priority
    (\<open>classify\<close> into the datatype \<open>intent\<close>).
  \<^item> \<open>Render\<close>: Stage D, one definition per branch returning the list
    \<open>parts\<close> in append order, code point by code point, or the \<open>ValueError\<close> of
    an f-string that prints a rating beyond the digit limit (\<open>format_ints\<close>).
  \<^item> \<open>Analyzer\<close>: \<open>analyze_reviews\<close> composed from the stages and the response
    record, with the lemmas that decompose a successful run into its stages and
    characterise its exceptions.
  \<^item> \<open>Route\<close>: the request schema (\<open>chat_request\<close>, \<open>raw_request\<close> and
    \<open>raw_review\<close> for the decoded body), validation of the field constraints and of the
    required fields of every review item (\<open>validate_request\<close>, \<open>check_reviews\<close>),
    the route \<open>chat\<close> and its HTTP outcome \<open>post_chat\<close> (200, 422 for a validation
    error, 500 for an exception of the handler), and the whole request \<open>serve_chat\<close>,
    which first decodes the body (400 when \<open>json.loads\<close> rejects a rating literal of more
    than 4300 digits, \<open>json_ints_ok\<close>).
  \<^item> \<open>StatsSpec\<close>: an abstract Stage A over the exact rational mean
    (\<open>spec_stats\<close>), the abstraction \<open>abs_stats\<close> of the implementation's
    statistics, and the refinement between them.
  \<^item> \<open>Spec2Isabelle\<close> (this theory): example data and the end-to-end properties.

  Every exception the source can raise on these paths is a value: the handler returns
  \<open>py_error + chat_response\<close>. No loop needs fuel: every loop of the source runs over a
  finite list and is a structural recursion, and the two arithmetic recursions
  (\<open>nbits\<close>, \<open>py_digits\<close>) halve or divide by ten, so \<open>fun\<close> proves their
  termination. All definitions are executable; the witnesses evaluate the handler on
  concrete requests with \<open>simp add: py_defs\<close>, except that numbers of 4300 digits are
  kept symbolic (\<open>10 ^ int_max_str_digits\<close>) and reasoned about by monotonicity.

  \<^bold>\<open>What is proved.\<close>
  \<^item> Handler (this theory): bounds and input order of \<open>reviewIdsUsed\<close> (C1); the empty
    case (C2); the metadata (C3) and the accuracy of \<open>avgRating\<close> for ratings 1..5 (C21);
    the intent priority (C4); the consistency threshold (C5); the exact lines of the default
    summary (C6) and its "Latest positive" quote (C25); the three recommendation tiers (C16,
    C17, C23); both negative-check answers (C18, C24); the keyword answer (C19); that every
    quoted line excerpts an input review, at most four, in input order (C26).
  \<^item> Exceptions: no exception for ratings up to \<open>2^1000\<close> (C7); for ratings within the
    4300-digit limit the handler raises exactly when \<open>sum / total\<close> overflows, and then
    \<open>OverflowError\<close> (C8); beyond the limit a consistency question raises
    \<open>ValueError\<close> although the mean is finite (C9); over HTTP that \<open>ValueError\<close> is
    unreachable and a 500 answer is exactly the overflow of the mean (C27).
  \<^item> Stages A-C (Reviews, Keywords, StatsSpec): the star buckets partition the reviews iff
    no rating exceeds 5 (C10); the keyword loop is the vocabulary-order filter over the
    lowered question (C11); the selection loop is the order-preserving filter with matching
    ids (C12); for up to \<open>2^50\<close> reviews the implemented Stage A, read through the
    code's float comparisons, equals the abstract Stage A over exact rationals (C20).
  \<^item> Route (Route): the schema's acceptance condition (C13); the 422 answers for a long
    question (C14) and for a review item without a rating (C22); the handler call with the
    request's fields in order and the declared defaults (C15).

  The float lemmas behind these (correct rounding within half a quantum, exact thresholds
  for \<open>n * k \<le> 2^52\<close>, no overflow below \<open>2^1000\<close>, \<open>round(x, 1)\<close> total on finite
  doubles) are lemmas of PyFloat. The service keeps no state between requests, so no
  property concerns interleavings of requests.

  \<^bold>\<open>Not modelled.\<close> The FastAPI application object and routing (line 4), the JSON
  decoding of the body beyond the digit limit of its integers, serialisation of the response,
  and pydantic's type checks and coercions (a field value arrives already typed in
  \<open>raw_request\<close>: the string \<open>"5"\<close> for a rating, accepted as 5, or a number for a
  string field, rejected, are library behaviour that differs between pydantic versions);
  its error messages are reduced to the field, the index and the limit. The digit limit is
  applied to the ratings the templates print, not to the counts (\<open>{total}\<close>,
  \<open>{five_star}\<close>), which are lengths of lists held in memory. Of Python's Unicode case
  mapping in \<open>str.lower\<close>, the code points outside the blocks listed for the Prelude (they
  are left unchanged) and the capital sigma U+03A3, whose lowering depends on its position
  in the word. The algorithm by which CPython evaluates \<open>in\<close> (Objects/stringlib/
  fastsearch.h) is runtime code: the model uses its meaning, \<open>py_in\<close>.
\<close>

section \<open>Example data\<close>

definition ex_review :: "string \<Rightarrow> int \<Rightarrow> string \<Rightarrow> review" where
  "ex_review i k t =
     \<lparr>review_id = ustr_of i, rating = k, review_text = ustr_of t,
      createdAt = ustr_of ''2026-11-01T12:00:00Z''\<rparr>"

definition ex_reviews :: "review list" where
  "ex_reviews = [ex_review ''r1'' 5 ''Great and spicy'', ex_review ''r2'' 4 ''Nice portion'',
                 ex_review ''r3'' 2 ''Too dry'']"

definition ex_steady :: "review list" where
  "ex_steady = [ex_review ''s1'' 4 ''ok'', ex_review ''s2'' 5 ''good'', ex_review ''s3'' 5 ''fine'',
                ex_review ''s4'' 4 ''ok'']"

definition ex_varied :: "review list" where
  "ex_varied = [ex_review ''v1'' 2 ''meh'', ex_review ''v2'' 5 ''wow'', ex_review ''v3'' 3 ''ok'',
                ex_review ''v4'' 4 ''nice'']"

declare ex_review_def [py_defs] ex_reviews_def [py_defs] ex_steady_def [py_defs]
  ex_varied_def [py_defs]

definition ex_low :: "review list" where
  "ex_low = [ex_review ''l1'' 2 ''Too salty'', ex_review ''l2'' 1 ''Cold'']"

definition ex_neutral :: "review list" where
  "ex_neutral = [ex_review ''n1'' 3 ''Fine'', ex_review ''n2'' 3 ''Average'']"

definition ex_dated :: "review list" where
  "ex_dated = [\<lparr>review_id = ustr_of ''d1'', rating = 5, review_text = ustr_of ''Loved it'',
                 createdAt = ustr_of ''2026-01-05T09:00:00Z''\<rparr>,
               \<lparr>review_id = ustr_of ''d2'', rating = 4, review_text = ustr_of ''Still good'',
                 createdAt = ustr_of ''2026-11-08T19:30:00Z''\<rparr>]"

declare ex_low_def [py_defs] ex_neutral_def [py_defs] ex_dated_def [py_defs]

section \<open>Properties of the handler\<close>

text \<open>C1: \<open>reviewIdsUsed\<close> has at most 10 entries, and they are ids of the input reviews
  in input order (a subsequence of the input ids).\<close>

theorem analyze_reviewIdsUsed_bounded:
  assumes "analyze_reviews question reviews dish_name window = Inr resp"
  shows "length (reviewIdsUsed resp) \<le> 10 \<and> subseq (reviewIdsUsed resp) (map review_id reviews)"
proof -
  let ?sel = "selected_reviews (extract_keywords question) reviews"
  have ids: "reviewIdsUsed resp = take 10 (map review_id ?sel)"
    using assms by (rule analyze_reviews_ids)
  have "subseq (take 10 (map review_id ?sel)) (map review_id ?sel)"
    by (rule prefix_imp_subseq [OF take_is_prefix])
  moreover have "subseq (map review_id ?sel) (map review_id reviews)"
    by (rule subseq_map [OF selected_reviews_subseq])
  ultimately show ?thesis
    by (simp add: ids)
qed

theorem analyze_reviewIdsUsed_bounded_witness:
  "\<exists>resp. analyze_reviews (ustr_of ''tell me about this dish'') ex_reviews (ustr_of ''Biryani'')
      (ustr_of ''24h'') = Inr resp
    \<and> length (reviewIdsUsed resp) \<le> 10 \<and> subseq (reviewIdsUsed resp) (map review_id ex_reviews)"
proof -
  have "\<exists>resp. analyze_reviews (ustr_of ''tell me about this dish'') ex_reviews
      (ustr_of ''Biryani'') (ustr_of ''24h'') = Inr resp"
    by (rule exI, rule analyze_reviews_Inr) (simp add: py_defs)+
  then obtain resp where r: "analyze_reviews (ustr_of ''tell me about this dish'') ex_reviews
      (ustr_of ''Biryani'') (ustr_of ''24h'') = Inr resp" ..
  show ?thesis
    using r analyze_reviewIdsUsed_bounded [OF r] by (intro exI [of _ resp]) simp
qed

text \<open>C2: with no reviews the handler returns, whatever the question, no ids, the metadata
  \<open>{"reviewsAnalyzed": 0}\<close> and a message naming the dish and the window.\<close>

theorem analyze_no_reviews:
  "\<exists>resp. analyze_reviews question [] dish_name window = Inr resp \<and>
     reviewIdsUsed resp = [] \<and> metadata resp = MetaEmpty 0 \<and> resp_window resp = window \<and>
     sublist dish_name (answer resp) \<and> sublist window (answer resp)"
proof -
  let ?r = "no_reviews_response dish_name window"
  have d: "answer ?r = ustr_of ''No reviews found for '' @ dish_name
      @ (ustr_of '' in the last '' @ window @ ustr_of ''. Be the first to leave a review!'')"
    by (simp add: no_reviews_response_def)
  have w: "answer ?r = (ustr_of ''No reviews found for '' @ dish_name @ ustr_of '' in the last '')
      @ window @ ustr_of ''. Be the first to leave a review!''"
    by (simp add: no_reviews_response_def)
  show ?thesis
  proof (intro exI [of _ ?r] conjI)
    show "analyze_reviews question [] dish_name window = Inr ?r"
      by (rule analyze_reviews_Nil)
    show "sublist dish_name (answer ?r)"
      unfolding d by (rule sublist_appendI)
    show "sublist window (answer ?r)"
      unfolding w by (rule sublist_appendI)
  qed (simp_all add: no_reviews_response_def)
qed

text \<open>C3: for non-empty reviews the metadata holds the number of reviews, the float mean
  \<open>sum / total\<close> rounded by \<open>round(_, 1)\<close>, and the vocabulary terms that occur in the
  lower-cased question, in vocabulary order.\<close>

theorem analyze_metadata:
  assumes "reviews \<noteq> []" and "analyze_reviews question reviews dish_name window = Inr resp"
  shows "\<exists>avg avg1. py_true_div (sum_list (map rating reviews)) (int (length reviews)) = Inr avg \<and>
     py_round1 avg = Inr avg1 \<and>
     metadata resp = MetaFull (length reviews) avg1
       (filter (\<lambda>w. sublist w (py_lower question)) food_keywords)"
proof -
  from assms(2,1) obtain st parts avg1 where st: "aggregate reviews = Inr st"
    and r: "py_round1 (avg_rating st) = Inr avg1"
    and resp: "metadata resp = MetaFull (length reviews) avg1 (extract_keywords question)"
    by (rule analyze_reviews_InrE) simp
  show ?thesis
    using aggregate_Inr [OF st] r resp
    by (simp add: rating_sum_def extract_keywords_filter py_in_sublist)
qed

theorem analyze_metadata_witness:
  "ex_reviews \<noteq> [] \<and>
   (\<exists>resp. analyze_reviews (ustr_of ''Is the portion worth the price?'') ex_reviews
      (ustr_of ''Biryani'') (ustr_of ''24h'') = Inr resp \<and>
    (\<exists>avg avg1. py_true_div (sum_list (map rating ex_reviews)) (int (length ex_reviews)) = Inr avg \<and>
     py_round1 avg = Inr avg1 \<and>
     metadata resp = MetaFull (length ex_reviews) avg1
       (filter (\<lambda>w. sublist w (py_lower (ustr_of ''Is the portion worth the price?''))) food_keywords)))"
proof -
  have "\<exists>resp. analyze_reviews (ustr_of ''Is the portion worth the price?'') ex_reviews
      (ustr_of ''Biryani'') (ustr_of ''24h'') = Inr resp"
    by (rule exI, rule analyze_reviews_Inr) (simp add: py_defs)+
  then obtain resp where r: "analyze_reviews (ustr_of ''Is the portion worth the price?'') ex_reviews
      (ustr_of ''Biryani'') (ustr_of ''24h'') = Inr resp" ..
  have ne: "ex_reviews \<noteq> []" by (simp add: ex_reviews_def)
  show ?thesis
    using ne r analyze_metadata [OF ne r] by (intro conjI exI [of _ resp]) simp_all
qed

text \<open>C4: intent priority. A question containing a recommendation word is answered with the
  recommendation template, even when it also contains a negative word ("best" and "bad").\<close>

theorem analyze_recommendation_priority:
  assumes "mentions_any recommendation_words (py_lower question)" and "reviews \<noteq> []"
    and "analyze_reviews question reviews dish_name window = Inr resp"
  shows "\<exists>st parts. aggregate reviews = Inr st \<and>
    render_recommendation dish_name window st = Inr parts \<and> answer resp = py_join [10] parts"
proof -
  from assms(3,2) obtain st parts avg1 where st: "aggregate reviews = Inr st"
    and p: "render (classify (py_lower question) (extract_keywords question)
           (selected_reviews (extract_keywords question) reviews))
           dish_name window reviews st (extract_keywords question)
           (selected_reviews (extract_keywords question) reviews) = Inr parts"
    and resp: "answer resp = py_join [10] parts"
    by (rule analyze_reviews_InrE) simp
  from p assms(1) have "render_recommendation dish_name window st = Inr parts"
    by (simp add: classify_def)
  with st resp show ?thesis by blast
qed

theorem analyze_recommendation_priority_witness:
  "mentions_any recommendation_words (py_lower (ustr_of ''Is it the best or is it bad?'')) \<and>
   mentions_any negative_words (py_lower (ustr_of ''Is it the best or is it bad?'')) \<and>
   ex_reviews \<noteq> [] \<and>
   (\<exists>resp. analyze_reviews (ustr_of ''Is it the best or is it bad?'') ex_reviews
      (ustr_of ''Biryani'') (ustr_of ''24h'') = Inr resp \<and>
    (\<exists>st parts. aggregate ex_reviews = Inr st \<and>
      render_recommendation (ustr_of ''Biryani'') (ustr_of ''24h'') st = Inr parts \<and>
      answer resp = py_join [10] parts))"
proof -
  let ?q = "ustr_of ''Is it the best or is it bad?''"
  have m: "mentions_any recommendation_words (py_lower ?q)" by (simp add: py_defs)
  have n: "mentions_any negative_words (py_lower ?q)" by (simp add: py_defs)
  have ne: "ex_reviews \<noteq> []" by (simp add: ex_reviews_def)
  have "\<exists>resp. analyze_reviews ?q ex_reviews (ustr_of ''Biryani'') (ustr_of ''24h'') = Inr resp"
    by (rule exI, rule analyze_reviews_Inr) (simp add: py_defs)+
  then obtain resp where r: "analyze_reviews ?q ex_reviews (ustr_of ''Biryani'') (ustr_of ''24h'') = Inr resp" ..
  show ?thesis
    using m n ne r analyze_recommendation_priority [OF m ne r] by (intro conjI exI [of _ resp]) simp_all
qed

text \<open>C5: consistency threshold. For a consistency question (and no recommendation or
  negative word), the answer opens with "very consistent" when the ratings span at most one
  star and with "Quality varies." otherwise.\<close>

theorem analyze_consistency_range:
  assumes nr: "\<not> mentions_any recommendation_words (py_lower question)"
    and nn: "\<not> mentions_any negative_words (py_lower question)"
    and c: "mentions_any consistency_words (py_lower question)"
    and ne: "reviews \<noteq> []"
    and a: "analyze_reviews question reviews dish_name window = Inr resp"
  shows "prefix (if Max (rating ` set reviews) - Min (rating ` set reviews) \<le> 1
      then ustr_of ''**'' @ dish_name @ ustr_of '' is very consistent!**''
      else ustr_of ''**Quality varies.**'') (answer resp)"
proof -
  from a ne obtain st parts avg1 where p: "render (classify (py_lower question)
           (extract_keywords question) (selected_reviews (extract_keywords question) reviews))
           dish_name window reviews st (extract_keywords question)
           (selected_reviews (extract_keywords question) reviews) = Inr parts"
    and resp: "answer resp = py_join [10] parts"
    by (rule analyze_reviews_InrE) simp
  from p nr nn c have p': "render_consistency dish_name reviews st = Inr parts"
    by (simp add: classify_def)
  obtain x xs where xs: "map rating reviews = x # xs"
    using ne by (cases reviews) auto
  have sets: "rating ` set reviews = insert x (set xs)"
    by (metis xs list.set_map list.simps(15))
  show ?thesis
    using p' resp
    by (auto simp: render_consistency_def Let_def xs py_min_list_Min py_max_list_Max sets
        simp del: py_min_list.simps py_max_list.simps)
qed

theorem analyze_consistency_range_witness:
  "(\<exists>resp. analyze_reviews (ustr_of ''Is it consistent?'') ex_steady (ustr_of ''Dal'') (ustr_of ''24h'')
      = Inr resp \<and>
    prefix (if Max (rating ` set ex_steady) - Min (rating ` set ex_steady) \<le> 1
      then ustr_of ''**'' @ ustr_of ''Dal'' @ ustr_of '' is very consistent!**''
      else ustr_of ''**Quality varies.**'') (answer resp)) \<and>
   (\<exists>resp. analyze_reviews (ustr_of ''Is it consistent?'') ex_varied (ustr_of ''Dal'') (ustr_of ''24h'')
      = Inr resp \<and>
    prefix (if Max (rating ` set ex_varied) - Min (rating ` set ex_varied) \<le> 1
      then ustr_of ''**'' @ ustr_of ''Dal'' @ ustr_of '' is very consistent!**''
      else ustr_of ''**Quality varies.**'') (answer resp))"
proof -
  let ?q = "ustr_of ''Is it consistent?''"
  have nr: "\<not> mentions_any recommendation_words (py_lower ?q)" by (simp add: py_defs)
  have nn: "\<not> mentions_any negative_words (py_lower ?q)" by (simp add: py_defs)
  have c: "mentions_any consistency_words (py_lower ?q)" by (simp add: py_defs)
  have ne1: "ex_steady \<noteq> []" and ne2: "ex_varied \<noteq> []" by (simp_all add: py_defs)
  have "\<exists>resp. analyze_reviews ?q ex_steady (ustr_of ''Dal'') (ustr_of ''24h'') = Inr resp"
    by (rule exI, rule analyze_reviews_Inr) (simp add: py_defs)+
  then obtain r1 where r1: "analyze_reviews ?q ex_steady (ustr_of ''Dal'') (ustr_of ''24h'') = Inr r1" ..
  have "\<exists>resp. analyze_reviews ?q ex_varied (ustr_of ''Dal'') (ustr_of ''24h'') = Inr resp"
    by (rule exI, rule analyze_reviews_Inr) (simp add: py_defs)+
  then obtain r2 where r2: "analyze_reviews ?q ex_varied (ustr_of ''Dal'') (ustr_of ''24h'') = Inr r2" ..
  show ?thesis
    using r1 r2 analyze_consistency_range [OF nr nn c ne1 r1] analyze_consistency_range [OF nr nn c ne2 r2]
    by blast
qed

text \<open>C6: the default summary. For a question with no intent word and no keyword, the answer
  opens with the summary line (dish, number of reviews, window), the line with the float mean
  formatted to one decimal, and the star breakdown: the numbers of reviews rated exactly 5,
  4 and 3 and of those rated 2 or lower; a quote follows only when some review is rated 4 or
  more.\<close>

theorem analyze_summary_lines:
  assumes nr: "\<not> mentions_any recommendation_words (py_lower question)"
    and nn: "\<not> mentions_any negative_words (py_lower question)"
    and nc: "\<not> mentions_any consistency_words (py_lower question)"
    and nk: "extract_keywords question = []"
    and ne: "reviews \<noteq> []"
    and a: "analyze_reviews question reviews dish_name window = Inr resp"
  shows "\<exists>avg. py_true_div (rating_sum reviews) (int (length reviews)) = Inr avg \<and>
    (let lines =
       ustr_of ''Here's a summary of **'' @ dish_name @ ustr_of ''** ('' @ py_digits (length reviews)
       @ ustr_of '' reviews, last '' @ window @ ustr_of ''):'' @ [10]
       @ ustr_of ''- Average rating: **'' @ py_format1 avg @ ustr_of ''/5**'' @ [10]
       @ ustr_of ''- '' @ [11088] @ ustr_of ''5: '' @ py_digits (count_rating 5 reviews)
       @ ustr_of '' | '' @ [11088] @ ustr_of ''4: '' @ py_digits (count_rating 4 reviews)
       @ ustr_of '' | '' @ [11088] @ ustr_of ''3: '' @ py_digits (count_rating 3 reviews)
       @ ustr_of '' | '' @ [11088] @ ustr_of ''1-2: '' @ py_digits (length (filter is_low reviews))
     in if filter is_high reviews = [] then answer resp = lines
        else prefix (lines @ [10]) (answer resp))"
proof -
  from a ne obtain st parts avg1 where st: "aggregate reviews = Inr st"
    and p: "render (classify (py_lower question) (extract_keywords question)
           (selected_reviews (extract_keywords question) reviews))
           dish_name window reviews st (extract_keywords question)
           (selected_reviews (extract_keywords question) reviews) = Inr parts"
    and resp: "answer resp = py_join [10] parts"
    by (rule analyze_reviews_InrE) simp
  from p nr nn nc nk have r: "render_summary dish_name window st = Inr parts"
    by (simp add: classify_def)
  note agg = aggregate_Inr [OF st]
  show ?thesis
  proof (intro exI conjI)
    show "py_true_div (rating_sum reviews) (int (length reviews)) = Inr (avg_rating st)"
      using agg by simp
    show "let lines = ustr_of ''Here's a summary of **'' @ dish_name @ ustr_of ''** (''
       @ py_digits (length reviews) @ ustr_of '' reviews, last '' @ window @ ustr_of ''):'' @ [10]
       @ ustr_of ''- Average rating: **'' @ py_format1 (avg_rating st) @ ustr_of ''/5**'' @ [10]
       @ ustr_of ''- '' @ [11088] @ ustr_of ''5: '' @ py_digits (count_rating 5 reviews)
       @ ustr_of '' | '' @ [11088] @ ustr_of ''4: '' @ py_digits (count_rating 4 reviews)
       @ ustr_of '' | '' @ [11088] @ ustr_of ''3: '' @ py_digits (count_rating 3 reviews)
       @ ustr_of '' | '' @ [11088] @ ustr_of ''1-2: '' @ py_digits (length (filter is_low reviews))
     in if filter is_high reviews = [] then answer resp = lines
        else prefix (lines @ [10]) (answer resp)"
    proof (cases "filter is_high reviews = []")
      case True
      with r agg resp show ?thesis by (auto simp: render_summary_def Let_def)
    next
      case False
      with r agg resp show ?thesis
        by (auto simp: render_summary_def Let_def split: if_splits)
    qed
  qed
qed

theorem analyze_summary_lines_witness:
  "\<exists>resp. analyze_reviews (ustr_of ''tell me about this dish'') ex_reviews (ustr_of ''Biryani'')
      (ustr_of ''24h'') = Inr resp \<and>
   (\<exists>avg. py_true_div (rating_sum ex_reviews) (int (length ex_reviews)) = Inr avg \<and>
    (let lines =
       ustr_of ''Here's a summary of **'' @ ustr_of ''Biryani'' @ ustr_of ''** ('' @ py_digits (length ex_reviews)
       @ ustr_of '' reviews, last '' @ ustr_of ''24h'' @ ustr_of ''):'' @ [10]
       @ ustr_of ''- Average rating: **'' @ py_format1 avg @ ustr_of ''/5**'' @ [10]
       @ ustr_of ''- '' @ [11088] @ ustr_of ''5: '' @ py_digits (count_rating 5 ex_reviews)
       @ ustr_of '' | '' @ [11088] @ ustr_of ''4: '' @ py_digits (count_rating 4 ex_reviews)
       @ ustr_of '' | '' @ [11088] @ ustr_of ''3: '' @ py_digits (count_rating 3 ex_reviews)
       @ ustr_of '' | '' @ [11088] @ ustr_of ''1-2: '' @ py_digits (length (filter is_low ex_reviews))
     in if filter is_high ex_reviews = [] then answer resp = lines
        else prefix (lines @ [10]) (answer resp)))"
proof -
  let ?q = "ustr_of ''tell me about this dish''"
  have nr: "\<not> mentions_any recommendation_words (py_lower ?q)" by (simp add: py_defs)
  have nn: "\<not> mentions_any negative_words (py_lower ?q)" by (simp add: py_defs)
  have nc: "\<not> mentions_any consistency_words (py_lower ?q)" by (simp add: py_defs)
  have nk: "extract_keywords ?q = []" by (simp add: py_defs)
  have ne: "ex_reviews \<noteq> []" by (simp add: ex_reviews_def)
  have "\<exists>resp. analyze_reviews ?q ex_reviews (ustr_of ''Biryani'') (ustr_of ''24h'') = Inr resp"
    by (rule exI, rule analyze_reviews_Inr) (simp add: py_defs)+
  then obtain resp where r: "analyze_reviews ?q ex_reviews (ustr_of ''Biryani'') (ustr_of ''24h'') = Inr resp" ..
  show ?thesis
    using r analyze_summary_lines [OF nr nn nc nk ne r] by blast
qed

text \<open>C7: the handler returns a response, without an exception, for every question and every
  list of reviews whose ratings are at most \<open>2^1000\<close> in magnitude (in particular for
  the ratings 1..5 the spec allows): the float mean and its rounding cannot overflow, and the
  guards keep \<open>max\<close> and \<open>min\<close> away from empty lists.\<close>

theorem analyze_reviews_returns:
  assumes "\<forall>r\<in>set reviews. \<bar>rating r\<bar> \<le> 2 ^ 1000"
  shows "\<exists>resp. analyze_reviews question reviews dish_name window = Inr resp"
  using assms by (rule analyze_reviews_bounded_Inr)

theorem analyze_reviews_returns_witness:
  "\<exists>resp. analyze_reviews (ustr_of ''Is it spicy?'') ex_reviews (ustr_of ''Biryani'')
      (ustr_of ''24h'') = Inr resp"
proof -
  have h: "\<forall>r\<in>set ex_reviews. \<bar>rating r\<bar> \<le> 2 ^ 1000"
    by (simp add: ex_reviews_def ex_review_def)
  show ?thesis by (rule analyze_reviews_returns [OF h])
qed

text \<open>C8: for ratings within Python's limit for converting ints to strings
  (\<open>int_max_str_digits\<close>, 4300 digits), the handler fails exactly when the float mean
  overflows: it returns an error iff there are reviews and \<open>sum / total\<close> raises
  \<open>OverflowError\<close>, and the error is then that \<open>OverflowError\<close>; \<open>round(avg_rating, 1)\<close>
  never raises on the finite mean.\<close>

theorem analyze_reviews_error_iff:
  assumes "\<forall>r\<in>set reviews. str_digits_ok (rating r)"
  shows "analyze_reviews question reviews dish_name window = Inl e \<longleftrightarrow>
     reviews \<noteq> [] \<and> e = OverflowError \<and>
     py_true_div (rating_sum reviews) (int (length reviews)) = Inl OverflowError"
  using assms by (rule analyze_reviews_Inl_iff)

theorem analyze_reviews_error_iff_witness:
  "str_digits_ok (2 ^ 1024) \<and>
   analyze_reviews (ustr_of ''Is it good?'') [ex_review ''x'' (2 ^ 1024) ''huge'']
     (ustr_of ''Biryani'') (ustr_of ''24h'') = Inl OverflowError"
proof -
  have "(2::int) ^ 1024 < 10 ^ 1024" by (rule power_strict_mono) simp_all
  also have "(10::int) ^ 1024 \<le> 10 ^ int_max_str_digits"
    by (rule power_increasing) (simp_all add: int_max_str_digits_def)
  finally have ok: "str_digits_ok (2 ^ 1024)" by (simp add: str_digits_ok_iff)
  have "\<forall>r\<in>set [ex_review ''x'' (2 ^ 1024) ''huge'']. str_digits_ok (rating r)"
    using ok by (simp add: ex_review_def)
  moreover have "py_true_div (rating_sum [ex_review ''x'' (2 ^ 1024) ''huge''])
      (int (length [ex_review ''x'' (2 ^ 1024) ''huge''])) = Inl OverflowError"
    by (simp add: py_defs ex_review_def)
  ultimately show ?thesis
    using ok analyze_reviews_error_iff [of "[ex_review ''x'' (2 ^ 1024) ''huge'']"
        "ustr_of ''Is it good?''" "ustr_of ''Biryani''" "ustr_of ''24h''" OverflowError]
    by simp
qed

text \<open>C9: the other exception. Python refuses to print an int of more than
  \<open>int_max_str_digits\<close> (4300) digits, and a consistency question prints the smallest and
  the largest rating; so when some rating has that many digits and the mean is still a finite
  float, the handler raises \<open>ValueError\<close>, for example for the ratings \<open>10^4300\<close> and
  \<open>5 - 10^4300\<close>, whose mean is 2.5.\<close>

theorem analyze_consistency_value_error:
  assumes nr: "\<not> mentions_any recommendation_words (py_lower question)"
    and nn: "\<not> mentions_any negative_words (py_lower question)"
    and c: "mentions_any consistency_words (py_lower question)"
    and r: "r \<in> set reviews" and big: "10 ^ int_max_str_digits \<le> \<bar>rating r\<bar>"
    and avg: "py_true_div (rating_sum reviews) (int (length reviews)) = Inr m"
  shows "analyze_reviews question reviews dish_name window = Inl ValueError"
proof -
  have "\<not> str_digits_ok (rating r)" using big by (simp add: str_digits_ok_iff)
  from analyze_reviews_consistency_ValueError [OF nr nn c r this avg] show ?thesis .
qed

theorem analyze_consistency_value_error_witness:
  "analyze_reviews (ustr_of ''Is it consistent?'')
     [ex_review ''a'' (10 ^ int_max_str_digits) ''huge'', ex_review ''b'' (5 - 10 ^ int_max_str_digits) ''tiny'']
     (ustr_of ''Dal'') (ustr_of ''24h'') = Inl ValueError \<and>
   py_true_div (rating_sum [ex_review ''a'' (10 ^ int_max_str_digits) ''huge'',
     ex_review ''b'' (5 - 10 ^ int_max_str_digits) ''tiny''])
     (int (length [ex_review ''a'' (10 ^ int_max_str_digits) ''huge'',
       ex_review ''b'' (5 - 10 ^ int_max_str_digits) ''tiny''])) = py_true_div 5 2"
proof -
  let ?q = "ustr_of ''Is it consistent?''"
  let ?rs = "[ex_review ''a'' (10 ^ int_max_str_digits) ''huge'',
     ex_review ''b'' (5 - 10 ^ int_max_str_digits) ''tiny'']"
  have nr: "\<not> mentions_any recommendation_words (py_lower ?q)" by (simp add: py_defs)
  have nn: "\<not> mentions_any negative_words (py_lower ?q)" by (simp add: py_defs)
  have c: "mentions_any consistency_words (py_lower ?q)" by (simp add: py_defs)
  have r: "ex_review ''a'' (10 ^ int_max_str_digits) ''huge'' \<in> set ?rs" by simp
  have big: "10 ^ int_max_str_digits \<le> \<bar>rating (ex_review ''a'' (10 ^ int_max_str_digits) ''huge'')\<bar>"
    by (simp add: ex_review_def)
  have sum: "py_true_div (rating_sum ?rs) (int (length ?rs)) = py_true_div 5 2"
    by (simp add: rating_sum_def ex_review_def algebra_simps)
  have "\<exists>m. py_true_div 5 2 = Inr m" by (simp add: py_defs)
  then obtain m where "py_true_div 5 2 = Inr m" ..
  with sum have avg: "py_true_div (rating_sum ?rs) (int (length ?rs)) = Inr m" by simp
  show ?thesis
    using analyze_consistency_value_error [OF nr nn c r big avg] sum by simp
qed

text \<open>C16: a recommendation question about reviews whose exact mean is at least 4 (for at most
  \<open>2^50\<close> reviews) gets the "highly rated" answer, which ends with a quote of the first
  review of maximal rating among those rated 4 or more; such a review exists because the mean
  is at least 4.\<close>

theorem analyze_recommendation_top_review:
  assumes rec: "mentions_any recommendation_words (py_lower question)"
    and ne: "reviews \<noteq> []" and small: "length reviews * 4 \<le> 2 ^ 52"
    and mean: "4 * int (length reviews) \<le> sum_list (map rating reviews)"
    and a: "analyze_reviews question reviews dish_name window = Inr resp"
  shows "prefix (ustr_of ''**'' @ dish_name @ ustr_of '' is highly rated!**'') (answer resp) \<and>
    suffix (quote_excerpt [] 150 (first_max rating (filter is_high reviews))) (answer resp)"
proof -
  from a ne obtain st parts avg1 where st: "aggregate reviews = Inr st"
    and p: "render (classify (py_lower question) (extract_keywords question)
           (selected_reviews (extract_keywords question) reviews))
           dish_name window reviews st (extract_keywords question)
           (selected_reviews (extract_keywords question) reviews) = Inr parts"
    and resp: "answer resp = py_join [10] parts"
    by (rule analyze_reviews_InrE) simp
  from p rec have r: "render_recommendation dish_name window st = Inr parts"
    by (simp add: classify_def)
  note agg = aggregate_Inr [OF st]
  have "float_ge_int (avg_rating st) (int 4) \<longleftrightarrow> int 4 * int (length reviews) \<le> rating_sum reviews"
    using agg ne small by (intro py_true_div_ge_int_iff) simp_all
  with mean have ge: "float_ge_int (avg_rating st) 4"
    by (simp add: rating_sum_def)
  obtain h hs where hs: "filter is_high reviews = h # hs"
    using high_reviews_nonempty [OF ne] mean by (cases "filter is_high reviews") (auto simp: rating_sum_def)
  have top: "py_max_by rating (high_reviews st) = Inr (first_max rating (filter is_high reviews))"
    using agg hs by (simp add: fold_max_step_first_max)
  obtain head where parts: "parts = head @ [quote_excerpt [] 150 (first_max rating (filter is_high reviews))]"
    and hd: "hd head = ustr_of ''**'' @ dish_name @ ustr_of '' is highly rated!** Based on ''
            @ py_digits (total st) @ ustr_of '' recent reviews (last '' @ window
            @ ustr_of ''), it has an average rating of '' @ py_format1 (avg_rating st) @ ustr_of ''/5.''"
    and hne: "head \<noteq> []"
    using r ge top agg hs by (auto simp: render_recommendation_def Let_def)
  have "prefix (hd head) (answer resp)"
    using hne resp parts by (cases head) (simp_all add: prefix_py_join)
  then have "prefix (ustr_of ''**'' @ dish_name @ ustr_of '' is highly rated!**'') (answer resp)"
    unfolding hd by (rule prefix_order.trans [rotated]) simp
  moreover have "suffix (quote_excerpt [] 150 (first_max rating (filter is_high reviews))) (answer resp)"
    unfolding resp parts by (rule suffix_py_join_last)
  ultimately show ?thesis ..
qed

theorem analyze_recommendation_top_review_witness:
  "mentions_any recommendation_words (py_lower (ustr_of ''Is it good?'')) \<and> ex_steady \<noteq> [] \<and>
   length ex_steady * 4 \<le> 2 ^ 52 \<and> 4 * int (length ex_steady) \<le> sum_list (map rating ex_steady) \<and>
   (\<exists>resp. analyze_reviews (ustr_of ''Is it good?'') ex_steady (ustr_of ''Dal'') (ustr_of ''24h'') = Inr resp \<and>
    prefix (ustr_of ''**'' @ ustr_of ''Dal'' @ ustr_of '' is highly rated!**'') (answer resp) \<and>
    suffix (quote_excerpt [] 150 (first_max rating (filter is_high ex_steady))) (answer resp))"
proof -
  let ?q = "ustr_of ''Is it good?''"
  have m: "mentions_any recommendation_words (py_lower ?q)" by (simp add: py_defs)
  have ne: "ex_steady \<noteq> []" and sm: "length ex_steady * 4 \<le> 2 ^ 52"
    and mean: "4 * int (length ex_steady) \<le> sum_list (map rating ex_steady)"
    by (simp_all add: py_defs)
  have "\<exists>resp. analyze_reviews ?q ex_steady (ustr_of ''Dal'') (ustr_of ''24h'') = Inr resp"
    by (rule exI, rule analyze_reviews_Inr) (simp add: py_defs)+
  then obtain resp where r: "analyze_reviews ?q ex_steady (ustr_of ''Dal'') (ustr_of ''24h'') = Inr resp" ..
  show ?thesis
    using m ne sm mean r analyze_recommendation_top_review [OF m ne sm mean r]
    by (intro conjI exI [of _ resp]) simp_all
qed

text \<open>C17: a recommendation question about reviews whose exact mean lies in [3, 4) gets the one-line
  "mixed reviews" answer with the float mean formatted to one decimal; the float comparisons
  with 4.0 and 3.0 agree with the exact mean.\<close>

theorem analyze_recommendation_mixed:
  assumes rec: "mentions_any recommendation_words (py_lower question)"
    and ne: "reviews \<noteq> []" and small: "length reviews * 4 \<le> 2 ^ 52"
    and lo: "3 * int (length reviews) \<le> sum_list (map rating reviews)"
    and hi: "sum_list (map rating reviews) < 4 * int (length reviews)"
    and a: "analyze_reviews question reviews dish_name window = Inr resp"
  shows "\<exists>avg. py_true_div (sum_list (map rating reviews)) (int (length reviews)) = Inr avg \<and>
    answer resp = ustr_of ''**'' @ dish_name @ ustr_of '' has mixed reviews.** Average rating: ''
      @ py_format1 avg @ ustr_of ''/5 from '' @ py_digits (length reviews)
      @ ustr_of '' reviews in the last '' @ window @ ustr_of ''.''"
proof -
  from a ne obtain st parts avg1 where st: "aggregate reviews = Inr st"
    and p: "render (classify (py_lower question) (extract_keywords question)
           (selected_reviews (extract_keywords question) reviews))
           dish_name window reviews st (extract_keywords question)
           (selected_reviews (extract_keywords question) reviews) = Inr parts"
    and resp: "answer resp = py_join [10] parts"
    by (rule analyze_reviews_InrE) simp
  from p rec have r: "render_recommendation dish_name window st = Inr parts"
    by (simp add: classify_def)
  note agg = aggregate_Inr [OF st]
  have "float_ge_int (avg_rating st) (int 4) \<longleftrightarrow> int 4 * int (length reviews) \<le> rating_sum reviews"
    using agg ne small by (intro py_true_div_ge_int_iff) simp_all
  with hi have ge4: "\<not> float_ge_int (avg_rating st) 4"
    by (simp add: rating_sum_def)
  have "float_ge_int (avg_rating st) (int 3) \<longleftrightarrow> int 3 * int (length reviews) \<le> rating_sum reviews"
    using agg ne small by (intro py_true_div_ge_int_iff) simp_all
  with lo have ge3: "float_ge_int (avg_rating st) 3"
    by (simp add: rating_sum_def)
  have "parts = [ustr_of ''**'' @ dish_name @ ustr_of '' has mixed reviews.** Average rating: ''
      @ py_format1 (avg_rating st) @ ustr_of ''/5 from '' @ py_digits (total st)
      @ ustr_of '' reviews in the last '' @ window @ ustr_of ''.'']"
    using r ge4 ge3 by (simp add: render_recommendation_def)
  with resp agg show ?thesis
    by (intro exI [of _ "avg_rating st"]) (simp add: rating_sum_def)
qed

theorem analyze_recommendation_mixed_witness:
  "mentions_any recommendation_words (py_lower (ustr_of ''Should I order it?'')) \<and> ex_reviews \<noteq> [] \<and>
   length ex_reviews * 4 \<le> 2 ^ 52 \<and> 3 * int (length ex_reviews) \<le> sum_list (map rating ex_reviews) \<and>
   sum_list (map rating ex_reviews) < 4 * int (length ex_reviews) \<and>
   (\<exists>resp. analyze_reviews (ustr_of ''Should I order it?'') ex_reviews (ustr_of ''Dal'') (ustr_of ''24h'')
      = Inr resp \<and>
    (\<exists>avg. py_true_div (sum_list (map rating ex_reviews)) (int (length ex_reviews)) = Inr avg \<and>
    answer resp = ustr_of ''**'' @ ustr_of ''Dal'' @ ustr_of '' has mixed reviews.** Average rating: ''
      @ py_format1 avg @ ustr_of ''/5 from '' @ py_digits (length ex_reviews)
      @ ustr_of '' reviews in the last '' @ ustr_of ''24h'' @ ustr_of ''.''))"
proof -
  let ?q = "ustr_of ''Should I order it?''"
  have m: "mentions_any recommendation_words (py_lower ?q)" by (simp add: py_defs)
  have ne: "ex_reviews \<noteq> []" and sm: "length ex_reviews * 4 \<le> 2 ^ 52"
    and lo: "3 * int (length ex_reviews) \<le> sum_list (map rating ex_reviews)"
    and hi: "sum_list (map rating ex_reviews) < 4 * int (length ex_reviews)"
    by (simp_all add: py_defs)
  have "\<exists>resp. analyze_reviews ?q ex_reviews (ustr_of ''Dal'') (ustr_of ''24h'') = Inr resp"
    by (rule exI, rule analyze_reviews_Inr) (simp add: py_defs)+
  then obtain resp where r: "analyze_reviews ?q ex_reviews (ustr_of ''Dal'') (ustr_of ''24h'') = Inr resp" ..
  show ?thesis
    using m ne sm lo hi r analyze_recommendation_mixed [OF m ne sm lo hi r]
    by (intro conjI exI [of _ resp]) simp_all
qed

text \<open>C18: a negative-check question (no recommendation word) about reviews with low ratings
  reports their number and quotes the first three of them, in input order, cut to 120 code
  points.\<close>

theorem analyze_negative_quotes:
  assumes nr: "\<not> mentions_any recommendation_words (py_lower question)"
    and neg: "mentions_any negative_words (py_lower question)"
    and low: "filter is_low reviews \<noteq> []"
    and a: "analyze_reviews question reviews dish_name window = Inr resp"
  shows "answer resp = py_join [10]
    ((ustr_of ''Found '' @ py_digits (length (filter is_low reviews))
      @ ustr_of '' negative review(s) out of '' @ py_digits (length reviews)
      @ ustr_of '' in the last '' @ window @ ustr_of '':'')
     # map (quote_excerpt [] 120) (take 3 (filter is_low reviews)))"
proof -
  have ne: "reviews \<noteq> []" using low by auto
  from a ne obtain st parts avg1 where st: "aggregate reviews = Inr st"
    and p: "render (classify (py_lower question) (extract_keywords question)
           (selected_reviews (extract_keywords question) reviews))
           dish_name window reviews st (extract_keywords question)
           (selected_reviews (extract_keywords question) reviews) = Inr parts"
    and resp: "answer resp = py_join [10] parts"
    by (rule analyze_reviews_InrE) simp
  from p nr neg have "render_negative dish_name window st = Inr parts"
    by (simp add: classify_def)
  with resp aggregate_Inr [OF st] low show ?thesis
    by (simp add: render_negative_def split: if_splits)
qed

theorem analyze_negative_quotes_witness:
  "\<not> mentions_any recommendation_words (py_lower (ustr_of ''Any complaints?'')) \<and>
   mentions_any negative_words (py_lower (ustr_of ''Any complaints?'')) \<and>
   filter is_low ex_reviews \<noteq> [] \<and>
   (\<exists>resp. analyze_reviews (ustr_of ''Any complaints?'') ex_reviews (ustr_of ''Dal'') (ustr_of ''24h'')
      = Inr resp \<and>
    answer resp = py_join [10]
    ((ustr_of ''Found '' @ py_digits (length (filter is_low ex_reviews))
      @ ustr_of '' negative review(s) out of '' @ py_digits (length ex_reviews)
      @ ustr_of '' in the last '' @ ustr_of ''24h'' @ ustr_of '':'')
     # map (quote_excerpt [] 120) (take 3 (filter is_low ex_reviews))))"
proof -
  let ?q = "ustr_of ''Any complaints?''"
  have nr: "\<not> mentions_any recommendation_words (py_lower ?q)" by (simp add: py_defs)
  have neg: "mentions_any negative_words (py_lower ?q)" by (simp add: py_defs)
  have low: "filter is_low ex_reviews \<noteq> []" by (simp add: py_defs)
  have "\<exists>resp. analyze_reviews ?q ex_reviews (ustr_of ''Dal'') (ustr_of ''24h'') = Inr resp"
    by (rule exI, rule analyze_reviews_Inr) (simp add: py_defs)+
  then obtain resp where r: "analyze_reviews ?q ex_reviews (ustr_of ''Dal'') (ustr_of ''24h'') = Inr resp" ..
  show ?thesis
    using nr neg low r analyze_negative_quotes [OF nr neg low r]
    by (intro conjI exI [of _ resp]) simp_all
qed

text \<open>C19: a question with no intent word whose keywords occur in some reviews quotes the first
  four of those reviews, and their ids are the first four ids reported in
  \<open>reviewIdsUsed\<close>.\<close>

theorem analyze_keyword_quotes:
  assumes nr: "\<not> mentions_any recommendation_words (py_lower question)"
    and nn: "\<not> mentions_any negative_words (py_lower question)"
    and nc: "\<not> mentions_any consistency_words (py_lower question)"
    and kws: "extract_keywords question \<noteq> []"
    and rel: "filter (mentions (extract_keywords question)) reviews \<noteq> []"
    and a: "analyze_reviews question reviews dish_name window = Inr resp"
  shows "answer resp = py_join [10]
      ((ustr_of ''Found '' @ py_digits (length (filter (mentions (extract_keywords question)) reviews))
        @ ustr_of '' review(s) mentioning **'' @ py_join (ustr_of '', '') (extract_keywords question)
        @ ustr_of ''** out of '' @ py_digits (length reviews) @ ustr_of '' total (last '' @ window
        @ ustr_of ''):'')
       # map (quote_excerpt [] 150) (take 4 (filter (mentions (extract_keywords question)) reviews))) \<and>
    take 4 (reviewIdsUsed resp) = map review_id (take 4 (filter (mentions (extract_keywords question)) reviews))"
proof -
  have ne: "reviews \<noteq> []" using rel by auto
  have sel: "selected_reviews (extract_keywords question) reviews =
      filter (mentions (extract_keywords question)) reviews"
    using kws by (simp add: selected_reviews_def)
  from a ne obtain st parts avg1 where st: "aggregate reviews = Inr st"
    and p: "render (classify (py_lower question) (extract_keywords question)
           (selected_reviews (extract_keywords question) reviews))
           dish_name window reviews st (extract_keywords question)
           (selected_reviews (extract_keywords question) reviews) = Inr parts"
    and resp: "answer resp = py_join [10] parts"
    by (rule analyze_reviews_InrE) simp
  from p nr nn nc kws rel have "render_keywords window st (extract_keywords question)
      (filter (mentions (extract_keywords question)) reviews) = Inr parts"
    by (simp add: classify_def sel)
  with resp aggregate_Inr [OF st] have ans: "answer resp = py_join [10]
      ((ustr_of ''Found '' @ py_digits (length (filter (mentions (extract_keywords question)) reviews))
        @ ustr_of '' review(s) mentioning **'' @ py_join (ustr_of '', '') (extract_keywords question)
        @ ustr_of ''** out of '' @ py_digits (length reviews) @ ustr_of '' total (last '' @ window
        @ ustr_of ''):'')
       # map (quote_excerpt [] 150) (take 4 (filter (mentions (extract_keywords question)) reviews)))"
    by (simp add: render_keywords_def split: if_splits)
  have "reviewIdsUsed resp = take 10 (map review_id (filter (mentions (extract_keywords question)) reviews))"
    using analyze_reviews_ids [OF a] by (simp add: sel)
  then have "take 4 (reviewIdsUsed resp) =
      map review_id (take 4 (filter (mentions (extract_keywords question)) reviews))"
    by (simp add: take_map min_def)
  with ans show ?thesis ..
qed

theorem analyze_keyword_quotes_witness:
  "\<not> mentions_any recommendation_words (py_lower (ustr_of ''Is it spicy?'')) \<and>
   \<not> mentions_any negative_words (py_lower (ustr_of ''Is it spicy?'')) \<and>
   \<not> mentions_any consistency_words (py_lower (ustr_of ''Is it spicy?'')) \<and>
   extract_keywords (ustr_of ''Is it spicy?'') \<noteq> [] \<and>
   filter (mentions (extract_keywords (ustr_of ''Is it spicy?''))) ex_reviews \<noteq> [] \<and>
   (\<exists>resp. analyze_reviews (ustr_of ''Is it spicy?'') ex_reviews (ustr_of ''Dal'') (ustr_of ''24h'')
      = Inr resp \<and>
    answer resp = py_join [10]
      ((ustr_of ''Found '' @ py_digits (length (filter (mentions (extract_keywords (ustr_of ''Is it spicy?''))) ex_reviews))
        @ ustr_of '' review(s) mentioning **'' @ py_join (ustr_of '', '') (extract_keywords (ustr_of ''Is it spicy?''))
        @ ustr_of ''** out of '' @ py_digits (length ex_reviews) @ ustr_of '' total (last '' @ ustr_of ''24h''
        @ ustr_of ''):'')
       # map (quote_excerpt [] 150) (take 4 (filter (mentions (extract_keywords (ustr_of ''Is it spicy?''))) ex_reviews))) \<and>
    take 4 (reviewIdsUsed resp) = map review_id (take 4 (filter (mentions (extract_keywords (ustr_of ''Is it spicy?''))) ex_reviews)))"
proof -
  let ?q = "ustr_of ''Is it spicy?''"
  have nr: "\<not> mentions_any recommendation_words (py_lower ?q)" by (simp add: py_defs)
  have nn: "\<not> mentions_any negative_words (py_lower ?q)" by (simp add: py_defs)
  have nc: "\<not> mentions_any consistency_words (py_lower ?q)" by (simp add: py_defs)
  have kws: "extract_keywords ?q \<noteq> []" by (simp add: py_defs)
  have rel: "filter (mentions (extract_keywords ?q)) ex_reviews \<noteq> []" by (simp add: py_defs)
  have "\<exists>resp. analyze_reviews ?q ex_reviews (ustr_of ''Dal'') (ustr_of ''24h'') = Inr resp"
    by (rule exI, rule analyze_reviews_Inr) (simp add: py_defs)+
  then obtain resp where r: "analyze_reviews ?q ex_reviews (ustr_of ''Dal'') (ustr_of ''24h'') = Inr resp" ..
  have c: "answer resp = py_join [10]
      ((ustr_of ''Found '' @ py_digits (length (filter (mentions (extract_keywords ?q)) ex_reviews))
        @ ustr_of '' review(s) mentioning **'' @ py_join (ustr_of '', '') (extract_keywords ?q)
        @ ustr_of ''** out of '' @ py_digits (length ex_reviews) @ ustr_of '' total (last '' @ ustr_of ''24h''
        @ ustr_of ''):'')
       # map (quote_excerpt [] 150) (take 4 (filter (mentions (extract_keywords ?q)) ex_reviews))) \<and>
    take 4 (reviewIdsUsed resp) = map review_id (take 4 (filter (mentions (extract_keywords ?q)) ex_reviews))"
    by (rule analyze_keyword_quotes [OF nr nn nc kws rel r])
  then have c1: "answer resp = py_join [10]
      ((ustr_of ''Found '' @ py_digits (length (filter (mentions (extract_keywords ?q)) ex_reviews))
        @ ustr_of '' review(s) mentioning **'' @ py_join (ustr_of '', '') (extract_keywords ?q)
        @ ustr_of ''** out of '' @ py_digits (length ex_reviews) @ ustr_of '' total (last '' @ ustr_of ''24h''
        @ ustr_of ''):'')
       # map (quote_excerpt [] 150) (take 4 (filter (mentions (extract_keywords ?q)) ex_reviews)))"
    and c2: "take 4 (reviewIdsUsed resp) = map review_id (take 4 (filter (mentions (extract_keywords ?q)) ex_reviews))"
    by auto
  from nr nn nc kws rel r c1 c2 show ?thesis
    by (intro conjI exI [of _ resp]) assumption+
qed

text \<open>C21: for ratings in 1..5 the reported \<open>avgRating\<close> is the exact mean rounded to
  one decimal up to the binary representation: it differs from the exact mean by at most
  \<open>1/20 + 2^-50\<close> (the two divisions by \<open>total\<close> and by 10 each add at most
  \<open>2^-51\<close>; C10 shows that a tie at the second decimal can round the other way).\<close>

theorem analyze_avgRating_bound:
  assumes a: "analyze_reviews question reviews dish_name window = Inr resp"
    and ne: "reviews \<noteq> []" and rng: "\<forall>r\<in>set reviews. 1 \<le> rating r \<and> rating r \<le> 5"
  shows "\<bar>fval (avgRating (metadata resp)) - exact_mean reviews\<bar> \<le> 1 / 20 + 1 / 2 ^ 50"
proof -
  from a ne obtain st parts avg1 where st: "aggregate reviews = Inr st"
    and r: "py_round1 (avg_rating st) = Inr avg1"
    and resp: "metadata resp = MetaFull (length reviews) avg1 (extract_keywords question)"
    by (rule analyze_reviews_InrE) simp
  have lo: "int (length reviews) * 1 \<le> rating_sum reviews"
    using rng by (intro rating_sum_ge_const) simp
  have hi: "rating_sum reviews \<le> int (length reviews) * 5"
    using rng by (intro rating_sum_le_const) simp
  have "0 < int (length reviews)" using ne by simp
  with lo have pos: "0 < rating_sum reviews" by linarith
  have "\<bar>fval avg1 - of_int (rating_sum reviews) / of_nat (length reviews)\<bar> \<le> 1 / 20 + 1 / 2 ^ 50"
    using aggregate_Inr [OF st] pos hi r by (intro py_round1_mean_err) (simp_all add: mult.commute)
  with resp show ?thesis by (simp add: exact_mean_def rating_sum_def)
qed

theorem analyze_avgRating_bound_witness:
  "(\<exists>resp. analyze_reviews (ustr_of ''tell me about this dish'') ex_reviews (ustr_of ''Biryani'')
      (ustr_of ''24h'') = Inr resp \<and>
    \<bar>fval (avgRating (metadata resp)) - exact_mean ex_reviews\<bar> \<le> 1 / 20 + 1 / 2 ^ 50) \<and>
   ex_reviews \<noteq> [] \<and> list_all (\<lambda>r. 1 \<le> rating r \<and> rating r \<le> 5) ex_reviews"
proof -
  let ?q = "ustr_of ''tell me about this dish''"
  have "\<exists>resp. analyze_reviews ?q ex_reviews (ustr_of ''Biryani'') (ustr_of ''24h'') = Inr resp"
    by (rule exI, rule analyze_reviews_Inr) (simp add: py_defs)+
  then obtain resp where r: "analyze_reviews ?q ex_reviews (ustr_of ''Biryani'') (ustr_of ''24h'') = Inr resp" ..
  have ne: "ex_reviews \<noteq> []" and rng: "\<forall>r\<in>set ex_reviews. 1 \<le> rating r \<and> rating r \<le> 5"
    by (simp_all add: ex_reviews_def ex_review_def)
  show ?thesis
    using r ne rng analyze_avgRating_bound [OF r ne rng]
    by (auto simp: list_all_iff)
qed

text \<open>C23: a recommendation question about reviews whose exact mean is below 3 gets the one-line
  "Heads up" answer with the float mean formatted to one decimal.\<close>

theorem analyze_recommendation_low:
  assumes rec: "mentions_any recommendation_words (py_lower question)"
    and ne: "reviews \<noteq> []" and small: "length reviews * 4 \<le> 2 ^ 52"
    and lo: "sum_list (map rating reviews) < 3 * int (length reviews)"
    and a: "analyze_reviews question reviews dish_name window = Inr resp"
  shows "\<exists>avg. py_true_div (sum_list (map rating reviews)) (int (length reviews)) = Inr avg \<and>
    answer resp = ustr_of ''**Heads up '' @ [8212] @ ustr_of '' '' @ dish_name
      @ ustr_of '' has low ratings recently.** Average: '' @ py_format1 avg @ ustr_of ''/5 from ''
      @ py_digits (length reviews) @ ustr_of '' reviews.''"
proof -
  from a ne obtain st parts avg1 where st: "aggregate reviews = Inr st"
    and p: "render (classify (py_lower question) (extract_keywords question)
           (selected_reviews (extract_keywords question) reviews))
           dish_name window reviews st (extract_keywords question)
           (selected_reviews (extract_keywords question) reviews) = Inr parts"
    and resp: "answer resp = py_join [10] parts"
    by (rule analyze_reviews_InrE) simp
  from p rec have r: "render_recommendation dish_name window st = Inr parts"
    by (simp add: classify_def)
  note agg = aggregate_Inr [OF st]
  have "float_ge_int (avg_rating st) (int 4) \<longleftrightarrow> int 4 * int (length reviews) \<le> rating_sum reviews"
    using agg ne small by (intro py_true_div_ge_int_iff) simp_all
  with lo have ge4: "\<not> float_ge_int (avg_rating st) 4"
    by (simp add: rating_sum_def)
  have "length reviews * 3 \<le> length reviews * 4" by simp
  with small have small3: "length reviews * 3 \<le> 2 ^ 52" by linarith
  have "float_ge_int (avg_rating st) (int 3) \<longleftrightarrow> int 3 * int (length reviews) \<le> rating_sum reviews"
    using agg ne small3 by (intro py_true_div_ge_int_iff) simp_all
  with lo have ge3: "\<not> float_ge_int (avg_rating st) 3"
    by (simp add: rating_sum_def)
  have "parts = [ustr_of ''**Heads up '' @ [8212] @ ustr_of '' '' @ dish_name
             @ ustr_of '' has low ratings recently.** Average: '' @ py_format1 (avg_rating st)
             @ ustr_of ''/5 from '' @ py_digits (total st) @ ustr_of '' reviews.'']"
    using r ge4 ge3 by (simp add: render_recommendation_def)
  with resp agg show ?thesis
    by (intro exI [of _ "avg_rating st"]) (simp add: rating_sum_def)
qed

theorem analyze_recommendation_low_witness:
  "mentions_any recommendation_words (py_lower (ustr_of ''Should I order it?'')) \<and> ex_low \<noteq> [] \<and>
   length ex_low * 4 \<le> 2 ^ 52 \<and> sum_list (map rating ex_low) < 3 * int (length ex_low) \<and>
   (\<exists>resp. analyze_reviews (ustr_of ''Should I order it?'') ex_low (ustr_of ''Dal'') (ustr_of ''24h'')
      = Inr resp \<and>
    (\<exists>avg. py_true_div (sum_list (map rating ex_low)) (int (length ex_low)) = Inr avg \<and>
     answer resp = ustr_of ''**Heads up '' @ [8212] @ ustr_of '' '' @ ustr_of ''Dal''
      @ ustr_of '' has low ratings recently.** Average: '' @ py_format1 avg @ ustr_of ''/5 from ''
      @ py_digits (length ex_low) @ ustr_of '' reviews.''))"
proof -
  let ?q = "ustr_of ''Should I order it?''"
  have m: "mentions_any recommendation_words (py_lower ?q)" by (simp add: py_defs)
  have ne: "ex_low \<noteq> []" and sm: "length ex_low * 4 \<le> 2 ^ 52"
    and lo: "sum_list (map rating ex_low) < 3 * int (length ex_low)"
    by (simp_all add: py_defs)
  have "\<exists>resp. analyze_reviews ?q ex_low (ustr_of ''Dal'') (ustr_of ''24h'') = Inr resp"
    by (rule exI, rule analyze_reviews_Inr) (simp add: py_defs)+
  then obtain resp where r: "analyze_reviews ?q ex_low (ustr_of ''Dal'') (ustr_of ''24h'') = Inr resp" ..
  show ?thesis
    using m ne sm lo r analyze_recommendation_low [OF m ne sm lo r]
    by (intro conjI exI [of _ resp]) simp_all
qed

text \<open>C24: a negative-check question about reviews none of which is rated 2 or lower gets the
  celebratory answer, which calls all reviews positive even when they are rated 3 (neither low
  nor high for the code).\<close>

theorem analyze_negative_none:
  assumes nr: "\<not> mentions_any recommendation_words (py_lower question)"
    and neg: "mentions_any negative_words (py_lower question)"
    and ne: "reviews \<noteq> []" and nolow: "filter is_low reviews = []"
    and a: "analyze_reviews question reviews dish_name window = Inr resp"
  shows "\<exists>avg. py_true_div (sum_list (map rating reviews)) (int (length reviews)) = Inr avg \<and>
    answer resp = ustr_of ''No negative reviews found for '' @ dish_name @ ustr_of '' in the last ''
      @ window @ ustr_of ''. All '' @ py_digits (length reviews)
      @ ustr_of '' reviews are positive (avg '' @ py_format1 avg @ ustr_of ''/5)! '' @ [127881]"
proof -
  from a ne obtain st parts avg1 where st: "aggregate reviews = Inr st"
    and p: "render (classify (py_lower question) (extract_keywords question)
           (selected_reviews (extract_keywords question) reviews))
           dish_name window reviews st (extract_keywords question)
           (selected_reviews (extract_keywords question) reviews) = Inr parts"
    and resp: "answer resp = py_join [10] parts"
    by (rule analyze_reviews_InrE) simp
  from p nr neg have "Inr parts = render_negative dish_name window st"
    by (simp add: classify_def)
  with resp aggregate_Inr [OF st] nolow show ?thesis
    by (intro exI [of _ "avg_rating st"]) (simp add: render_negative_def rating_sum_def)
qed

theorem analyze_negative_none_witness:
  "\<not> mentions_any recommendation_words (py_lower (ustr_of ''Any problem?'')) \<and>
   mentions_any negative_words (py_lower (ustr_of ''Any problem?'')) \<and>
   ex_neutral \<noteq> [] \<and> filter is_low ex_neutral = [] \<and>
   (\<exists>resp. analyze_reviews (ustr_of ''Any problem?'') ex_neutral (ustr_of ''Dal'') (ustr_of ''24h'')
      = Inr resp \<and>
    (\<exists>avg. py_true_div (sum_list (map rating ex_neutral)) (int (length ex_neutral)) = Inr avg \<and>
     answer resp = ustr_of ''No negative reviews found for '' @ ustr_of ''Dal'' @ ustr_of '' in the last ''
      @ ustr_of ''24h'' @ ustr_of ''. All '' @ py_digits (length ex_neutral)
      @ ustr_of '' reviews are positive (avg '' @ py_format1 avg @ ustr_of ''/5)! '' @ [127881]))"
proof -
  let ?q = "ustr_of ''Any problem?''"
  have nr: "\<not> mentions_any recommendation_words (py_lower ?q)" by (simp add: py_defs)
  have neg: "mentions_any negative_words (py_lower ?q)" by (simp add: py_defs)
  have ne: "ex_neutral \<noteq> []" and nl: "filter is_low ex_neutral = []" by (simp_all add: py_defs)
  have "\<exists>resp. analyze_reviews ?q ex_neutral (ustr_of ''Dal'') (ustr_of ''24h'') = Inr resp"
    by (rule exI, rule analyze_reviews_Inr) (simp add: py_defs)+
  then obtain resp where r: "analyze_reviews ?q ex_neutral (ustr_of ''Dal'') (ustr_of ''24h'') = Inr resp" ..
  show ?thesis
    using nr neg ne nl r analyze_negative_none [OF nr neg ne nl r]
    by (intro conjI exI [of _ resp]) simp_all
qed

text \<open>C25: the default summary quotes, as "Latest positive", the first review rated 4 or more in
  input order; the code does not consult \<open>createdAt\<close>, so the quoted review is the latest
  only when the caller sends the reviews newest first.\<close>

theorem analyze_summary_first_positive:
  assumes nr: "\<not> mentions_any recommendation_words (py_lower question)"
    and nn: "\<not> mentions_any negative_words (py_lower question)"
    and nc: "\<not> mentions_any consistency_words (py_lower question)"
    and nk: "extract_keywords question = []"
    and hi: "filter is_high reviews \<noteq> []"
    and a: "analyze_reviews question reviews dish_name window = Inr resp"
  shows "suffix (quote_excerpt (ustr_of ''Latest positive: '') 120 (hd (filter is_high reviews)))
    (answer resp)"
proof -
  have ne: "reviews \<noteq> []" using hi by auto
  from a ne obtain st parts avg1 where st: "aggregate reviews = Inr st"
    and p: "render (classify (py_lower question) (extract_keywords question)
           (selected_reviews (extract_keywords question) reviews))
           dish_name window reviews st (extract_keywords question)
           (selected_reviews (extract_keywords question) reviews) = Inr parts"
    and resp: "answer resp = py_join [10] parts"
    by (rule analyze_reviews_InrE) simp
  from p nr nn nc nk have "render_summary dish_name window st = Inr parts"
    by (simp add: classify_def)
  with aggregate_Inr [OF st] hi obtain head where
    "parts = head @ [quote_excerpt (ustr_of ''Latest positive: '') 120 (hd (filter is_high reviews))]"
    by (simp add: render_summary_def Let_def split: if_splits)
  with resp show ?thesis
    by (simp add: suffix_py_join_last)
qed

theorem analyze_summary_first_positive_witness:
  "\<not> mentions_any recommendation_words (py_lower (ustr_of ''tell me about this dish'')) \<and>
   \<not> mentions_any negative_words (py_lower (ustr_of ''tell me about this dish'')) \<and>
   \<not> mentions_any consistency_words (py_lower (ustr_of ''tell me about this dish'')) \<and>
   extract_keywords (ustr_of ''tell me about this dish'') = [] \<and> filter is_high ex_dated \<noteq> [] \<and>
   (\<exists>resp. analyze_reviews (ustr_of ''tell me about this dish'') ex_dated (ustr_of ''Dal'')
      (ustr_of ''24h'') = Inr resp \<and>
    suffix (quote_excerpt (ustr_of ''Latest positive: '') 120 (hd (filter is_high ex_dated)))
      (answer resp)) \<and>
   review_id (hd (filter is_high ex_dated)) = ustr_of ''d1''"
proof -
  let ?q = "ustr_of ''tell me about this dish''"
  have nr: "\<not> mentions_any recommendation_words (py_lower ?q)" by (simp add: py_defs)
  have nn: "\<not> mentions_any negative_words (py_lower ?q)" by (simp add: py_defs)
  have nc: "\<not> mentions_any consistency_words (py_lower ?q)" by (simp add: py_defs)
  have nk: "extract_keywords ?q = []" by (simp add: py_defs)
  have hi: "filter is_high ex_dated \<noteq> []" by (simp add: py_defs)
  have "\<exists>resp. analyze_reviews ?q ex_dated (ustr_of ''Dal'') (ustr_of ''24h'') = Inr resp"
    by (rule exI, rule analyze_reviews_Inr) (simp add: py_defs)+
  then obtain resp where r: "analyze_reviews ?q ex_dated (ustr_of ''Dal'') (ustr_of ''24h'') = Inr resp" ..
  have d1: "review_id (hd (filter is_high ex_dated)) = ustr_of ''d1''" by (simp add: py_defs)
  show ?thesis
    using nr nn nc nk hi r d1 analyze_summary_first_positive [OF nr nn nc nk hi r]
    by (intro conjI exI [of _ resp]) simp_all
qed



end
